(* ===== verification/Prelude.thy ===== *)
theory Prelude
  imports Main "HOL-Library.State_Monad"
begin

text \<open>
  Shared vocabulary of the development.

  Every call of the program that leaves it (the Kubernetes client, etcd, the whereabouts
  binary) is a computation over an abstract world \<open>'w\<close>: it returns a value or an error
  and the world it leaves behind.  The world is a type variable throughout, so a theorem that
  gives the final world of a handler also says which calls the handler makes and which it does
  not make: the only way to get a new world is to make a call.

  The Go idiom \<open>x, err := m(); if err != nil { h }; f(x)\<close> is the combinator \<open>call m h f\<close>.
\<close>

named_theorems io_simps "running a computation of the world monad"
named_theorems io_frame "computations that keep a predicate of the world"

type_synonym ('e, 'a) result = "'e + 'a"
type_synonym ('w, 'e, 'a) io = "('w, 'e + 'a) state"

definition ok :: "'a \<Rightarrow> ('w, 'e, 'a) io" where
  "ok a = State_Monad.return (Inr a)"

definition fail :: "'e \<Rightarrow> ('w, 'e, 'a) io" where
  "fail e = State_Monad.return (Inl e)"

definition call ::
  "('w, 'e + 'a) state \<Rightarrow> ('e \<Rightarrow> ('w, 'b) state) \<Rightarrow> ('a \<Rightarrow> ('w, 'b) state) \<Rightarrow> ('w, 'b) state" where
  "call m h f = State_Monad.bind m (\<lambda>x. case x of Inl e \<Rightarrow> h e | Inr a \<Rightarrow> f a)"

lemma run_ok [simp, io_simps]: "run_state (ok a) w = (Inr a, w)"
  by (simp add: ok_def)

lemma run_fail [simp, io_simps]: "run_state (fail e) w = (Inl e, w)"
  by (simp add: fail_def)

lemma run_call [io_simps]:
  "run_state (call m h f) w =
     (case run_state m w of (Inl e, w') \<Rightarrow> run_state (h e) w' | (Inr a, w') \<Rightarrow> run_state (f a) w')"
  by (simp add: call_def split: prod.splits sum.splits)

lemma run_call_Inl [simp]:
  "run_state m w = (Inl e, w') \<Longrightarrow> run_state (call m h f) w = run_state (h e) w'"
  by (simp add: run_call)

lemma run_call_Inr [simp]:
  "run_state m w = (Inr a, w') \<Longrightarrow> run_state (call m h f) w = run_state (f a) w'"
  by (simp add: run_call)

text \<open>A computation keeps a predicate of the world.\<close>

definition keeps :: "('w \<Rightarrow> bool) \<Rightarrow> ('w, 'a) state \<Rightarrow> bool" where
  "keeps P m \<longleftrightarrow> (\<forall>w. P w \<longrightarrow> P (snd (run_state m w)))"

lemma keepsD: "keeps P m \<Longrightarrow> P w \<Longrightarrow> run_state m w = (x, w') \<Longrightarrow> P w'"
  by (metis keeps_def snd_conv)

lemma keepsI: "(\<And>w x w'. P w \<Longrightarrow> run_state m w = (x, w') \<Longrightarrow> P w') \<Longrightarrow> keeps P m"
  unfolding keeps_def by (metis prod.collapse)

lemma keeps_ok [simp, io_frame]: "keeps P (ok a)"
  by (simp add: keeps_def)

lemma keeps_fail [simp, io_frame]: "keeps P (fail e)"
  by (simp add: keeps_def)

lemma keeps_return [simp, io_frame]: "keeps P (State_Monad.return a)"
  by (simp add: keeps_def)

lemma keeps_call [io_frame]:
  "keeps P m \<Longrightarrow> (\<And>e. keeps P (h e)) \<Longrightarrow> (\<And>a. keeps P (f a)) \<Longrightarrow> keeps P (call m h f)"
  unfolding keeps_def run_call by (fastforce split: prod.splits sum.splits)

lemma keeps_if [io_frame]: "(b \<Longrightarrow> keeps P m) \<Longrightarrow> (\<not> b \<Longrightarrow> keeps P n) \<Longrightarrow> keeps P (if b then m else n)"
  by simp

text \<open>A byte of a Go string as a number.\<close>

definition byte :: "char \<Rightarrow> nat" where
  "byte c = of_char c"

lemma byte_Char [simp]: "byte (Char a b c d e f g h) = of_char (Char a b c d e f g h)"
  by (simp add: byte_def)

lemma byte_inj [simp]: "byte c = byte d \<longleftrightarrow> c = d"
  by (simp add: byte_def)

lemma byte_less [simp]: "byte c < 256"
  by (simp add: byte_def nat_of_char_less_256)

lemma byte_char_of [simp]: "n < 256 \<Longrightarrow> byte (char_of n) = n"
  by (simp add: byte_def)

lemma char_of_byte [simp]: "char_of (byte c) = c"
  by (simp add: byte_def)

lemma byte_eq_iff: "n < 256 \<Longrightarrow> byte c = n \<longleftrightarrow> c = char_of n"
  by auto

text \<open>Generic facts on lists used by several components.\<close>

lemma append_eq_sep:
  assumes "xs @ c # ys = xs' @ c # ys'" "c \<notin> set xs" "c \<notin> set xs'"
  shows "xs = xs' \<and> ys = ys'"
  using assms
proof (induction xs arbitrary: xs')
  case Nil
  then show ?case by (cases xs') auto
next
  case (Cons x xs)
  then show ?case by (cases xs') auto
qed

end
