(* ===== verification/GoFlag.thy ===== *)
theory GoFlag
  imports GoStrings "HOL-Library.Sublist"
begin

text \<open>
  Go's \<open>flag\<close> package, as far as the two binaries use it: string and boolean flags, given as \<open>-name value\<close>,
  \<open>--name value\<close>, \<open>-name=value\<close> or, for booleans, \<open>-name\<close> alone.  A flag set maps a name to
  whether the flag is boolean and to its setter, which may refuse a value.  \<open>flag.Parse\<close> exits with status
  0 after a request for help and with status 2 after an error.
\<close>

datatype FlagError = ErrHelp | BadSyntax string | NotDefined string | NeedsArgument string | InvalidValue string string

record 'c Flag =
  IsBool :: bool
  Set :: "string \<Rightarrow> 'c \<Rightarrow> 'c option"

type_synonym 'c FlagSet = "(string \<times> 'c Flag) list"

text \<open>\<open>strconv.ParseBool\<close>.\<close>

definition ParseBool :: "string \<Rightarrow> bool option" where
  "ParseBool s =
     (if s \<in> {''1'', ''t'', ''T'', ''true'', ''TRUE'', ''True''} then Some True
      else if s \<in> {''0'', ''f'', ''F'', ''false'', ''FALSE'', ''False''} then Some False
      else None)"

definition StringVar :: "(string \<Rightarrow> 'c \<Rightarrow> 'c) \<Rightarrow> 'c Flag" where
  "StringVar upd = \<lparr>IsBool = False, Set = (\<lambda>v c. Some (upd v c))\<rparr>"

definition BoolVar :: "(bool \<Rightarrow> 'c \<Rightarrow> 'c) \<Rightarrow> 'c Flag" where
  "BoolVar upd = \<lparr>IsBool = True, Set = (\<lambda>v c. map_option (\<lambda>b. upd b c) (ParseBool v))\<rparr>"

text \<open>A name with its value, if there is one: the sign of equality cannot be the first character.\<close>

definition split_flag :: "string \<Rightarrow> string \<times> string option" where
  "split_flag s = (case s of [] \<Rightarrow> ([], None) | c # cs \<Rightarrow>
     (case Cut (CHR ''='') cs of None \<Rightarrow> (s, None) | Some (n, v) \<Rightarrow> (c # n, Some v)))"

text \<open>The name part of an argument: \<open>None\<close> when the argument ends the flags, with the arguments left over.\<close>

datatype Token = EndOfFlags | Terminator | FlagToken string

definition token :: "string \<Rightarrow> Token" where
  "token s = (case s of
     c # d # cs \<Rightarrow>
       if c \<noteq> CHR ''-'' then EndOfFlags
       else if d = CHR ''-'' then (if cs = [] then Terminator else FlagToken cs)
       else FlagToken (d # cs)
   | _ \<Rightarrow> EndOfFlags)"

definition set_flag :: "'c Flag \<Rightarrow> string \<Rightarrow> string \<Rightarrow> 'c \<Rightarrow> FlagError + 'c" where
  "set_flag f name v c = (case Set f v c of None \<Rightarrow> Inl (InvalidValue v name) | Some c' \<Rightarrow> Inr c')"

fun Parse :: "'c FlagSet \<Rightarrow> string list \<Rightarrow> 'c \<Rightarrow> FlagError + ('c \<times> string list)" where
  "Parse fs [] c = Inr (c, [])"
| "Parse fs (a # as) c =
     (case token a of
        EndOfFlags \<Rightarrow> Inr (c, a # as)
      | Terminator \<Rightarrow> Inr (c, as)
      | FlagToken s \<Rightarrow>
          if s = [] \<or> hd s = CHR ''-'' \<or> hd s = CHR ''='' then Inl (BadSyntax a)
          else (case split_flag s of (name, v) \<Rightarrow>
            (case map_of fs name of
               None \<Rightarrow> Inl (if name = ''help'' \<or> name = ''h'' then ErrHelp else NotDefined name)
             | Some f \<Rightarrow>
                 if IsBool f then
                   (case set_flag f name (case v of None \<Rightarrow> ''true'' | Some v \<Rightarrow> v) c of
                      Inl e \<Rightarrow> Inl e | Inr c' \<Rightarrow> Parse fs as c')
                 else
                   (case v of
                      Some v \<Rightarrow> (case set_flag f name v c of Inl e \<Rightarrow> Inl e | Inr c' \<Rightarrow> Parse fs as c')
                    | None \<Rightarrow>
                        (case as of
                           [] \<Rightarrow> Inl (NeedsArgument name)
                         | v # as' \<Rightarrow> (case set_flag f name v c of Inl e \<Rightarrow> Inl e | Inr c' \<Rightarrow> Parse fs as' c'))))))"

text \<open>The status \<open>flag.Parse\<close> exits with.\<close>

definition flag_exit :: "FlagError \<Rightarrow> nat" where
  "flag_exit e = (if e = ErrHelp then 0 else 2)"

section \<open>Facts\<close>

text \<open>The four ways an argument can name a flag.\<close>

definition names_flag :: "string \<Rightarrow> string \<Rightarrow> bool" where
  "names_flag n a \<longleftrightarrow> a = ''-'' @ n \<or> a = ''--'' @ n \<or> prefix (''-'' @ n @ ''='') a \<or> prefix (''--'' @ n @ ''='') a"

lemma token_FlagToken: "token a = FlagToken s \<Longrightarrow> a = ''-'' @ s \<or> a = ''--'' @ s"
  by (auto simp: token_def split: list.splits if_splits)

lemma split_flag_parts: "split_flag s = (n, v) \<Longrightarrow> s = (case v of None \<Rightarrow> n | Some x \<Rightarrow> n @ ''='' @ x)"
  by (auto simp: split_flag_def dest!: Cut_SomeD split: list.splits option.splits)

lemma names_flag_token:
  assumes "token a = FlagToken s" "split_flag s = (n, v)"
  shows "names_flag n a"
  using token_FlagToken [OF assms(1)] split_flag_parts [OF assms(2)]
  by (auto simp: names_flag_def split: option.splits)

text \<open>One step of \<open>Parse\<close>: the argument names a flag that accepted its value, and the arguments that are left are fewer.\<close>

lemma Parse_flag_step:
  assumes "Parse fs (a # as) c = Inr (c', rest)" "token a = FlagToken s"
  shows "\<exists>n f x c1 as'. names_flag n a \<and> (n, f) \<in> set fs \<and> Set f x c = Some c1 \<and> Parse fs as' c1 = Inr (c', rest) \<and>
    set as' \<subseteq> set as \<and> length as' \<le> length as"
proof -
  obtain n v where nv: "split_flag s = (n, v)" by (meson surj_pair)
  with assms obtain f where f: "map_of fs n = Some f" by (auto split: if_splits option.splits)
  have "\<exists>x c1 as'. Set f x c = Some c1 \<and> Parse fs as' c1 = Inr (c', rest) \<and> set as' \<subseteq> set as \<and> length as' \<le> length as"
    using assms nv f by (fastforce simp: set_flag_def split: if_splits option.splits sum.splits list.splits)
  with names_flag_token [OF assms(2) nv] map_of_SomeD [OF f] show ?thesis by blast
qed

text \<open>What the setters of the named flags keep, parsing keeps, however the arguments are written.\<close>

lemma Parse_keeps:
  assumes "Parse fs args c = Inr (c', rest)" "P c"
    and "\<And>n f v c c'. list_ex (names_flag n) args \<Longrightarrow> (n, f) \<in> set fs \<Longrightarrow> Set f v c = Some c' \<Longrightarrow> P c \<Longrightarrow> P c'"
  shows "P c'"
proof -
  have "P c'" if "Parse fs as c = Inr (c', rest)" "P c" "set as \<subseteq> set args" for as c
    using that
  proof (induction as arbitrary: c rule: length_induct)
    case (1 as)
    show ?case
    proof (cases as)
      case Nil
      with 1 show ?thesis by simp
    next
      case (Cons a bs)
      show ?thesis
      proof (cases "token a")
        case (FlagToken s)
        from Parse_flag_step [OF 1(2) [unfolded Cons] this] obtain n f x c1 as' where
          s: "names_flag n a" "(n, f) \<in> set fs" "Set f x c = Some c1" "Parse fs as' c1 = Inr (c', rest)"
          "set as' \<subseteq> set bs" "length as' \<le> length bs" by blast
        have "list_ex (names_flag n) args" using s(1) 1(4) Cons by (auto simp: list_ex_iff)
        from assms(3) [OF this s(2,3) 1(3)] have "P c1" .
        moreover have "length as' < length as" "set as' \<subseteq> set args" using s(5,6) 1(4) Cons by auto
        ultimately show ?thesis using 1(1) s(4) by blast
      qed (use 1 Cons in auto)
    qed
  qed
  with assms(1,2) show ?thesis by blast
qed

end
