(* ===== verification/GoPath.thy ===== *)
theory GoPath
  imports GoStrings
begin

text \<open>
  \<open>filepath.Clean\<close> and \<open>filepath.Dir\<close> of Go on Unix: empty and \<open>.\<close> elements go, \<open>..\<close> takes
  the element before it away, and cannot leave the root.
\<close>

definition clean_step :: "bool \<Rightarrow> string list \<Rightarrow> string \<Rightarrow> string list" where
  "clean_step rooted out e =
     (if e = [] \<or> e = ''.'' then out
      else if e = ''..'' then
        (if out \<noteq> [] \<and> last out \<noteq> ''..'' then butlast out
         else if rooted then out else out @ [e])
      else out @ [e])"

definition Clean :: "string \<Rightarrow> string" where
  "Clean path =
     (let rooted = (path \<noteq> [] \<and> hd path = CHR ''/'');
          out = Join (foldl (clean_step rooted) [] (Split (CHR ''/'') path)) ''/''
      in if rooted then ''/'' @ out else if out = [] then ''.'' else out)"

definition Dir :: "string \<Rightarrow> string" where
  "Dir path = Clean (rev (dropWhile (\<lambda>c. c \<noteq> CHR ''/'') (rev path)))"

section \<open>Facts\<close>

definition path_element :: "string \<Rightarrow> bool" where
  "path_element e \<longleftrightarrow> e \<noteq> [] \<and> e \<noteq> ''.'' \<and> e \<noteq> ''..'' \<and> CHR ''/'' \<notin> set e"

lemma clean_elements: "list_all path_element es \<Longrightarrow> foldl (clean_step r) out es = out @ es"
  by (induction es arbitrary: out) (auto simp: clean_step_def path_element_def)

text \<open>The directory of a file is the path without its last element.\<close>

lemma Dir_file:
  assumes "list_all path_element es" "path_element f"
  shows "Dir (''/'' @ Join (es @ [f]) ''/'') = ''/'' @ Join es ''/''"
proof -
  have f: "CHR ''/'' \<notin> set f" using assms(2) by (simp add: path_element_def)
  have cut: "rev (dropWhile (\<lambda>c. c \<noteq> CHR ''/'') (rev (p @ ''/'' @ f))) = p @ ''/''" for p
  proof -
    have "dropWhile (\<lambda>c. c \<noteq> CHR ''/'') (rev f @ CHR ''/'' # rev p) = CHR ''/'' # rev p"
      using f by (subst dropWhile_append2) auto
    then show ?thesis by simp
  qed
  show ?thesis
  proof (cases "es = []")
    case True
    have "Dir (''/'' @ f) = Clean ''/''" using cut [of "[]"] unfolding Dir_def by (simp only: append_Nil)
    also have "\<dots> = ''/''" by (simp add: Clean_def clean_step_def)
    finally show ?thesis by (simp only: True append_Nil Join.simps append_Nil2)
  next
    case False
    have sep: "CHR ''/'' \<notin> set p" if "p \<in> set ([] # es @ [[]])" for p
    proof -
      from that consider "p = []" | "p \<in> set es" by auto
      then show ?thesis by cases (use assms(1) in \<open>auto simp: list_all_iff path_element_def\<close>)
    qed
    have "Dir (''/'' @ Join (es @ [f]) ''/'') = Clean (''/'' @ Join es ''/'' @ ''/'')"
      using cut [of "''/'' @ Join es ''/''"] unfolding Dir_def by (simp only: Join_append [OF False] append_assoc Join.simps not_Cons_self2 list.distinct simp_thms)
    moreover have j: "''/'' @ Join es ''/'' @ ''/'' = Join ([] # es @ [[]]) ''/''"
      using False by (simp add: Join_Cons Join_append)
    moreover have "Split (CHR ''/'') (Join ([] # es @ [[]]) ''/'') = [] # es @ [[]]"
      by (rule Split_Join) (use sep in blast)+
    moreover have "foldl (clean_step True) [] ([] # es @ [[]]) = es"
      using clean_elements [OF assms(1), of True "[]"] by (simp add: clean_step_def)
    moreover have "Clean p = ''/'' @ Join (foldl (clean_step True) [] (Split (CHR ''/'') p)) ''/''" if "p = ''/'' @ q" for p q
      unfolding Clean_def that by simp
    ultimately show ?thesis by metis
  qed
qed

end
