(* ===== verification/GoRegexp.thy ===== *)
theory GoRegexp
  imports Prelude
begin

text \<open>
  Anchored regular expressions, for the three patterns of the program (claim UIDs, DNS labels
  and the \<open>ipRange\<close> validation marker).  All three have the form \<open>^...$\<close> without the
  multi-line flag, so \<open>MatchString\<close> asks whether the whole string matches; their classes are
  ASCII, so matching bytes is matching runes.

  \<open>in_lang\<close> is the language of an expression, \<open>MatchString\<close> an executable matcher by
  derivatives, and \<open>MatchString_iff\<close> says that the matcher decides the language.
\<close>

section \<open>Expressions and their language\<close>

datatype rx =
    RNone
  | REps
  | RClass "(char \<times> char) list"
  | RSeq rx rx
  | RAlt rx rx
  | RStar rx

abbreviation RChr :: "char \<Rightarrow> rx" where "RChr c \<equiv> RClass [(c, c)]"
abbreviation ROpt :: "rx \<Rightarrow> rx" where "ROpt r \<equiv> RAlt r REps"
abbreviation RPlus :: "rx \<Rightarrow> rx" where "RPlus r \<equiv> RSeq r (RStar r)"

definition in_class :: "(char \<times> char) list \<Rightarrow> char \<Rightarrow> bool" where
  "in_class rs c = list_ex (\<lambda>(lo, hi). byte lo \<le> byte c \<and> byte c \<le> byte hi) rs"

inductive in_lang :: "rx \<Rightarrow> string \<Rightarrow> bool" where
  eps: "in_lang REps []"
| cls: "in_class rs c \<Longrightarrow> in_lang (RClass rs) [c]"
| seq: "in_lang r s \<Longrightarrow> in_lang q t \<Longrightarrow> in_lang (RSeq r q) (s @ t)"
| altl: "in_lang r s \<Longrightarrow> in_lang (RAlt r q) s"
| altr: "in_lang q s \<Longrightarrow> in_lang (RAlt r q) s"
| star0: "in_lang (RStar r) []"
| star1: "in_lang r s \<Longrightarrow> in_lang (RStar r) t \<Longrightarrow> in_lang (RStar r) (s @ t)"

inductive_simps in_lang_simps:
  "in_lang RNone s" "in_lang REps s" "in_lang (RClass rs) s" "in_lang (RSeq r q) s"
  "in_lang (RAlt r q) s"

section \<open>The matcher\<close>

fun nullable :: "rx \<Rightarrow> bool" where
  "nullable RNone = False"
| "nullable REps = True"
| "nullable (RClass _) = False"
| "nullable (RSeq r q) = (nullable r \<and> nullable q)"
| "nullable (RAlt r q) = (nullable r \<or> nullable q)"
| "nullable (RStar _) = True"

text \<open>Constructors that drop empty alternatives keep the derivatives small.\<close>

fun mk_seq :: "rx \<Rightarrow> rx \<Rightarrow> rx" where
  "mk_seq RNone q = RNone"
| "mk_seq REps q = q"
| "mk_seq r q = (if q = RNone then RNone else RSeq r q)"

fun mk_alt :: "rx \<Rightarrow> rx \<Rightarrow> rx" where
  "mk_alt RNone q = q"
| "mk_alt r q = (if q = RNone \<or> q = r then r else RAlt r q)"

fun rderiv :: "char \<Rightarrow> rx \<Rightarrow> rx" where
  "rderiv c RNone = RNone"
| "rderiv c REps = RNone"
| "rderiv c (RClass rs) = (if in_class rs c then REps else RNone)"
| "rderiv c (RSeq r q) =
     (if nullable r then mk_alt (mk_seq (rderiv c r) q) (rderiv c q) else mk_seq (rderiv c r) q)"
| "rderiv c (RAlt r q) = mk_alt (rderiv c r) (rderiv c q)"
| "rderiv c (RStar r) = mk_seq (rderiv c r) (RStar r)"

fun MatchString :: "rx \<Rightarrow> string \<Rightarrow> bool" where
  "MatchString r [] = nullable r"
| "MatchString r (c # s) = MatchString (rderiv c r) s"

section \<open>The matcher decides the language\<close>

lemma nullable_iff: "nullable r \<longleftrightarrow> in_lang r []"
  by (induction r) (auto simp: in_lang_simps intro: star0)

lemma mk_seq_lang: "in_lang (mk_seq r q) s \<longleftrightarrow> in_lang (RSeq r q) s"
  by (cases r) (auto simp: in_lang_simps)

lemma mk_alt_lang: "in_lang (mk_alt r q) s \<longleftrightarrow> in_lang (RAlt r q) s"
  by (cases r) (auto simp: in_lang_simps)

lemma star_Cons:
  "in_lang (RStar r) (c # s) \<longleftrightarrow> (\<exists>u v. s = u @ v \<and> in_lang r (c # u) \<and> in_lang (RStar r) v)"
proof
  have "in_lang q t \<Longrightarrow> q = RStar r \<Longrightarrow> t = c # s \<Longrightarrow>
      \<exists>u v. s = u @ v \<and> in_lang r (c # u) \<and> in_lang (RStar r) v" for q t
  proof (induction arbitrary: s rule: in_lang.induct)
    case (star1 r' a b)
    then show ?case by (cases a) auto
  qed auto
  then show "in_lang (RStar r) (c # s) \<Longrightarrow>
      \<exists>u v. s = u @ v \<and> in_lang r (c # u) \<and> in_lang (RStar r) v" by blast
next
  assume "\<exists>u v. s = u @ v \<and> in_lang r (c # u) \<and> in_lang (RStar r) v"
  then show "in_lang (RStar r) (c # s)" by (metis append_Cons star1)
qed

lemma rderiv_lang: "in_lang (rderiv c r) s \<longleftrightarrow> in_lang r (c # s)"
proof (induction r arbitrary: s)
  case (RSeq r q)
  have "in_lang (RSeq r q) (c # s) \<longleftrightarrow>
      in_lang r [] \<and> in_lang q (c # s) \<or> (\<exists>u v. s = u @ v \<and> in_lang r (c # u) \<and> in_lang q v)"
    unfolding in_lang_simps by (auto simp: Cons_eq_append_conv)
  with RSeq show ?case
    by (auto simp: mk_seq_lang mk_alt_lang in_lang_simps nullable_iff)
next
  case (RStar r)
  then show ?case by (auto simp: mk_seq_lang star_Cons in_lang_simps)
qed (auto simp: in_lang_simps mk_alt_lang)

lemma MatchString_iff: "MatchString r s \<longleftrightarrow> in_lang r s"
  by (induction s arbitrary: r) (auto simp: nullable_iff rderiv_lang)

section \<open>Repetition of a class\<close>

lemma in_lang_star_class: "in_lang (RStar (RClass rs)) s \<longleftrightarrow> list_all (in_class rs) s"
proof (induction s)
  case Nil
  then show ?case by (simp add: star0)
next
  case (Cons c s)
  then show ?case by (auto simp: star_Cons in_lang_simps)
qed

lemma in_lang_class_Cons:
  "in_lang (RSeq (RClass rs) q) (c # s) \<longleftrightarrow> in_class rs c \<and> in_lang q s"
  using rderiv_lang [of c "RSeq (RClass rs) q" s]
  by (cases "in_class rs c") (auto simp: in_lang_simps(1))

lemma in_lang_class_Nil: "\<not> in_lang (RSeq (RClass rs) q) []"
  by (auto simp: in_lang_simps)

lemma in_lang_plus_class: "in_lang (RPlus (RClass rs)) s \<longleftrightarrow> s \<noteq> [] \<and> list_all (in_class rs) s"
  by (cases s) (auto simp: in_lang_class_Cons in_lang_class_Nil in_lang_star_class)

lemma in_class_single: "in_class [(x, x)] c \<longleftrightarrow> c = x"
  by (auto simp: in_class_def dest: le_antisym)

lemma in_lang_seq_suffix: "in_lang (RSeq r q) s \<Longrightarrow> \<exists>a t. s = a @ t \<and> in_lang q t"
  by (auto simp: in_lang_simps)

end
