(* ===== verification/ApiTypes.thy ===== *)
theory ApiTypes
  imports GoRegexp GoStrings
begin

text \<open>
  The resource types of \<open>api/v1alpha1\<close>, the fields of the Kubernetes objects the program
  reads or writes, and the interfaces of the libraries it calls.

  The Kubernetes client, the \<open>controllerutil\<close> helpers and the semantic comparison are not part
  of the repository: they are the records \<open>Client\<close> and \<open>ControllerUtil\<close>, arguments of every
  definition that calls them.  \<open>controllerutil_ok\<close> states the documented behaviour of the
  helpers for the theorems that need it.
\<close>

section \<open>labels.go\<close>

definition LabelNumaNetworkName :: string where
  "LabelNumaNetworkName = ''gpu-direct-comm.numaproj.io/numanetwork-name''"

definition LabelVertexDomain :: string where
  "LabelVertexDomain = ''gpu-direct-comm.numaproj.io/vertex-domain''"

definition LabelVertexDomainValue :: string where
  "LabelVertexDomainValue = ''true''"

definition AnnotationVertexDomainFQDN :: string where
  "AnnotationVertexDomainFQDN = ''gpu-direct-comm.numaproj.io/vertex-domain-fqdn''"

section \<open>Object metadata\<close>

record OwnerReference =
  or_APIVersion :: string
  or_Kind :: string
  or_Name :: string
  or_UID :: string
  or_Controller :: bool

text \<open>\<open>om_DeletionTimestamp\<close> is \<open>None\<close> exactly when Go's \<open>DeletionTimestamp.IsZero()\<close> holds.\<close>

record ObjectMeta =
  om_Name :: string
  om_Namespace :: string
  om_Labels :: "string \<rightharpoonup> string"
  om_Annotations :: "string \<rightharpoonup> string"
  om_Finalizers :: "string list"
  om_OwnerReferences :: "OwnerReference list"
  om_DeletionTimestamp :: "nat option"
  om_UID :: string
  om_ResourceVersion :: string

definition empty_meta :: ObjectMeta where
  "empty_meta = \<lparr>om_Name = [], om_Namespace = [], om_Labels = Map.empty, om_Annotations = Map.empty,
     om_Finalizers = [], om_OwnerReferences = [], om_DeletionTimestamp = None, om_UID = [],
     om_ResourceVersion = []\<rparr>"

type_synonym NamespacedName = "string \<times> string"

section \<open>numanetwork\_types.go\<close>

record RefDeviceClass =
  DeviceClass_Name :: string

record RefResourceClaimDranet =
  IPRange :: string

record NumaNetworkSpec =
  RefDeviceClass :: RefDeviceClass
  RefResourceClaimDranet :: RefResourceClaimDranet

record NumaNetwork =
  nn_meta :: ObjectMeta
  nn_Spec :: NumaNetworkSpec

record NumaNetworkList =
  Items :: "NumaNetwork list"

abbreviation nn_Name :: "NumaNetwork \<Rightarrow> string" where "nn_Name nn \<equiv> om_Name (nn_meta nn)"
abbreviation nn_Namespace :: "NumaNetwork \<Rightarrow> string" where "nn_Namespace nn \<equiv> om_Namespace (nn_meta nn)"

text \<open>The validation marker of \<open>ipRange\<close>: four decimal octets and a prefix length up to 32.\<close>

definition d09 :: rx where "d09 = RClass [(CHR ''0'', CHR ''9'')]"

definition octet_rx :: rx where
  "octet_rx =
     RAlt (RSeq (RChr CHR ''2'') (RSeq (RChr CHR ''5'') (RClass [(CHR ''0'', CHR ''5'')])))
      (RAlt (RSeq (RChr CHR ''2'') (RSeq (RClass [(CHR ''0'', CHR ''4'')]) d09))
        (RSeq (ROpt (RClass [(CHR ''0'', CHR ''1'')])) (RSeq d09 (ROpt d09))))"

definition prefix_rx :: rx where
  "prefix_rx =
     RAlt d09 (RAlt (RSeq (RClass [(CHR ''1'', CHR ''2'')]) d09)
       (RSeq (RChr CHR ''3'') (RClass [(CHR ''0'', CHR ''2'')])))"

definition ipRange_rx :: rx where
  "ipRange_rx =
     (let o_dot = RSeq octet_rx (RChr CHR ''.'')
      in RSeq o_dot (RSeq o_dot (RSeq o_dot (RSeq octet_rx (RSeq (RChr CHR ''/'') prefix_rx)))))"

definition ipRange_valid :: "string \<Rightarrow> bool" where
  "ipRange_valid s = MatchString ipRange_rx s"

section \<open>Resource claims and their templates\<close>

record ExactDeviceRequest =
  DeviceClassName :: string
  AllocationMode :: string
  Count :: int

record DeviceRequest =
  dr_Name :: string
  dr_Exactly :: "ExactDeviceRequest option"

record OpaqueDeviceConfiguration =
  Driver :: string
  Parameters :: string

record ResourceClaimTemplateSpec =
  rcts_Labels :: "string \<rightharpoonup> string"
  rcts_Requests :: "DeviceRequest list"
  rcts_Config :: "OpaqueDeviceConfiguration option list"

record ResourceClaimTemplate =
  rct_meta :: ObjectMeta
  rct_Spec :: ResourceClaimTemplateSpec

record AllocatedDeviceStatus =
  NetworkData :: "string list option"

record ResourceClaim =
  rc_meta :: ObjectMeta
  rc_Devices :: "AllocatedDeviceStatus list"

section \<open>Pods\<close>

record EnvVar =
  ev_Name :: string
  ev_Value :: string

text \<open>\<open>co_other\<close> and \<open>pod_other\<close> stand for every field the program carries along unread.\<close>

record Container =
  co_Env :: "EnvVar list"
  co_other :: string

record PodResourceClaimStatus =
  rcs_Name :: string
  rcs_ResourceClaimName :: "string option"

record Pod =
  pod_meta :: ObjectMeta
  pod_Containers :: "Container list"
  pod_ResourceClaimStatuses :: "PodResourceClaimStatus list"
  pod_other :: string

section \<open>Unstructured objects\<close>

text \<open>
  The \<open>map[string]any\<close> tree of an \<open>unstructured.Unstructured\<close>.  A map is an association list
  read with \<open>map_of\<close>.  \<open>ANilArr\<close> is a nil \<open>[]any\<close> stored in an \<open>any\<close>.
\<close>

datatype any =
    ANil
  | ABool bool
  | ANum string
  | AStr string
  | AArr "any list"
  | ANilArr
  | AMap "(string \<times> any) list"

fun set_key :: "string \<Rightarrow> any \<Rightarrow> (string \<times> any) list \<Rightarrow> (string \<times> any) list" where
  "set_key k v [] = [(k, v)]"
| "set_key k v ((k', v') # m) = (if k' = k then (k, v) # m else (k', v') # set_key k v m)"

text \<open>Go's checked type assertions on \<open>any\<close> (a missing key is a nil \<open>any\<close>).\<close>

fun as_map :: "any option \<Rightarrow> (string \<times> any) list option" where
  "as_map (Some (AMap m)) = Some m"
| "as_map _ = None"

fun as_arr :: "any option \<Rightarrow> any list option" where
  "as_arr (Some (AArr xs)) = Some xs"
| "as_arr (Some ANilArr) = Some []"
| "as_arr _ = None"

fun as_str :: "any option \<Rightarrow> string option" where
  "as_str (Some (AStr s)) = Some s"
| "as_str _ = None"

type_synonym Unstructured = "(string \<times> any) list"

text \<open>The methods of \<open>unstructured.Unstructured\<close> the webhooks call.\<close>

record UnstructuredLib =
  us_Unmarshal :: "string \<Rightarrow> string + Unstructured"
  us_Marshal :: "Unstructured \<Rightarrow> string + string"
  GetAnnotations :: "Unstructured \<Rightarrow> (string \<rightharpoonup> string)"
  GetNamespace :: "Unstructured \<Rightarrow> string"
  GetDeletionTimestamp :: "Unstructured \<Rightarrow> nat option"

section \<open>The Kubernetes client\<close>

datatype ApiError = ErrNotFound | ErrAlreadyExists | ErrApi string

definition IsNotFound :: "ApiError \<Rightarrow> bool" where
  "IsNotFound e \<longleftrightarrow> e = ErrNotFound"

definition IsAlreadyExists :: "ApiError \<Rightarrow> bool" where
  "IsAlreadyExists e \<longleftrightarrow> e = ErrAlreadyExists"

text \<open>\<open>Update\<close> and \<open>Create\<close> write the server's answer back into the object they are given; the
  model returns it.  The list calls take a namespace and the labels to match.\<close>

record 'w Client =
  GetNumaNetwork :: "NamespacedName \<Rightarrow> ('w, ApiError, NumaNetwork) io"
  UpdateNumaNetwork :: "NumaNetwork \<Rightarrow> ('w, ApiError, NumaNetwork) io"
  GetRCT :: "NamespacedName \<Rightarrow> ('w, ApiError, ResourceClaimTemplate) io"
  CreateRCT :: "ResourceClaimTemplate \<Rightarrow> ('w, ApiError, ResourceClaimTemplate) io"
  UpdateRCT :: "ResourceClaimTemplate \<Rightarrow> ('w, ApiError, ResourceClaimTemplate) io"
  ListRCTs :: "string \<Rightarrow> (string \<times> string) list \<Rightarrow> ('w, ApiError, ResourceClaimTemplate list) io"
  ListResourceClaims :: "string \<Rightarrow> (string \<times> string) list \<Rightarrow> ('w, ApiError, ResourceClaim list) io"
  GetResourceClaim :: "NamespacedName \<Rightarrow> ('w, ApiError, ResourceClaim) io"
  GetPod :: "NamespacedName \<Rightarrow> ('w, ApiError, Pod) io"
  UpdatePod :: "Pod \<Rightarrow> ('w, ApiError, Pod) io"
  GetPipeline :: "NamespacedName \<Rightarrow> ('w, ApiError, Unstructured) io"

text \<open>The result of a reconciliation: requeue after a number of seconds, 0 for none.\<close>

record Result =
  RequeueAfter :: nat

section \<open>controllerutil and equality\<close>

record ControllerUtil =
  ContainsFinalizer :: "ObjectMeta \<Rightarrow> string \<Rightarrow> bool"
  AddFinalizer :: "ObjectMeta \<Rightarrow> string \<Rightarrow> ObjectMeta"
  RemoveFinalizer :: "ObjectMeta \<Rightarrow> string \<Rightarrow> ObjectMeta"
  SetControllerReference :: "NumaNetwork \<Rightarrow> ObjectMeta \<Rightarrow> string + ObjectMeta"
  DeepEqualSpec :: "ResourceClaimTemplateSpec \<Rightarrow> ResourceClaimTemplateSpec \<Rightarrow> bool"
  DeepEqualLabels :: "(string \<rightharpoonup> string) \<Rightarrow> (string \<rightharpoonup> string) \<Rightarrow> bool"
  DeepEqualOwners :: "OwnerReference list \<Rightarrow> OwnerReference list \<Rightarrow> bool"

text \<open>
  Documented behaviour: the finalizer helpers test, add and remove one entry of the finalizer
  list and touch nothing else; \<open>SetControllerReference\<close> changes only the owner references,
  fails, when it fails, without a result, and has nothing to do on an object it has set; the comparison is equality of the contents.
\<close>

definition controllerutil_ok :: "ControllerUtil \<Rightarrow> bool" where
  "controllerutil_ok u \<longleftrightarrow>
     (\<forall>m f. ContainsFinalizer u m f \<longleftrightarrow> f \<in> set (om_Finalizers m)) \<and>
     (\<forall>m f. AddFinalizer u m f =
        (if f \<in> set (om_Finalizers m) then m else m\<lparr>om_Finalizers := om_Finalizers m @ [f]\<rparr>)) \<and>
     (\<forall>m f. RemoveFinalizer u m f = m\<lparr>om_Finalizers := filter (\<lambda>g. g \<noteq> f) (om_Finalizers m)\<rparr>) \<and>
     (\<forall>nn m m'. SetControllerReference u nn m = Inr m' \<longrightarrow>
        m' = m\<lparr>om_OwnerReferences := om_OwnerReferences m'\<rparr>) \<and>
     (\<forall>nn m m' l. SetControllerReference u nn m = Inr m' \<longrightarrow>
        SetControllerReference u nn (m'\<lparr>om_Labels := l\<rparr>) = Inr (m'\<lparr>om_Labels := l\<rparr>)) \<and>
     (\<forall>x y. DeepEqualSpec u x y \<longleftrightarrow> x = y) \<and>
     (\<forall>x y. DeepEqualLabels u x y \<longleftrightarrow> x = y) \<and>
     (\<forall>x y. DeepEqualOwners u x y \<longleftrightarrow> x = y)"

section \<open>Facts\<close>

lemma util_finalizer:
  assumes "controllerutil_ok u"
  shows "ContainsFinalizer u m f \<longleftrightarrow> f \<in> set (om_Finalizers m)"
    and "AddFinalizer u m f = (if f \<in> set (om_Finalizers m) then m else m\<lparr>om_Finalizers := om_Finalizers m @ [f]\<rparr>)"
    and "RemoveFinalizer u m f = m\<lparr>om_Finalizers := filter (\<lambda>g. g \<noteq> f) (om_Finalizers m)\<rparr>"
  using assms by (simp_all add: controllerutil_ok_def)

lemma util_equal:
  assumes "controllerutil_ok u"
  shows "DeepEqualSpec u x y \<longleftrightarrow> x = y" "DeepEqualLabels u l m \<longleftrightarrow> l = m" "DeepEqualOwners u r s \<longleftrightarrow> r = s"
  using assms by (simp_all add: controllerutil_ok_def)

lemma util_owner:
  assumes "controllerutil_ok u" "SetControllerReference u nn m = Inr m'"
  shows "m' = m\<lparr>om_OwnerReferences := om_OwnerReferences m'\<rparr>"
proof -
  have "\<forall>nn m m'. SetControllerReference u nn m = Inr m' \<longrightarrow> m' = m\<lparr>om_OwnerReferences := om_OwnerReferences m'\<rparr>"
    using assms(1) unfolding controllerutil_ok_def by (elim conjE) assumption
  with assms(2) show ?thesis by blast
qed

lemma util_owner_idem:
  assumes "controllerutil_ok u" "SetControllerReference u nn m = Inr m'"
  shows "SetControllerReference u nn (m'\<lparr>om_Labels := l\<rparr>) = Inr (m'\<lparr>om_Labels := l\<rparr>)"
proof -
  have "\<forall>nn m m' l. SetControllerReference u nn m = Inr m' \<longrightarrow>
      SetControllerReference u nn (m'\<lparr>om_Labels := l\<rparr>) = Inr (m'\<lparr>om_Labels := l\<rparr>)"
    using assms(1) unfolding controllerutil_ok_def by (elim conjE) assumption
  with assms(2) show ?thesis by blast
qed

lemma map_of_set_key: "map_of (set_key k v m) = (map_of m)(k \<mapsto> v)"
  by (induction m) (auto simp: fun_eq_iff)

lemma set_key_same [simp]: "map_of (set_key k v m) k = Some v"
  by (simp add: map_of_set_key)

lemma set_key_other [simp]: "k' \<noteq> k \<Longrightarrow> map_of (set_key k v m) k' = map_of m k'"
  by (simp add: map_of_set_key)

lemma set_key_keys: "map fst (set_key k v m) = (if k \<in> set (map fst m) then map fst m else map fst m @ [k])"
  by (induction m) (force+)

lemma set_key_idem: "map_of m k = Some v \<Longrightarrow> distinct (map fst m) \<Longrightarrow> set_key k v m = m"
  by (induction m) (auto split: if_splits)

section \<open>Reference instances\<close>

text \<open>
  Concrete instances of the library interfaces, for evaluating the model on examples: a client
  all of whose calls fail, to be overridden where an example needs an answer, and helpers
  written after the documentation of \<open>controllerutil\<close>.
\<close>

definition stub_client :: "'w Client" where
  "stub_client =
     \<lparr>GetNumaNetwork = (\<lambda>_. fail (ErrApi ''unused'')), UpdateNumaNetwork = (\<lambda>_. fail (ErrApi ''unused'')),
      GetRCT = (\<lambda>_. fail (ErrApi ''unused'')), CreateRCT = (\<lambda>_. fail (ErrApi ''unused'')),
      UpdateRCT = (\<lambda>_. fail (ErrApi ''unused'')), ListRCTs = (\<lambda>_ _. fail (ErrApi ''unused'')),
      ListResourceClaims = (\<lambda>_ _. fail (ErrApi ''unused'')),
      GetResourceClaim = (\<lambda>_. fail (ErrApi ''unused'')), GetPod = (\<lambda>_. fail (ErrApi ''unused'')),
      UpdatePod = (\<lambda>_. fail (ErrApi ''unused'')), GetPipeline = (\<lambda>_. fail (ErrApi ''unused''))\<rparr>"

definition controller_ref :: "NumaNetwork \<Rightarrow> OwnerReference" where
  "controller_ref nn = \<lparr>or_APIVersion = ''numaflow.numaproj.io/v1alpha1'', or_Kind = ''NumaNetwork'',
     or_Name = nn_Name nn, or_UID = om_UID (nn_meta nn), or_Controller = True\<rparr>"

definition ref_util :: ControllerUtil where
  "ref_util =
     \<lparr>ContainsFinalizer = (\<lambda>m f. f \<in> set (om_Finalizers m)),
      AddFinalizer = (\<lambda>m f. if f \<in> set (om_Finalizers m) then m else m\<lparr>om_Finalizers := om_Finalizers m @ [f]\<rparr>),
      RemoveFinalizer = (\<lambda>m f. m\<lparr>om_Finalizers := filter (\<lambda>g. g \<noteq> f) (om_Finalizers m)\<rparr>),
      SetControllerReference = (\<lambda>nn m.
        if list_ex (\<lambda>r. or_Controller r \<and> or_UID r \<noteq> om_UID (nn_meta nn)) (om_OwnerReferences m)
        then Inl ''already owned''
        else Inr (m\<lparr>om_OwnerReferences :=
          filter (\<lambda>r. or_UID r \<noteq> om_UID (nn_meta nn)) (om_OwnerReferences m) @ [controller_ref nn]\<rparr>)),
      DeepEqualSpec = (=), DeepEqualLabels = (=), DeepEqualOwners = (=)\<rparr>"

lemma ref_util_ok: "controllerutil_ok ref_util"
  by (auto simp: controllerutil_ok_def ref_util_def controller_ref_def list_ex_iff split: if_splits)

definition mk_network :: "string \<Rightarrow> string \<Rightarrow> string \<Rightarrow> string \<Rightarrow> NumaNetwork" where
  "mk_network ns name cls ipRange =
     \<lparr>nn_meta = empty_meta\<lparr>om_Name := name, om_Namespace := ns, om_UID := ''uid-'' @ name\<rparr>,
      nn_Spec = \<lparr>RefDeviceClass = \<lparr>DeviceClass_Name = cls\<rparr>, RefResourceClaimDranet = \<lparr>IPRange = ipRange\<rparr>\<rparr>\<rparr>"

end
