(* ===== verification/GoJson.thy ===== *)
theory GoJson
  imports GoStrings
begin

text \<open>
  The part of Go's \<open>encoding/json\<close> the program relies on, at the level of bytes.

  \<open>Marshal\<close> prints a JSON value the way Go does (no spaces, HTML-sensitive characters and
  control characters escaped, invalid UTF-8 replaced by \<open>\ufffd\<close>); \<open>read_value\<close> is the
  reader behind \<open>Unmarshal\<close> (whole input) and \<open>Decoder.Decode\<close> (first value of a
  stream); the \<open>dec_*\<close> functions store a parsed value into Go data, with Go's rules: \<open>null\<close>
  leaves the target alone, field names match up to case folding, later duplicates win, unknown
  fields are skipped and a value of the wrong kind is an error.

  The main result is the round trip: reading back what \<open>Marshal\<close> printed gives the value
  with every string made valid UTF-8 (\<open>to_utf8\<close>), which is the identity on ASCII.
\<close>

section \<open>UTF-8\<close>

text \<open>
  \<open>utf8.DecodeRune\<close>: for a lead byte outside ASCII and what follows it, the number of
  continuation bytes of a well-formed sequence; \<open>None\<close> is \<open>RuneError\<close> with width 1.
\<close>

definition cont :: "char \<Rightarrow> bool" where
  "cont c \<longleftrightarrow> 0x80 \<le> byte c \<and> byte c \<le> 0xBF"

definition in_range :: "nat \<Rightarrow> char \<Rightarrow> nat \<Rightarrow> bool" where
  "in_range lo c hi \<longleftrightarrow> lo \<le> byte c \<and> byte c \<le> hi"

definition utf8_tail :: "char \<Rightarrow> string \<Rightarrow> nat option" where
  "utf8_tail b bs =
     (if in_range 0xC2 b 0xDF then
        (case bs of c1 # _ \<Rightarrow> if cont c1 then Some 1 else None | _ \<Rightarrow> None)
      else if in_range 0xE0 b 0xEF then
        (case bs of c1 # c2 # _ \<Rightarrow>
           if (if byte b = 0xE0 then in_range 0xA0 c1 0xBF
               else if byte b = 0xED then in_range 0x80 c1 0x9F else cont c1) \<and> cont c2
           then Some 2 else None
         | _ \<Rightarrow> None)
      else if in_range 0xF0 b 0xF4 then
        (case bs of c1 # c2 # c3 # _ \<Rightarrow>
           if (if byte b = 0xF0 then in_range 0x90 c1 0xBF
               else if byte b = 0xF4 then in_range 0x80 c1 0x8F else cont c1) \<and> cont c2 \<and> cont c3
           then Some 3 else None
         | _ \<Rightarrow> None)
      else None)"

text \<open>The bytes of U+FFFD, and \<open>utf8.EncodeRune\<close> (for code points that are not surrogates).\<close>

definition replacement :: string where
  "replacement = [char_of (0xEF :: nat), char_of (0xBF :: nat), char_of (0xBD :: nat)]"

definition EncodeRune :: "nat \<Rightarrow> string" where
  "EncodeRune r =
     (if r < 0x80 then [char_of r]
      else if r < 0x800 then [char_of (0xC0 + r div 64), char_of (0x80 + r mod 64)]
      else if 0xD800 \<le> r \<and> r \<le> 0xDFFF \<or> 0x10FFFF < r then replacement
      else if r < 0x10000 then
        [char_of (0xE0 + r div 4096), char_of (0x80 + r div 64 mod 64), char_of (0x80 + r mod 64)]
      else
        [char_of (0xF0 + r div 262144), char_of (0x80 + r div 4096 mod 64),
         char_of (0x80 + r div 64 mod 64), char_of (0x80 + r mod 64)])"

lemma utf8_tail_length: "utf8_tail b bs = Some k \<Longrightarrow> 0 < k \<and> k \<le> length bs"
  by (auto simp: utf8_tail_def split: if_splits list.splits)

lemma utf8_tail_append:
  "utf8_tail b bs = Some k \<Longrightarrow> utf8_tail b (take k bs @ rest) = Some k"
  by (auto simp: utf8_tail_def split: if_splits list.splits)

text \<open>What Go's JSON strings carry: the string with every malformed byte replaced by U+FFFD.\<close>

fun to_utf8 :: "string \<Rightarrow> string" where
  "to_utf8 [] = []"
| "to_utf8 (b # bs) =
     (if byte b < 0x80 then b # to_utf8 bs
      else (case utf8_tail b bs of
              None \<Rightarrow> replacement @ to_utf8 bs
            | Some k \<Rightarrow> b # take k bs @ to_utf8 (drop k bs)))"

definition is_ascii :: "string \<Rightarrow> bool" where
  "is_ascii s = list_all (\<lambda>c. byte c < 0x80) s"

lemma is_ascii_simps [simp]:
  "is_ascii []" "is_ascii (c # s) \<longleftrightarrow> byte c < 0x80 \<and> is_ascii s" "is_ascii (s @ t) \<longleftrightarrow> is_ascii s \<and> is_ascii t"
  "is_ascii (rev s) \<longleftrightarrow> is_ascii s"
  by (simp_all add: is_ascii_def)

lemma to_utf8_ascii: "is_ascii s \<Longrightarrow> to_utf8 s = s"
  by (induction s) (auto simp: is_ascii_def)

section \<open>Values\<close>

text \<open>Numbers keep their literal text; objects keep the order and the duplicates of the input.\<close>

datatype json =
    JNull
  | JBool bool
  | JNum string
  | JStr string
  | JArr "json list"
  | JObj "(string \<times> json) list"


fun depth :: "json \<Rightarrow> nat" where
  "depth (JArr vs) = Suc (fold max (map depth vs) 0)"
| "depth (JObj kvs) = Suc (fold max (map (\<lambda>kv. depth (snd kv)) kvs) 0)"
| "depth _ = 0"

definition maxNestingDepth :: nat where
  "maxNestingDepth = 10000"

abbreviation QUOTE :: char where "QUOTE \<equiv> CHR 0x22"
abbreviation BSLASH :: char where "BSLASH \<equiv> CHR 0x5C"

section \<open>Printing\<close>

definition hex_digit :: "nat \<Rightarrow> char" where
  "hex_digit n = (if n < 10 then char_of (48 + n) else char_of (87 + n))"

definition esc_ascii :: "char \<Rightarrow> string" where
  "esc_ascii b =
     (if b = BSLASH \<or> b = QUOTE then [BSLASH, b]
      else if byte b = 8 then [BSLASH, CHR ''b'']
      else if byte b = 12 then [BSLASH, CHR ''f'']
      else if byte b = 10 then [BSLASH, CHR ''n'']
      else if byte b = 13 then [BSLASH, CHR ''r'']
      else if byte b = 9 then [BSLASH, CHR ''t'']
      else if byte b < 0x20 \<or> b = CHR ''<'' \<or> b = CHR ''>'' \<or> b = CHR ''&'' then
        [BSLASH, CHR ''u'', CHR ''0'', CHR ''0'', hex_digit (byte b div 16), hex_digit (byte b mod 16)]
      else [b])"

text \<open>U+2028 and U+2029 (\<open>E2 80 A8\<close> and \<open>E2 80 A9\<close>) are escaped as well.\<close>

definition esc_rune :: "string \<Rightarrow> string" where
  "esc_rune r =
     (if map byte r = [0xE2, 0x80, 0xA8] then [BSLASH] @ ''u2028''
      else if map byte r = [0xE2, 0x80, 0xA9] then [BSLASH] @ ''u2029''
      else r)"

fun esc_body :: "string \<Rightarrow> string" where
  "esc_body [] = []"
| "esc_body (b # bs) =
     (if byte b < 0x80 then esc_ascii b @ esc_body bs
      else (case utf8_tail b bs of
              None \<Rightarrow> [BSLASH] @ ''ufffd'' @ esc_body bs
            | Some k \<Rightarrow> esc_rune (b # take k bs) @ esc_body (drop k bs)))"

definition quote :: "string \<Rightarrow> string" where
  "quote s = QUOTE # esc_body s @ [QUOTE]"

fun Marshal :: "json \<Rightarrow> string"
  and marshal_elems :: "json list \<Rightarrow> string"
  and marshal_members :: "(string \<times> json) list \<Rightarrow> string" where
  "Marshal JNull = ''null''"
| "Marshal (JBool b) = (if b then ''true'' else ''false'')"
| "Marshal (JNum n) = n"
| "Marshal (JStr s) = quote s"
| "Marshal (JArr vs) = CHR ''['' # marshal_elems vs"
| "Marshal (JObj kvs) = CHR ''{'' # marshal_members kvs"
| "marshal_elems [] = '']''"
| "marshal_elems (v # vs) = Marshal v @ (if vs = [] then [] else '','') @ marshal_elems vs"
| "marshal_members [] = ''}''"
| "marshal_members ((k, v) # kvs) =
     quote k @ '':'' @ Marshal v @ (if kvs = [] then [] else '','') @ marshal_members kvs"

section \<open>Reading strings and numbers\<close>

definition hex_val :: "char \<Rightarrow> nat option" where
  "hex_val c =
     (if in_range 48 c 57 then Some (byte c - 48)
      else if in_range 97 c 102 then Some (byte c - 87)
      else if in_range 65 c 70 then Some (byte c - 55)
      else None)"

fun getu4 :: "string \<Rightarrow> (nat \<times> string) option" where
  "getu4 (a # b # c # d # cs) =
     (case (hex_val a, hex_val b, hex_val c, hex_val d) of
        (Some w, Some x, Some y, Some z) \<Rightarrow> Some (((w * 16 + x) * 16 + y) * 16 + z, cs)
      | _ \<Rightarrow> None)"
| "getu4 _ = None"

text \<open>A \<open>\u\<close> escape that is a surrogate is combined with a following one or replaced.\<close>

definition read_surrogate :: "nat \<Rightarrow> string \<Rightarrow> string \<times> string" where
  "read_surrogate r cs =
     (case cs of
        b # u # cs' \<Rightarrow>
          (if b = BSLASH \<and> u = CHR ''u'' then
             (case getu4 cs' of
                Some (r2, rest) \<Rightarrow>
                  (if r < 0xDC00 \<and> 0xDC00 \<le> r2 \<and> r2 < 0xE000
                   then (EncodeRune ((r - 0xD800) * 1024 + (r2 - 0xDC00) + 0x10000), rest)
                   else (replacement, cs))
              | None \<Rightarrow> (replacement, cs))
           else (replacement, cs))
      | _ \<Rightarrow> (replacement, cs))"

definition read_esc :: "string \<Rightarrow> (string \<times> string) option" where
  "read_esc s =
     (case s of
        [] \<Rightarrow> None
      | e # cs \<Rightarrow>
          (if e = QUOTE \<or> e = BSLASH \<or> e = CHR ''/'' then Some ([e], cs)
           else if e = CHR ''b'' then Some ([CHR 0x08], cs)
           else if e = CHR ''f'' then Some ([CHR 0x0C], cs)
           else if e = CHR ''n'' then Some ([CHR 0x0A], cs)
           else if e = CHR ''r'' then Some ([CHR 0x0D], cs)
           else if e = CHR ''t'' then Some ([CHR 0x09], cs)
           else if e = CHR ''u'' then
             (case getu4 cs of
                None \<Rightarrow> None
              | Some (r, cs') \<Rightarrow>
                  (if 0xD800 \<le> r \<and> r < 0xE000 then Some (read_surrogate r cs')
                   else Some (EncodeRune r, cs')))
           else None))"

lemma getu4_length: "getu4 s = Some (r, t) \<Longrightarrow> length t < length s"
  by (cases s rule: getu4.cases) (auto split: option.splits)

lemma read_surrogate_length: "read_surrogate r cs = (x, t) \<Longrightarrow> length t \<le> length cs"
  by (auto simp: read_surrogate_def split: list.splits if_splits option.splits dest!: getu4_length)

lemma read_esc_length: "read_esc s = Some (x, t) \<Longrightarrow> length t < length s"
  by (auto simp: read_esc_def split: list.splits if_splits option.splits
      dest!: getu4_length read_surrogate_length)

text \<open>The rest of a string literal after its opening quote.\<close>

function read_str :: "string \<Rightarrow> (string \<times> string) option" where
  "read_str [] = None"
| "read_str (c # cs) =
     (if c = QUOTE then Some ([], cs)
      else if c = BSLASH then
        (case read_esc cs of
           None \<Rightarrow> None
         | Some (x, cs') \<Rightarrow> map_option (apfst ((@) x)) (read_str cs'))
      else if byte c < 0x20 then None
      else if byte c < 0x80 then map_option (apfst (Cons c)) (read_str cs)
      else (case utf8_tail c cs of
              None \<Rightarrow> map_option (apfst ((@) replacement)) (read_str cs)
            | Some k \<Rightarrow> map_option (apfst ((@) (c # take k cs))) (read_str (drop k cs))))"
  by pat_completeness auto
termination
  by (relation "measure length") (auto dest: read_esc_length)

lemma read_str_length: "read_str s = Some (x, t) \<Longrightarrow> length t < length s"
proof (induction s arbitrary: x t rule: read_str.induct)
  case (2 c cs)
  show ?case
  proof (cases "c = BSLASH")
    case True
    with 2 show ?thesis
      by (fastforce split: option.splits dest: read_esc_length)
  next
    case False
    with 2 show ?thesis
      by (fastforce split: option.splits if_splits)
  qed
qed simp

definition digit :: "char \<Rightarrow> bool" where
  "digit c = in_range 48 c 57"

definition read_int :: "string \<Rightarrow> (string \<times> string) option" where
  "read_int s =
     (case s of
        [] \<Rightarrow> None
      | c # cs \<Rightarrow>
          (if c = CHR ''0'' then Some ([c], cs)
           else if digit c then Some (takeWhile digit s, dropWhile digit s) else None))"

definition read_frac :: "string \<Rightarrow> (string \<times> string) option" where
  "read_frac s =
     (case s of
        [] \<Rightarrow> Some ([], s)
      | c # cs \<Rightarrow>
          (if c = CHR ''.'' then
             (if takeWhile digit cs = [] then None
              else Some (c # takeWhile digit cs, dropWhile digit cs))
           else Some ([], s)))"

definition read_exp :: "string \<Rightarrow> (string \<times> string) option" where
  "read_exp s =
     (case s of
        [] \<Rightarrow> Some ([], s)
      | c # cs \<Rightarrow>
          (if c = CHR ''e'' \<or> c = CHR ''E'' then
             (let (sg, ds) = (case cs of
                  d # ds \<Rightarrow> if d = CHR ''+'' \<or> d = CHR ''-'' then ([d], ds) else ([], cs)
                | [] \<Rightarrow> ([], cs))
              in if takeWhile digit ds = [] then None
                 else Some (c # sg @ takeWhile digit ds, dropWhile digit ds))
           else Some ([], s)))"

definition read_num :: "string \<Rightarrow> (string \<times> string) option" where
  "read_num s =
     (let (sg, s0) = (case s of c # cs \<Rightarrow> if c = CHR ''-'' then ([c], cs) else ([], s) | [] \<Rightarrow> ([], s))
      in case read_int s0 of
           None \<Rightarrow> None
         | Some (i, s1) \<Rightarrow>
             (case read_frac s1 of
                None \<Rightarrow> None
              | Some (f, s2) \<Rightarrow>
                  (case read_exp s2 of
                     None \<Rightarrow> None
                   | Some (e, s3) \<Rightarrow> Some (sg @ i @ f @ e, s3))))"

lemma read_int_length: "read_int s = Some (x, t) \<Longrightarrow> length t < length s"
  using length_dropWhile_le [of digit "tl s"]
  by (auto simp: read_int_def split: list.splits if_splits)

lemma read_frac_length: "read_frac s = Some (x, t) \<Longrightarrow> length t \<le> length s"
  using length_dropWhile_le [of digit "tl s"]
  by (auto simp: read_frac_def split: list.splits if_splits)

lemma read_exp_length: "read_exp s = Some (x, t) \<Longrightarrow> length t \<le> length s"
  using length_dropWhile_le [of digit "tl s"] length_dropWhile_le [of digit "tl (tl s)"]
  by (auto simp: read_exp_def split: list.splits if_splits)

lemma read_num_length: "read_num s = Some (x, t) \<Longrightarrow> length t < length s"
  by (fastforce simp: read_num_def split: list.splits if_splits option.splits
      dest!: read_int_length read_frac_length read_exp_length)

section \<open>Reading values\<close>

definition isSpace :: "char \<Rightarrow> bool" where
  "isSpace c \<longleftrightarrow> byte c = 32 \<or> byte c = 9 \<or> byte c = 13 \<or> byte c = 10"

definition skip_ws :: "string \<Rightarrow> string" where
  "skip_ws s = dropWhile isSpace s"

text \<open>A keyword literal.\<close>

definition read_lit :: "string \<Rightarrow> json \<Rightarrow> string \<Rightarrow> (json \<times> string) option" where
  "read_lit lit v s = (if take (length lit) s = lit then Some (v, drop (length lit) s) else None)"

text \<open>
  The reader spends one unit of fuel per call.  \<open>read_fuel s\<close> is enough for any input \<open>s\<close>
  (\<open>read_value_fuel\<close>): a list of elements needs at most two calls per byte.
\<close>

fun read_value :: "nat \<Rightarrow> string \<Rightarrow> (json \<times> string) option"
  and read_elems :: "nat \<Rightarrow> string \<Rightarrow> (json list \<times> string) option"
  and read_members :: "nat \<Rightarrow> string \<Rightarrow> ((string \<times> json) list \<times> string) option" where
  "read_value 0 s = None"
| "read_value (Suc n) s =
     (case skip_ws s of
        [] \<Rightarrow> None
      | c # cs \<Rightarrow>
          (if c = CHR ''{'' then
             (case skip_ws cs of
                [] \<Rightarrow> None
              | d # ds \<Rightarrow> if d = CHR ''}'' then Some (JObj [], ds)
                         else map_option (apfst JObj) (read_members n cs))
           else if c = CHR ''['' then
             (case skip_ws cs of
                [] \<Rightarrow> None
              | d # ds \<Rightarrow> if d = CHR '']'' then Some (JArr [], ds)
                         else map_option (apfst JArr) (read_elems n cs))
           else if c = QUOTE then map_option (apfst JStr) (read_str cs)
           else if c = CHR ''t'' then read_lit ''true'' (JBool True) (c # cs)
           else if c = CHR ''f'' then read_lit ''false'' (JBool False) (c # cs)
           else if c = CHR ''n'' then read_lit ''null'' JNull (c # cs)
           else map_option (apfst JNum) (read_num (c # cs))))"
| "read_elems 0 s = None"
| "read_elems (Suc n) s =
     (case read_value n s of
        None \<Rightarrow> None
      | Some (v, r) \<Rightarrow>
          (case skip_ws r of
             [] \<Rightarrow> None
           | c # cs \<Rightarrow> if c = CHR '','' then map_option (apfst (Cons v)) (read_elems n cs)
                      else if c = CHR '']'' then Some ([v], cs) else None))"
| "read_members 0 s = None"
| "read_members (Suc n) s =
     (case skip_ws s of
        [] \<Rightarrow> None
      | q # ks \<Rightarrow>
          (if q \<noteq> QUOTE then None
           else
             (case read_str ks of
                None \<Rightarrow> None
              | Some (k, r) \<Rightarrow>
                  (case skip_ws r of
                     [] \<Rightarrow> None
                   | c # cs \<Rightarrow>
                       (if c \<noteq> CHR '':'' then None
                        else
                          (case read_value n cs of
                             None \<Rightarrow> None
                           | Some (v, r') \<Rightarrow>
                               (case skip_ws r' of
                                  [] \<Rightarrow> None
                                | d # ds \<Rightarrow>
                                    (if d = CHR '','' then
                                       map_option (apfst (Cons (k, v))) (read_members n ds)
                                     else if d = CHR ''}'' then Some ([(k, v)], ds) else None)))))))) "

definition read_fuel :: "string \<Rightarrow> nat" where
  "read_fuel s = 2 * length s + 3"

text \<open>\<open>json.Unmarshal\<close> accepts one value with white space around it, \<open>Decoder.Decode\<close> the first
  value of the input, whatever follows.  Both refuse values nested too deep.\<close>

definition parse_all :: "string \<Rightarrow> json option" where
  "parse_all s =
     (case read_value (read_fuel s) s of
        None \<Rightarrow> None
      | Some (v, r) \<Rightarrow> if skip_ws r = [] \<and> depth v \<le> maxNestingDepth then Some v else None)"

definition parse_first :: "string \<Rightarrow> json option" where
  "parse_first s =
     (case read_value (read_fuel s) s of
        None \<Rightarrow> None
      | Some (v, r) \<Rightarrow> if depth v \<le> maxNestingDepth then Some v else None)"

subsection \<open>Consumption and fuel\<close>

lemma skip_ws_length [simp]: "length (skip_ws s) \<le> length s"
  by (simp add: skip_ws_def length_dropWhile_le)

lemma skip_ws_Cons_length: "skip_ws s = c # cs \<Longrightarrow> length cs < length s"
  using skip_ws_length [of s] by simp

lemma read_lit_length: "read_lit l v s = Some (x, t) \<Longrightarrow> l \<noteq> [] \<Longrightarrow> length t < length s"
  by (cases s) (auto simp: read_lit_def split: if_splits)

lemmas reader_lengths = skip_ws_Cons_length read_str_length read_num_length read_lit_length

lemma read_length:
  "read_value n s = Some (v, r) \<Longrightarrow> length r < length s"
  "read_elems n s = Some (vs, r) \<Longrightarrow> length r < length s"
  "read_members n s = Some (kvs, r) \<Longrightarrow> length r < length s"
proof (induction n s and n s and n s arbitrary: v r and vs r and kvs r
    rule: read_value_read_elems_read_members.induct)
  case (2 n s)
  then show ?case
    by (fastforce split: list.splits if_splits dest!: reader_lengths)
next
  case (4 n s)
  then show ?case
    by (fastforce split: list.splits if_splits option.splits dest!: skip_ws_Cons_length)
next
  case (6 n s)
  then show ?case
    by (fastforce split: list.splits if_splits option.splits dest!: skip_ws_Cons_length read_str_length)
qed simp_all

subsection \<open>Fuel\<close>

definition fuel_ok :: "nat \<Rightarrow> bool" where
  "fuel_ok n \<longleftrightarrow>
     (\<forall>s m. 2 * length s < n \<and> 2 * length s < m \<longrightarrow> read_value n s = read_value m s) \<and>
     (\<forall>s m. 2 * length s + 1 < n \<and> 2 * length s + 1 < m \<longrightarrow> read_elems n s = read_elems m s) \<and>
     (\<forall>s m. 2 * length s + 1 < n \<and> 2 * length s + 1 < m \<longrightarrow> read_members n s = read_members m s)"

lemma fuel_okD:
  "fuel_ok n \<Longrightarrow> 2 * length s < n \<Longrightarrow> 2 * length s < m \<Longrightarrow> read_value n s = read_value m s"
  "fuel_ok n \<Longrightarrow> 2 * length s + 1 < n \<Longrightarrow> 2 * length s + 1 < m \<Longrightarrow> read_elems n s = read_elems m s"
  "fuel_ok n \<Longrightarrow> 2 * length s + 1 < n \<Longrightarrow> 2 * length s + 1 < m \<Longrightarrow> read_members n s = read_members m s"
  unfolding fuel_ok_def by blast+

lemma read_value_step_fuel:
  assumes "fuel_ok n" "2 * length s < Suc n" "2 * length s < Suc m"
  shows "read_value (Suc n) s = read_value (Suc m) s"
proof (cases "skip_ws s")
  case (Cons c cs)
  then have "length cs < length s" by (rule skip_ws_Cons_length)
  with assms(2,3) have l: "2 * length cs + 1 < n" "2 * length cs + 1 < m" by simp_all
  show ?thesis
    by (simp add: Cons fuel_okD(2,3) [OF assms(1) l] split: list.split)
qed simp

lemma read_elems_step_fuel:
  assumes "fuel_ok n" "2 * length s + 1 < Suc n" "2 * length s + 1 < Suc m"
  shows "read_elems (Suc n) s = read_elems (Suc m) s"
proof -
  have v: "read_value n s = read_value m s"
    by (rule fuel_okD(1) [OF assms(1)]) (use assms(2,3) in simp_all)
  show ?thesis
  proof (cases "read_value m s")
    case (Some p)
    then obtain x r where x: "read_value m s = Some (x, r)" by (cases p) simp
    show ?thesis
    proof (cases "skip_ws r")
      case (Cons c cs)
      have l: "2 * length cs + 1 < n" "2 * length cs + 1 < m"
        using read_length(1) [OF x] skip_ws_Cons_length [OF Cons] assms(2,3) by simp_all
      show ?thesis by (simp add: v x Cons fuel_okD(2) [OF assms(1) l])
    qed (simp add: v x)
  qed (simp add: v)
qed

lemma read_members_step_fuel:
  assumes "fuel_ok n" "2 * length s + 1 < Suc n" "2 * length s + 1 < Suc m"
  shows "read_members (Suc n) s = read_members (Suc m) s"
proof -
  have v: "read_value n cs = read_value m cs"
    if "skip_ws s = q # ks" "read_str ks = Some (k, r)" "skip_ws r = c # cs" for q ks k r c cs
    by (rule fuel_okD(1) [OF assms(1)])
      (use skip_ws_Cons_length [OF that(1)] read_str_length [OF that(2)] skip_ws_Cons_length [OF that(3)]
        assms(2,3) in simp_all)
  have ms: "read_members n ds = read_members m ds"
    if "skip_ws s = q # ks" "read_str ks = Some (k, r)" "skip_ws r = c # cs"
      "read_value m cs = Some (x, r')" "skip_ws r' = d # ds" for q ks k r c cs x r' d ds
    by (rule fuel_okD(3) [OF assms(1)])
     (use skip_ws_Cons_length [OF that(1)] read_str_length [OF that(2)] skip_ws_Cons_length [OF that(3)]
      read_length(1) [OF that(4)] skip_ws_Cons_length [OF that(5)] assms(2,3) in simp_all)
  show ?thesis using v ms by (auto split: option.split list.split)
qed

lemma fuel_ok_all: "fuel_ok n"
proof (induction n)
  case 0
  then show ?case by (simp add: fuel_ok_def)
next
  case (Suc n)
  have *: "2 * length s < Suc n \<Longrightarrow> 2 * length s < m \<Longrightarrow> read_value (Suc n) s = read_value m s" for s m
    by (cases m) (auto intro: read_value_step_fuel [OF Suc] simp del: read_value.simps)
  have **: "2 * length s + 1 < Suc n \<Longrightarrow> 2 * length s + 1 < m \<Longrightarrow> read_elems (Suc n) s = read_elems m s" for s m
    by (cases m) (auto intro: read_elems_step_fuel [OF Suc] simp del: read_elems.simps)
  have ***: "2 * length s + 1 < Suc n \<Longrightarrow> 2 * length s + 1 < m \<Longrightarrow> read_members (Suc n) s = read_members m s" for s m
    by (cases m) (auto intro: read_members_step_fuel [OF Suc] simp del: read_members.simps)
  show ?case
    unfolding fuel_ok_def using * ** *** by blast
qed

lemma read_value_fuel: "2 * length s < n \<Longrightarrow> read_value n s = read_value (read_fuel s) s"
  by (rule fuel_okD(1) [OF fuel_ok_all]) (simp_all add: read_fuel_def)

section \<open>Round trip\<close>

lemma hex_val_digit: "n < 16 \<Longrightarrow> hex_val (hex_digit n) = Some n"
  by (auto simp: hex_val_def hex_digit_def in_range_def)

lemma EncodeRune_ascii: "byte b < 0x80 \<Longrightarrow> EncodeRune (byte b) = [b]"
  by (simp add: EncodeRune_def)

lemma append_single: "(@) [x] = Cons x"
  by (rule ext) simp

lemma ctrl_chars:
  "byte b = 8 \<longleftrightarrow> b = CHR 0x08" "byte b = 9 \<longleftrightarrow> b = CHR 0x09" "byte b = 10 \<longleftrightarrow> b = CHR 0x0A"
  "byte b = 12 \<longleftrightarrow> b = CHR 0x0C" "byte b = 13 \<longleftrightarrow> b = CHR 0x0D"
  using byte_inj [of b "CHR 0x08"] byte_inj [of b "CHR 0x09"] byte_inj [of b "CHR 0x0A"]
    byte_inj [of b "CHR 0x0C"] byte_inj [of b "CHR 0x0D"] by (simp_all add: byte_def)

lemma read_str_esc_ascii:
  assumes "byte b < 0x80"
  shows "read_str (esc_ascii b @ t) = map_option (apfst (Cons b)) (read_str t)"
proof (cases "b = BSLASH \<or> b = QUOTE \<or> byte b \<in> {8, 9, 10, 12, 13}")
  case True
  then have "b \<in> {BSLASH, QUOTE, CHR 0x08, CHR 0x09, CHR 0x0A, CHR 0x0C, CHR 0x0D}"
    using ctrl_chars by auto
  then show ?thesis
    by (elim insertE emptyE) (simp_all add: esc_ascii_def read_esc_def byte_def append_single)
next
  case False
  then have plain: "b \<noteq> BSLASH" "b \<noteq> QUOTE" "byte b \<notin> {8, 9, 10, 12, 13}" by auto
  show ?thesis
  proof (cases "byte b < 0x20 \<or> b = CHR ''<'' \<or> b = CHR ''>'' \<or> b = CHR ''&''")
    case True
    have z: "hex_val CHR ''0'' = Some 0" by (simp add: hex_val_def in_range_def byte_def)
    have h: "hex_val (hex_digit (byte b div 16)) = Some (byte b div 16)"
      "hex_val (hex_digit (byte b mod 16)) = Some (byte b mod 16)"
      using byte_less [of b] by (simp_all add: hex_val_digit less_mult_imp_div_less)
    from True plain show ?thesis
      using assms by (simp add: esc_ascii_def read_esc_def z h EncodeRune_ascii append_single)
  next
    case False
    with plain assms show ?thesis by (auto simp: esc_ascii_def)
  qed
qed

lemma read_str_replacement:
  "read_str (BSLASH # CHR ''u'' # CHR ''f'' # CHR ''f'' # CHR ''f'' # CHR ''d'' # t) =
     map_option (apfst ((@) replacement)) (read_str t)"
  by (simp add: read_esc_def hex_val_def in_range_def byte_def EncodeRune_def replacement_def)

lemma read_str_esc_rune:
  assumes "\<not> byte b < 0x80" "utf8_tail b bs = Some k"
  shows "read_str (esc_rune (b # take k bs) @ t) = map_option (apfst ((@) (b # take k bs))) (read_str t)"
proof (cases "map byte (b # take k bs) \<in> {[0xE2, 0x80, 0xA8], [0xE2, 0x80, 0xA9]}")
  case True
  then have "b # take k bs = map char_of [0xE2 :: nat, 0x80, 0xA8] \<or>
      b # take k bs = map char_of [0xE2 :: nat, 0x80, 0xA9]"
    by (metis (no_types, lifting) char_of_byte insertE list.map_comp map_idI o_apply singletonD)
  then show ?thesis
    by (elim disjE) (simp_all add: esc_rune_def read_esc_def hex_val_def in_range_def byte_def EncodeRune_def)
next
  case False
  have "b \<noteq> QUOTE" "b \<noteq> BSLASH" using assms(1) by (auto simp: byte_def)
  moreover have "length (take k bs) = k" using utf8_tail_length [OF assms(2)] by simp
  ultimately show ?thesis
    using False assms utf8_tail_append [OF assms(2)] by (auto simp: esc_rune_def)
qed

lemma read_str_esc_body: "read_str (esc_body s @ QUOTE # t) = Some (to_utf8 s, t)"
proof (induction s rule: to_utf8.induct)
  case 1
  then show ?case by simp
next
  case (2 b bs)
  show ?case
  proof (cases "byte b < 0x80")
    case True
    with 2(1) show ?thesis by (simp add: read_str_esc_ascii)
  next
    case False
    show ?thesis
    proof (cases "utf8_tail b bs")
      case None
      with False 2(2) show ?thesis by (simp add: read_str_replacement del: read_str.simps)
    next
      case (Some k)
      with False 2(3) show ?thesis by (simp add: read_str_esc_rune)
    qed
  qed
qed

text \<open>What a reader gets back: every string and key made valid UTF-8.\<close>

fun json_utf8 :: "json \<Rightarrow> json" where
  "json_utf8 (JStr s) = JStr (to_utf8 s)"
| "json_utf8 (JArr vs) = JArr (map json_utf8 vs)"
| "json_utf8 (JObj kvs) = JObj (map (map_prod to_utf8 json_utf8) kvs)"
| "json_utf8 v = v"

text \<open>The program prints strings, booleans, arrays and objects, never numbers.\<close>

fun num_free :: "json \<Rightarrow> bool" where
  "num_free (JNum _) = False"
| "num_free (JArr vs) = list_all num_free vs"
| "num_free (JObj kvs) = list_all (\<lambda>kv. num_free (snd kv)) kvs"
| "num_free _ = True"

lemma skip_ws_visible: "\<not> isSpace c \<Longrightarrow> skip_ws (c # s) = c # s"
  by (simp add: skip_ws_def)

lemma visible_chars [simp]:
  "\<not> isSpace CHR ''{''" "\<not> isSpace CHR ''}''" "\<not> isSpace CHR ''[''" "\<not> isSpace CHR '']''"
  "\<not> isSpace CHR '',''" "\<not> isSpace CHR '':''" "\<not> isSpace QUOTE"
  "\<not> isSpace CHR ''t''" "\<not> isSpace CHR ''f''" "\<not> isSpace CHR ''n''"
  by (simp_all add: isSpace_def byte_def)

lemma read_value_quote: "read_value (Suc n) (quote s @ t) = Some (JStr (to_utf8 s), t)"
  by (simp add: quote_def skip_ws_visible read_str_esc_body)

text \<open>First bytes of printed values: never a closing bracket.\<close>

lemma Marshal_first:
  "num_free v \<Longrightarrow> \<exists>c s. Marshal v = c # s \<and> \<not> isSpace c \<and> c \<noteq> CHR '']'' \<and> c \<noteq> CHR ''}''"
  by (cases v) (auto simp: quote_def)

text \<open>One bracket, element or member of a printed value, given that what it contains is read back.\<close>

lemma read_array:
  assumes "list_all num_free vs" "vs \<noteq> [] \<Longrightarrow> read_elems m (marshal_elems vs @ t) = Some (map json_utf8 vs, t)"
  shows "read_value (Suc m) (Marshal (JArr vs) @ t) = Some (json_utf8 (JArr vs), t)"
proof (cases vs)
  case Nil
  then show ?thesis by (simp add: skip_ws_visible)
next
  case (Cons v vs')
  then obtain c s where "Marshal v = c # s" "\<not> isSpace c" "c \<noteq> CHR '']''" using Marshal_first [of v] assms(1) by auto
  with Cons assms(2) show ?thesis by (simp add: skip_ws_visible)
qed

lemma read_object:
  assumes "kvs \<noteq> [] \<Longrightarrow> read_members m (marshal_members kvs @ t) = Some (map (map_prod to_utf8 json_utf8) kvs, t)"
  shows "read_value (Suc m) (Marshal (JObj kvs) @ t) = Some (json_utf8 (JObj kvs), t)"
proof (cases kvs)
  case Nil
  then show ?thesis by (simp add: skip_ws_visible)
next
  case (Cons kv kvs')
  obtain k v where "kv = (k, v)" by (cases kv)
  with Cons assms show ?thesis by (simp add: skip_ws_visible quote_def)
qed

lemma read_element:
  assumes "\<And>u. 2 * length (Marshal v @ u) < m \<Longrightarrow> read_value m (Marshal v @ u) = Some (json_utf8 v, u)"
    and "vs \<noteq> [] \<Longrightarrow> read_elems m (marshal_elems vs @ t) = Some (map json_utf8 vs, t)"
    and "2 * length (marshal_elems (v # vs) @ t) + 1 < Suc m"
  shows "read_elems (Suc m) (marshal_elems (v # vs) @ t) = Some (map json_utf8 (v # vs), t)"
proof (cases "vs = []")
  case True
  then show ?thesis using assms(1) [of "CHR '']'' # t"] assms(3) by (simp add: skip_ws_visible)
next
  case False
  then show ?thesis using assms(1) [of "CHR '','' # marshal_elems vs @ t"] assms(2,3) by (simp add: skip_ws_visible)
qed

lemma read_member:
  assumes "\<And>u. 2 * length (Marshal v @ u) < m \<Longrightarrow> read_value m (Marshal v @ u) = Some (json_utf8 v, u)"
    and "kvs \<noteq> [] \<Longrightarrow> read_members m (marshal_members kvs @ t) = Some (map (map_prod to_utf8 json_utf8) kvs, t)"
    and "2 * length (marshal_members ((k, v) # kvs) @ t) + 1 < Suc m"
  shows "read_members (Suc m) (marshal_members ((k, v) # kvs) @ t) = Some (map (map_prod to_utf8 json_utf8) ((k, v) # kvs), t)"
proof (cases "kvs = []")
  case True
  then show ?thesis using assms(1) [of "CHR ''}'' # t"] assms(3) by (simp add: skip_ws_visible quote_def read_str_esc_body)
next
  case False
  then show ?thesis
    using assms(1) [of "CHR '','' # marshal_members kvs @ t"] assms(2,3) by (simp add: skip_ws_visible quote_def read_str_esc_body)
qed

lemma read_Marshal:
  "num_free v \<Longrightarrow> 2 * length (Marshal v @ t) < n \<Longrightarrow>
     read_value n (Marshal v @ t) = Some (json_utf8 v, t)"
  "list_all num_free vs \<Longrightarrow> vs \<noteq> [] \<Longrightarrow> 2 * length (marshal_elems vs @ t) + 1 < n \<Longrightarrow>
     read_elems n (marshal_elems vs @ t) = Some (map json_utf8 vs, t)"
  "list_all (\<lambda>kv. num_free (snd kv)) kvs \<Longrightarrow> kvs \<noteq> [] \<Longrightarrow>
     2 * length (marshal_members kvs @ t) + 1 < n \<Longrightarrow>
     read_members n (marshal_members kvs @ t) = Some (map (map_prod to_utf8 json_utf8) kvs, t)"
proof (induction v and vs and kvs arbitrary: n t and n t and n t
    rule: Marshal_marshal_elems_marshal_members.induct)
  case 1
  then show ?case by (cases n) (simp_all add: skip_ws_visible read_lit_def)
next
  case (2 b)
  then show ?case by (cases n) (simp_all add: skip_ws_visible read_lit_def)
next
  case (4 s)
  then obtain m where "n = Suc m" by (cases n) simp_all
  then show ?case by (simp only: Marshal.simps read_value_quote json_utf8.simps)
next
  case (5 vs)
  then obtain m where n: "n = Suc m" by (cases n) simp_all
  show ?case unfolding n by (rule read_array, use 5(2) in simp, rule 5(1)) (use 5(2,3) n in simp_all)
next
  case (6 kvs)
  then obtain m where n: "n = Suc m" by (cases n) simp_all
  show ?case unfolding n by (rule read_object, rule 6(1)) (use 6(2,3) n in simp_all)
next
  case (8 v vs)
  then obtain m where n: "n = Suc m" by (cases n) simp_all
  show ?case unfolding n
    by (rule read_element, rule 8(1), use 8(3) in simp, assumption, rule 8(2)) (use 8(3,5) n in simp_all)
next
  case (10 k v kvs)
  then obtain m where n: "n = Suc m" by (cases n) simp_all
  show ?case unfolding n
    by (rule read_member, rule 10(1), use 10(3) in simp, assumption, rule 10(2)) (use 10(3,5) n in simp_all)
qed simp_all

lemma parse_all_Marshal:
  "num_free v \<Longrightarrow> depth (json_utf8 v) \<le> maxNestingDepth \<Longrightarrow> parse_all (Marshal v) = Some (json_utf8 v)"
  using read_Marshal(1) [of v "[]" "read_fuel (Marshal v)"]
  by (simp add: parse_all_def read_fuel_def skip_ws_def)

lemma parse_first_Marshal:
  "num_free v \<Longrightarrow> depth (json_utf8 v) \<le> maxNestingDepth \<Longrightarrow> parse_first (Marshal v @ t) = Some (json_utf8 v)"
  using read_Marshal(1) [of v t "read_fuel (Marshal v @ t)"]
  by (simp add: parse_first_def read_fuel_def)

section \<open>Storing values into Go data\<close>

text \<open>
  \<open>encoding/json\<close> compares field names after folding: ASCII letters to upper case, and every
  other rune to the smallest rune of its case orbit.  The only orbits that join ASCII and
  non-ASCII runes are those of K (with U+212A, \<open>E2 84 AA\<close>) and S (with U+017F, \<open>C5 BF\<close>), so
  against an ASCII field name this is the folding below.
\<close>

definition to_upper :: "char \<Rightarrow> char" where
  "to_upper c = (if in_range 97 c 122 then char_of (byte c - 32) else c)"

fun fold_name :: "string \<Rightarrow> string" where
  "fold_name [] = []"
| "fold_name (b # bs) =
     (if map byte (take 3 (b # bs)) = [0xE2, 0x84, 0xAA] then CHR ''K'' # fold_name (drop 2 bs)
      else if map byte (take 2 (b # bs)) = [0xC5, 0xBF] then CHR ''S'' # fold_name (drop 1 bs)
      else to_upper b # fold_name bs)"

text \<open>
  A decoder takes a value and the current content of its target and gives the new content, or
  \<open>None\<close> for an error.  Go goes on after a type error to report the first one at the end; every
  caller in the program drops the target then, so stopping at once is the same.  A slice keeps
  no capacity beyond its length here; Go can bring back old elements from there only at indices
  above 0 of a repeated field, which the program never reads.
\<close>

type_synonym 'a dec = "json \<Rightarrow> 'a \<Rightarrow> 'a option"

fun dec_string :: "string dec" where
  "dec_string JNull old = Some old"
| "dec_string (JStr s) old = Some s"
| "dec_string _ old = None"

fun dec_members :: "(string \<times> 'a dec) list \<Rightarrow> (string \<times> json) list \<Rightarrow> 'a \<Rightarrow> 'a option" where
  "dec_members fs [] x = Some x"
| "dec_members fs ((k, v) # kvs) x =
     (case find (\<lambda>f. fold_name (fst f) = fold_name k) fs of
        None \<Rightarrow> dec_members fs kvs x
      | Some f \<Rightarrow> (case snd f v x of None \<Rightarrow> None | Some x' \<Rightarrow> dec_members fs kvs x'))"

fun dec_struct :: "(string \<times> 'a dec) list \<Rightarrow> 'a dec" where
  "dec_struct fs JNull old = Some old"
| "dec_struct fs (JObj kvs) old = dec_members fs kvs old"
| "dec_struct fs _ old = None"

fun dec_elems :: "'a \<Rightarrow> 'a dec \<Rightarrow> json list \<Rightarrow> 'a list \<Rightarrow> 'a list option" where
  "dec_elems z d [] old = Some []"
| "dec_elems z d (v # vs) old =
     (case d v (case old of [] \<Rightarrow> z | x # _ \<Rightarrow> x) of
        None \<Rightarrow> None
      | Some x \<Rightarrow> map_option (Cons x) (dec_elems z d vs (tl old)))"

fun dec_slice :: "'a \<Rightarrow> 'a dec \<Rightarrow> 'a list dec" where
  "dec_slice z d JNull old = Some []"
| "dec_slice z d (JArr vs) old = dec_elems z d vs old"
| "dec_slice z d _ old = None"

fun dec_ptr :: "'a \<Rightarrow> 'a dec \<Rightarrow> 'a option dec" where
  "dec_ptr z d JNull old = Some None"
| "dec_ptr z d v old = map_option Some (d v (case old of None \<Rightarrow> z | Some x \<Rightarrow> x))"

text \<open>A field of a record: decode into what the selector reads, store with the update.\<close>

definition dec_field :: "('r \<Rightarrow> 'a) \<Rightarrow> (('a \<Rightarrow> 'a) \<Rightarrow> 'r \<Rightarrow> 'r) \<Rightarrow> 'a dec \<Rightarrow> 'r dec" where
  "dec_field sel upd d v r = map_option (\<lambda>x. upd (\<lambda>_. x) r) (d v (sel r))"

definition Unmarshal :: "'a dec \<Rightarrow> string \<Rightarrow> 'a \<Rightarrow> 'a option" where
  "Unmarshal d s x = (case parse_all s of None \<Rightarrow> None | Some v \<Rightarrow> d v x)"

definition Decode :: "'a dec \<Rightarrow> string \<Rightarrow> 'a \<Rightarrow> 'a option" where
  "Decode d s x = (case parse_first s of None \<Rightarrow> None | Some v \<Rightarrow> d v x)"

lemma Unmarshal_Marshal:
  "num_free v \<Longrightarrow> depth (json_utf8 v) \<le> maxNestingDepth \<Longrightarrow> Unmarshal d (Marshal v) x = d (json_utf8 v) x"
  by (simp add: Unmarshal_def parse_all_Marshal)

lemma Decode_Marshal:
  "num_free v \<Longrightarrow> depth (json_utf8 v) \<le> maxNestingDepth \<Longrightarrow> Decode d (Marshal v @ t) x = d (json_utf8 v) x"
  by (simp add: Decode_def parse_first_Marshal)

end
