(* ===== verification/Ipam.thy ===== *)
theory Ipam
  imports ApiTypes GoJson
begin

text \<open>
  The pure part of \<open>internal/ipam\<close>: the profile name (\<open>profile.go\<close>), the whereabouts
  configuration (\<open>conf.go\<close>), the wire types and their JSON form (\<open>wire.go\<close>), and
  \<open>extractPrefix\<close> (\<open>handler.go\<close>).
\<close>

section \<open>profile.go\<close>

datatype ProfileError = InvalidProfileName string

definition ParseProfileName :: "string \<Rightarrow> ProfileError + (string \<times> string)" where
  "ParseProfileName profile =
     (case SplitN CHR ''/'' profile 3 of
        [ns, name] \<Rightarrow>
          if ns = [] \<or> name = [] then Inl (InvalidProfileName profile) else Inr (ns, name)
      | _ \<Rightarrow> Inl (InvalidProfileName profile))"

section \<open>conf.go\<close>

definition cniVersion :: string where "cniVersion = ''0.3.1''"
definition whereaboutsIPAM :: string where "whereaboutsIPAM = ''whereabouts''"

record whereaboutsIPAMConf =
  Conf_Type :: string
  Conf_Range :: string

record whereaboutsConf =
  Conf_CNIVersion :: string
  Conf_Name :: string
  Conf_IPAM :: whereaboutsIPAMConf

definition whereaboutsIPAMConf_json :: "whereaboutsIPAMConf \<Rightarrow> json" where
  "whereaboutsIPAMConf_json c = JObj [(''type'', JStr (Conf_Type c)), (''range'', JStr (Conf_Range c))]"

definition whereaboutsConf_json :: "whereaboutsConf \<Rightarrow> json" where
  "whereaboutsConf_json c =
     JObj [(''cniVersion'', JStr (Conf_CNIVersion c)), (''name'', JStr (Conf_Name c)),
           (''ipam'', whereaboutsIPAMConf_json (Conf_IPAM c))]"

datatype ConfError = EmptyNetworkName | EmptyIPRange

definition BuildConfFromNuma :: "string \<Rightarrow> string \<Rightarrow> ConfError + string" where
  "BuildConfFromNuma networkName ipRange =
     (if networkName = [] then Inl EmptyNetworkName
      else if ipRange = [] then Inl EmptyIPRange
      else
        (let conf = \<lparr>Conf_CNIVersion = cniVersion, Conf_Name = networkName,
                     Conf_IPAM = \<lparr>Conf_Type = whereaboutsIPAM, Conf_Range = ipRange\<rparr>\<rparr>
         in Inr (Marshal (whereaboutsConf_json conf))))"

section \<open>wire.go\<close>

record DeviceIdentifiers =
  MAC :: string
  PCIAddress :: string
  Device_Name :: string

record InterfaceConfig =
  Addresses :: "string list"

record NetworkConfig =
  Profile :: string
  Interface :: InterfaceConfig

record ProfileRequest =
  Device :: DeviceIdentifiers
  ClaimUID :: string
  Config :: "NetworkConfig option"

record Capabilities =
  CloudProvider :: bool
  ProfileProvider :: bool

text \<open>Zero values.\<close>

definition zero_device :: DeviceIdentifiers where
  "zero_device = \<lparr>MAC = [], PCIAddress = [], Device_Name = []\<rparr>"

definition zero_config :: NetworkConfig where
  "zero_config = \<lparr>Profile = [], Interface = \<lparr>Addresses = []\<rparr>\<rparr>"

definition zero_request :: ProfileRequest where
  "zero_request = \<lparr>Device = zero_device, ClaimUID = [], Config = None\<rparr>"

text \<open>Decoding a request, field by field as the JSON tags name them.\<close>

definition dec_device :: "DeviceIdentifiers dec" where
  "dec_device = dec_struct
     [(''mac'', dec_field MAC MAC_update dec_string),
      (''pciAddress'', dec_field PCIAddress PCIAddress_update dec_string),
      (''name'', dec_field Device_Name Device_Name_update dec_string)]"

definition dec_interface :: "InterfaceConfig dec" where
  "dec_interface = dec_struct [(''addresses'', dec_field Addresses Addresses_update (dec_slice [] dec_string))]"

definition dec_networkConfig :: "NetworkConfig dec" where
  "dec_networkConfig = dec_struct
     [(''profile'', dec_field Profile Profile_update dec_string),
      (''interface'', dec_field Interface Interface_update dec_interface)]"

definition dec_profileRequest :: "ProfileRequest dec" where
  "dec_profileRequest = dec_struct
     [(''device'', dec_field Device Device_update dec_device),
      (''claim_uid'', dec_field ClaimUID ClaimUID_update dec_string),
      (''config'', dec_field Config Config_update (dec_ptr zero_config dec_networkConfig))]"

text \<open>Encoding a response.  Fields marked \<open>omitempty\<close> are left out when empty.\<close>

definition opt_str :: "string \<Rightarrow> string \<Rightarrow> (string \<times> json) list" where
  "opt_str k s = (if s = [] then [] else [(k, JStr s)])"

definition interface_json :: "InterfaceConfig \<Rightarrow> json" where
  "interface_json i =
     JObj (if Addresses i = [] then [] else [(''addresses'', JArr (map JStr (Addresses i)))])"

definition networkConfig_json :: "NetworkConfig \<Rightarrow> json" where
  "networkConfig_json c = JObj (opt_str ''profile'' (Profile c) @ [(''interface'', interface_json (Interface c))])"

definition device_json :: "DeviceIdentifiers \<Rightarrow> json" where
  "device_json d = JObj (opt_str ''mac'' (MAC d) @ opt_str ''pciAddress'' (PCIAddress d) @ opt_str ''name'' (Device_Name d))"

definition profileRequest_json :: "ProfileRequest \<Rightarrow> json" where
  "profileRequest_json r =
     JObj ([(''device'', device_json (Device r)), (''claim_uid'', JStr (ClaimUID r))] @
       (case Config r of None \<Rightarrow> [] | Some c \<Rightarrow> [(''config'', networkConfig_json c)]))"

definition capabilities_json :: "Capabilities \<Rightarrow> json" where
  "capabilities_json c =
     JObj [(''cloudProvider'', JBool (CloudProvider c)), (''profileProvider'', JBool (ProfileProvider c))]"

section \<open>extractPrefix of handler.go\<close>

text \<open>The Go loop runs from the last byte to the first: the loop over the reversed string keeps
  what it has passed.\<close>

fun extractPrefix_loop :: "string \<Rightarrow> string \<Rightarrow> string" where
  "extractPrefix_loop [] passed = ''32''"
| "extractPrefix_loop (c # cs) passed =
     (if c = CHR ''/'' then passed else extractPrefix_loop cs (c # passed))"

definition extractPrefix :: "string \<Rightarrow> string" where
  "extractPrefix cidr = extractPrefix_loop (rev cidr) []"

section \<open>Profile names\<close>

lemma SplitN_3:
  "SplitN c s 3 =
     (case Cut c s of None \<Rightarrow> [s]
      | Some (a, b) \<Rightarrow> (case Cut c b of None \<Rightarrow> [a, b] | Some (d, e) \<Rightarrow> [a, d, e]))"
  by (simp add: numeral_3_eq_3 split: option.split)

lemma ParseProfileName_eq:
  "ParseProfileName profile =
     (case Cut CHR ''/'' profile of
        Some (ns, name) \<Rightarrow>
          if ns \<noteq> [] \<and> name \<noteq> [] \<and> CHR ''/'' \<notin> set name then Inr (ns, name)
          else Inl (InvalidProfileName profile)
      | None \<Rightarrow> Inl (InvalidProfileName profile))"
  by (auto simp: ParseProfileName_def SplitN_3 Cut_None_iff [symmetric] split: option.split)

lemma ParseProfileName_Inr_iff:
  "ParseProfileName profile = Inr (ns, name) \<longleftrightarrow>
     profile = ns @ ''/'' @ name \<and> ns \<noteq> [] \<and> name \<noteq> [] \<and> CHR ''/'' \<notin> set ns \<and> CHR ''/'' \<notin> set name"
  (is "?l \<longleftrightarrow> ?r")
proof
  assume ?l
  then show ?r
    by (auto simp: ParseProfileName_eq split: option.splits if_splits dest: Cut_SomeD)
next
  assume ?r
  then show ?l by (simp add: ParseProfileName_eq)
qed

lemma ParseProfileName_Inl: "ParseProfileName profile = Inl e \<Longrightarrow> e = InvalidProfileName profile"
  by (auto simp: ParseProfileName_eq split: option.splits if_splits)

section \<open>extractPrefix\<close>

lemma extractPrefix_loop_sep:
  "CHR ''/'' \<notin> set b \<Longrightarrow> extractPrefix_loop (rev b @ CHR ''/'' # rev a) acc = b @ acc"
  by (induction b arbitrary: acc rule: rev_induct) auto

lemma extractPrefix_sep: "CHR ''/'' \<notin> set b \<Longrightarrow> extractPrefix (a @ CHR ''/'' # b) = b"
  using extractPrefix_loop_sep [of b a "[]"] by (simp add: extractPrefix_def)

lemma extractPrefix_loop_none: "CHR ''/'' \<notin> set s \<Longrightarrow> extractPrefix_loop s acc = ''32''"
  by (induction s arbitrary: acc) auto

lemma extractPrefix_none: "CHR ''/'' \<notin> set s \<Longrightarrow> extractPrefix s = ''32''"
  by (simp add: extractPrefix_def extractPrefix_loop_none)

lemma extractPrefix_loop_ascii: "is_ascii s \<Longrightarrow> is_ascii acc \<Longrightarrow> is_ascii (extractPrefix_loop s acc)"
  by (induction s arbitrary: acc) (auto simp: byte_def)

lemma extractPrefix_ascii: "is_ascii s \<Longrightarrow> is_ascii (extractPrefix s)"
  by (simp add: extractPrefix_def extractPrefix_loop_ascii)

end
