(* ===== verification/GoNet.thy ===== *)
theory GoNet
  imports GoJson "HOL-Library.Word"
begin

text \<open>
  The part of Go's \<open>net\<close> and \<open>net/netip\<close> the program calls: \<open>ParseIP\<close>,
  \<open>ParseCIDR\<close> (its address result) and \<open>IP.String\<close>, for IPv4 and IPv6.  A \<open>net.IP\<close> is its
  sixteen bytes; an IPv4 address is stored as the IPv4-mapped address.
\<close>

section \<open>Numbers\<close>

fun utoa :: "nat \<Rightarrow> string" where
  "utoa n = (if n < 10 then [char_of (48 + n)] else utoa (n div 10) @ [char_of (48 + n mod 10)])"

fun uhex :: "nat \<Rightarrow> string" where
  "uhex n = (if n < 16 then [hex_digit n] else uhex (n div 16) @ [hex_digit (n mod 16)])"

declare utoa.simps [simp del] uhex.simps [simp del]

section \<open>Parsing addresses\<close>

type_synonym IP = "8 word list"

text \<open>\<open>parseIPv4Fields\<close>: the value and the number of digits of the current octet, and the
  octets already read.\<close>

fun v4_loop :: "string \<Rightarrow> nat \<Rightarrow> nat \<Rightarrow> nat list \<Rightarrow> nat list option" where
  "v4_loop [] val digLen fs = (if length fs < 3 then None else Some (fs @ [val]))"
| "v4_loop (c # cs) val digLen fs =
     (if digit c then
        (if digLen = 1 \<and> val = 0 then None
         else if 255 < val * 10 + (byte c - 48) then None
         else v4_loop cs (val * 10 + (byte c - 48)) (Suc digLen) fs)
      else if c = CHR ''.'' then
        (if digLen = 0 \<or> cs = [] then None
         else if length fs = 3 then None
         else v4_loop cs 0 0 (fs @ [val]))
      else None)"

definition is_hex :: "char \<Rightarrow> bool" where
  "is_hex c \<longleftrightarrow> hex_val c \<noteq> None"

definition hex_num :: "string \<Rightarrow> nat" where
  "hex_num ds = fold (\<lambda>c acc. acc * 16 + (case hex_val c of None \<Rightarrow> 0 | Some v \<Rightarrow> v)) ds 0"

text \<open>The loop of \<open>parseIPv6\<close>: what is left of the input, the bytes read, the place of \<open>::\<close>.\<close>

function v6_loop :: "string \<Rightarrow> 8 word list \<Rightarrow> nat option \<Rightarrow> (string \<times> 8 word list \<times> nat option) option" where
  "v6_loop s ip ell =
     (if 16 \<le> length ip then Some (s, ip, ell)
      else
        (let ds = takeWhile is_hex s; rest = dropWhile is_hex s; acc = hex_num ds;
             ip' = ip @ [of_nat (acc div 256), of_nat acc]
         in if ds = [] \<or> 4 < length ds then None
            else
              (case rest of
                 [] \<Rightarrow> Some ([], ip', ell)
               | c # rest' \<Rightarrow>
                   (if c = CHR ''.'' then
                      (if ell = None \<and> length ip \<noteq> 12 then None
                       else if 16 < length ip + 4 then None
                       else map_option (\<lambda>f. ([], ip @ map of_nat f, ell)) (v4_loop s 0 0 []))
                    else if c \<noteq> CHR '':'' then None
                    else
                      (case rest' of
                         [] \<Rightarrow> None
                       | d # rest'' \<Rightarrow>
                           (if d = CHR '':'' then
                              (if ell \<noteq> None then None
                               else if rest'' = [] then Some ([], ip', Some (length ip'))
                               else v6_loop rest'' ip' (Some (length ip')))
                            else v6_loop rest' ip' ell))))))"
  by pat_completeness auto
termination
  by (relation "measure (\<lambda>(s, ip, ell). 16 - length ip)") (auto simp: Let_def)

declare v6_loop.simps [simp del]

definition v6_finish :: "(string \<times> 8 word list \<times> nat option) \<Rightarrow> IP option" where
  "v6_finish r =
     (case r of (s, ip, ell) \<Rightarrow>
        (if s \<noteq> [] then None
         else if length ip < 16 then
           (case ell of None \<Rightarrow> None
            | Some e \<Rightarrow> Some (take e ip @ replicate (16 - length ip) 0 @ drop e ip))
         else if ell \<noteq> None then None else Some ip))"

definition parse_v6 :: "string \<Rightarrow> IP option" where
  "parse_v6 s =
     (if take 2 s = ''::'' then
        (if drop 2 s = [] then Some (replicate 16 0)
         else Option.bind (v6_loop (drop 2 s) [] (Some 0)) v6_finish)
      else Option.bind (v6_loop s [] None) v6_finish)"

datatype Addr = Addr4 "8 word list" | Addr6 IP string

text \<open>\<open>netip.ParseAddr\<close>: the first of \<open>.\<close>, \<open>:\<close> and \<open>%\<close> decides the form.\<close>

definition ParseAddr :: "string \<Rightarrow> Addr option" where
  "ParseAddr s =
     (case find (\<lambda>c. c = CHR ''.'' \<or> c = CHR '':'' \<or> c = CHR ''%'') s of
        None \<Rightarrow> None
      | Some c \<Rightarrow>
          (if c = CHR ''.'' then map_option (\<lambda>f. Addr4 (map of_nat f)) (v4_loop s 0 0 [])
           else if c = CHR '':'' then
             (case Cut CHR ''%'' s of
                None \<Rightarrow> map_option (\<lambda>ip. Addr6 ip []) (parse_v6 s)
              | Some (a, zone) \<Rightarrow>
                  if zone = [] then None else map_option (\<lambda>ip. Addr6 ip zone) (parse_v6 a))
           else None))"

definition v4InV6Prefix :: "8 word list" where
  "v4InV6Prefix = replicate 10 0 @ [255, 255]"

fun As16 :: "Addr \<Rightarrow> IP" where
  "As16 (Addr4 bs) = v4InV6Prefix @ bs"
| "As16 (Addr6 bs zone) = bs"

fun Zone :: "Addr \<Rightarrow> string" where
  "Zone (Addr4 bs) = []"
| "Zone (Addr6 bs zone) = zone"

fun BitLen :: "Addr \<Rightarrow> nat" where
  "BitLen (Addr4 bs) = 32"
| "BitLen (Addr6 bs zone) = 128"

definition ParseIP :: "string \<Rightarrow> IP option" where
  "ParseIP s =
     (case ParseAddr s of
        None \<Rightarrow> None
      | Some a \<Rightarrow> if Zone a \<noteq> [] then None else Some (As16 a))"

text \<open>\<open>dtoi\<close>: a decimal number, refused from 0xFFFFFF on.\<close>

fun dtoi_loop :: "string \<Rightarrow> nat \<Rightarrow> (nat \<times> string) option" where
  "dtoi_loop [] n = Some (n, [])"
| "dtoi_loop (c # cs) n =
     (if digit c then
        (if 0xFFFFFF \<le> n * 10 + (byte c - 48) then None else dtoi_loop cs (n * 10 + (byte c - 48)))
      else Some (n, c # cs))"

definition dtoi :: "string \<Rightarrow> (nat \<times> string) option" where
  "dtoi s = (case s of [] \<Rightarrow> None | c # cs \<Rightarrow> if digit c then dtoi_loop s 0 else None)"

text \<open>\<open>net.ParseCIDR\<close>; the program uses only the address.\<close>

definition ParseCIDR :: "string \<Rightarrow> IP option" where
  "ParseCIDR s =
     (case Cut CHR ''/'' s of
        None \<Rightarrow> None
      | Some (addr, msk) \<Rightarrow>
          (case ParseAddr addr of
             None \<Rightarrow> None
           | Some a \<Rightarrow>
               if Zone a \<noteq> [] then None
               else
                 (case dtoi msk of
                    None \<Rightarrow> None
                  | Some (n, r) \<Rightarrow> if r \<noteq> [] \<or> BitLen a < n then None else Some (As16 a))))"

section \<open>Printing addresses\<close>

definition To4 :: "IP \<Rightarrow> 8 word list option" where
  "To4 ip = (if length ip = 16 \<and> take 12 ip = v4InV6Prefix then Some (drop 12 ip) else None)"

definition v4_String :: "8 word list \<Rightarrow> string" where
  "v4_String bs = Join (map (\<lambda>b. utoa (unat b)) bs) ''.''"

text \<open>The eight 16-bit groups, and the longest run of at least two zero groups (the first of
  them when several are as long).\<close>

fun groups :: "8 word list \<Rightarrow> nat list" where
  "groups (a # b # bs) = (unat a * 256 + unat b) # groups bs"
| "groups _ = []"

definition zero_run :: "nat list \<Rightarrow> nat \<Rightarrow> nat" where
  "zero_run gs i = length (takeWhile (\<lambda>g. g = 0) (drop i gs))"

fun best_run :: "nat list \<Rightarrow> nat list \<Rightarrow> nat \<times> nat \<Rightarrow> nat \<times> nat" where
  "best_run gs [] best = best"
| "best_run gs (i # is) (st, ln) =
     (let l = zero_run gs i in best_run gs is (if 2 \<le> l \<and> ln < l then (i, l) else (st, ln)))"

definition v6_String :: "IP \<Rightarrow> string" where
  "v6_String ip =
     (let gs = groups ip; (st, ln) = best_run gs [0 ..< 8] (0, 0)
      in if ln = 0 then Join (map uhex gs) '':''
         else Join (map uhex (take st gs)) '':'' @ ''::'' @ Join (map uhex (drop (st + ln) gs)) '':'')"

text \<open>\<open>IP.String\<close> for the sixteen-byte addresses the parsers return.\<close>

definition IP_String :: "IP \<Rightarrow> string" where
  "IP_String ip = (case To4 ip of Some p4 \<Rightarrow> v4_String p4 | None \<Rightarrow> v6_String ip)"

section \<open>IPv4 round trip\<close>

lemma digit_char [simp]: "n < 10 \<Longrightarrow> digit (char_of (48 + n))" "n < 10 \<Longrightarrow> byte (char_of (48 + n)) = 48 + n"
  by (simp_all add: digit_def in_range_def)

lemma digit_not_sep [simp]: "digit c \<Longrightarrow> c \<noteq> CHR ''.'' \<and> c \<noteq> CHR ''/'' \<and> c \<noteq> CHR '':'' \<and> c \<noteq> CHR ''%''"
  by (auto simp: digit_def in_range_def byte_def)

lemma digit_chars:
  "char_of (48 :: nat) = CHR ''0''" "char_of (49 :: nat) = CHR ''1''" "char_of (50 :: nat) = CHR ''2''"
  "char_of (51 :: nat) = CHR ''3''" "char_of (52 :: nat) = CHR ''4''" "char_of (53 :: nat) = CHR ''5''"
  "char_of (54 :: nat) = CHR ''6''" "char_of (55 :: nat) = CHR ''7''" "char_of (56 :: nat) = CHR ''8''"
  "char_of (57 :: nat) = CHR ''9''"
  by (simp_all add: char_of_def bit_0)

lemma utoa_digits: "list_all digit (utoa n)"
  by (induction n rule: utoa.induct) (subst utoa.simps, simp)

lemma utoa_nonempty [simp]: "utoa n \<noteq> []"
  by (subst utoa.simps) simp

lemma utoa_1: "n < 10 \<Longrightarrow> utoa n = [char_of (48 + n)]"
  by (subst utoa.simps) simp

lemma utoa_2: "10 \<le> n \<Longrightarrow> n < 100 \<Longrightarrow> utoa n = [char_of (48 + n div 10), char_of (48 + n mod 10)]"
  by (subst utoa.simps) (simp add: utoa_1 less_mult_imp_div_less)

lemma utoa_3:
  "100 \<le> n \<Longrightarrow> n < 1000 \<Longrightarrow>
     utoa n = [char_of (48 + n div 100), char_of (48 + n div 10 mod 10), char_of (48 + n mod 10)]"
  by (subst utoa.simps) (simp add: utoa_2 less_mult_imp_div_less div_mult2_eq[symmetric])

lemma v4_loop_digit:
  "d < 10 \<Longrightarrow> v4_loop (char_of (48 + d) # cs) val dl fs =
     (if dl = 1 \<and> val = 0 then None else if 255 < val * 10 + d then None else v4_loop cs (val * 10 + d) (Suc dl) fs)"
  by simp

lemma v4_loop_utoa:
  assumes "n < 256"
  shows "v4_loop (utoa n @ cs) 0 0 fs = v4_loop cs n (length (utoa n)) fs"
proof -
  consider "n < 10" | "10 \<le> n" "n < 100" | "100 \<le> n" by linarith
  then show ?thesis
  proof cases
    case 1
    then show ?thesis by (simp add: utoa_1 v4_loop_digit)
  next
    case 2
    then have "n div 10 < 10" "n div 10 * 10 + n mod 10 = n" "n div 10 \<noteq> 0" "\<not> 255 < n div 10" by auto
    with 2 show ?thesis by (simp add: utoa_2 v4_loop_digit not_less del: v4_loop.simps)
  next
    case 3
    have d: "n div 100 < 10" "n div 10 mod 10 < 10" "n mod 10 < 10" "n div 100 \<noteq> 0"
      "n div 100 * 10 + n div 10 mod 10 = n div 10" "n div 10 * 10 + n mod 10 = n" "n div 10 \<le> 255"
    proof -
      have q: "n div 100 = n div 10 div 10" by (simp add: div_mult2_eq [symmetric])
      show "n div 100 < 10" "n div 10 mod 10 < 10" "n mod 10 < 10" "n div 100 \<noteq> 0" "n div 10 \<le> 255"
        using 3 assms by (simp_all add: div_eq_0_iff)
      show "n div 100 * 10 + n div 10 mod 10 = n div 10" "n div 10 * 10 + n mod 10 = n"
        unfolding q by (rule div_mult_mod_eq)+
    qed
    have u: "utoa n = [char_of (48 + n div 100), char_of (48 + n div 10 mod 10), char_of (48 + n mod 10)]"
      using 3 assms by (intro utoa_3) simp_all
    show ?thesis unfolding u
      using d assms by (simp add: v4_loop_digit del: v4_loop.simps)
  qed
qed

lemma v4_loop_String:
  "v4_loop (v4_String [a, b, c, d]) 0 0 [] = Some [unat a, unat b, unat c, unat d]"
proof -
  have lt: "unat x < 256" for x :: "8 word"
    using unsigned_less [of x, where 'a = nat] by simp
  have e: "v4_loop (utoa (unat d)) 0 0 fs = v4_loop [] (unat d) (length (utoa (unat d))) fs" for fs
    using v4_loop_utoa [OF lt, of d "[]"] by simp
  show ?thesis
    by (simp add: v4_String_def v4_loop_utoa lt e digit_def in_range_def byte_def)
qed

lemma find_first_sep:
  "list_all (\<lambda>c. \<not> P c) xs \<Longrightarrow> P c \<Longrightarrow> find P (xs @ c # ys) = Some c"
  by (induction xs) auto

lemma ParseAddr_v4_String: "ParseAddr (v4_String [a, b, c, d]) = Some (Addr4 [a, b, c, d])"
proof -
  have "list_all (\<lambda>c. \<not> (c = CHR ''.'' \<or> c = CHR '':'' \<or> c = CHR ''%'')) (utoa n)" for n
    using utoa_digits [of n] by (auto simp: list_all_iff)
  then have "find (\<lambda>c. c = CHR ''.'' \<or> c = CHR '':'' \<or> c = CHR ''%'') (v4_String [a, b, c, d]) = Some CHR ''.''"
    by (simp add: v4_String_def find_first_sep)
  then show ?thesis
    by (simp add: ParseAddr_def v4_loop_String)
qed

definition v4 :: "8 word \<Rightarrow> 8 word \<Rightarrow> 8 word \<Rightarrow> 8 word \<Rightarrow> IP" where
  "v4 a b c d = v4InV6Prefix @ [a, b, c, d]"

lemma IP_String_v4: "IP_String (v4 a b c d) = v4_String [a, b, c, d]"
  by (simp add: IP_String_def To4_def v4_def v4InV6Prefix_def numeral_eq_Suc)

lemma ParseIP_v4_String: "ParseIP (v4_String [a, b, c, d]) = Some (v4 a b c d)"
  by (simp add: ParseIP_def ParseAddr_v4_String v4_def)

lemma v4_String_no_slash: "CHR ''/'' \<notin> set (v4_String [a, b, c, d])"
proof -
  have "\<not> digit CHR ''/''" by (simp add: digit_def in_range_def byte_def)
  then have "CHR ''/'' \<notin> set (utoa n)" for n
    using utoa_digits [of n] by (auto simp: list_all_iff)
  then show ?thesis by (simp add: v4_String_def)
qed

lemma dtoi_utoa_small: "n < 100 \<Longrightarrow> dtoi (utoa n) = Some (n, [])"
proof -
  assume n: "n < 100"
  show ?thesis
  proof (cases "n < 10")
    case True
    then show ?thesis by (simp add: utoa_1 dtoi_def)
  next
    case False
    with n have "n div 10 < 10" "n div 10 * 10 + n mod 10 = n" by auto
    with n False show ?thesis by (simp add: utoa_2 dtoi_def)
  qed
qed

lemma ParseCIDR_v4_String:
  "n \<le> 32 \<Longrightarrow> ParseCIDR (v4_String [a, b, c, d] @ ''/'' @ utoa n) = Some (v4 a b c d)"
  by (simp add: ParseCIDR_def v4_String_no_slash ParseAddr_v4_String dtoi_utoa_small v4_def)

end
