(* ===== verification/IpamExec.thy ===== *)
theory IpamExec
  imports Ipam GoNet
begin

text \<open>
  \<open>internal/ipam/exec.go\<close>: running the whereabouts CNI binary.  The binary is a parameter: the
  function from its path, its environment and its standard input to its standard output, or an
  error.  The interface \<open>CNIExecutor\<close> is a record of its two methods; the locale
  \<open>cni_executor\<close> holds what the HTTP handlers rely on, and \<open>WhereaboutsExecutor\<close> is shown to
  provide it for every binary.
\<close>

section \<open>Claim UIDs and results\<close>

definition validClaimUID_rx :: rx where
  "validClaimUID_rx =
     RPlus (RClass [(CHR ''A'', CHR ''Z''), (CHR ''a'', CHR ''z''), (CHR ''0'', CHR ''9''),
                    (CHR ''.'', CHR ''.''), (CHR ''_'', CHR ''_''), (CHR ''-'', CHR ''-'')])"

definition validClaimUID :: "string \<Rightarrow> bool" where
  "validClaimUID s = MatchString validClaimUID_rx s"

record cniIP =
  Address :: string

record cniAddResult =
  IPs :: "cniIP list"

definition dec_cniIP :: "cniIP dec" where
  "dec_cniIP = dec_struct [(''address'', dec_field Address Address_update dec_string)]"

definition dec_cniAddResult :: "cniAddResult dec" where
  "dec_cniAddResult =
     dec_struct [(''ips'', dec_field IPs IPs_update (dec_slice \<lparr>Address = []\<rparr> dec_cniIP))]"

datatype ExecError =
    InvalidClaimUID string
  | CommandFailed string string
  | WhereaboutsADD ExecError
  | WhereaboutsDEL ExecError
  | ParseADDResult
  | NoIPs
  | ParseAllocatedIP string

section \<open>The executor interface and WhereaboutsExecutor\<close>

record 'w CNIExecutor =
  Executor_Add :: "string \<Rightarrow> string \<Rightarrow> ('w, ExecError, IP) io"
  Executor_Del :: "string \<Rightarrow> string \<Rightarrow> ('w, ExecError, unit) io"

record WhereaboutsExecutor =
  BinPath :: string
  CNIPath :: string

type_synonym 'w binary = "string \<Rightarrow> string list \<Rightarrow> string \<Rightarrow> ('w, string, string) io"

definition cni_args :: "string \<Rightarrow> string" where
  "cni_args claimUID = ''IgnoreUnknown=1;K8S_POD_NAME='' @ claimUID @ '';K8S_POD_NAMESPACE=dranet-webhook''"

definition cni_env :: "WhereaboutsExecutor \<Rightarrow> string \<Rightarrow> string \<Rightarrow> string list" where
  "cni_env w command claimUID =
     [''CNI_COMMAND='' @ command,
      ''CNI_CONTAINERID='' @ claimUID,
      ''CNI_NETNS=/dev/null'',
      ''CNI_IFNAME=eth0'',
      ''CNI_PATH='' @ CNIPath w,
      ''CNI_ARGS='' @ cni_args claimUID]"

definition run ::
  "'w binary \<Rightarrow> WhereaboutsExecutor \<Rightarrow> string \<Rightarrow> string \<Rightarrow> string \<Rightarrow> ('w, ExecError, string) io" where
  "run bin w command conf claimUID =
     (if \<not> validClaimUID claimUID then fail (InvalidClaimUID claimUID)
      else call (bin (BinPath w) (cni_env w command claimUID) conf)
             (\<lambda>stderr. fail (CommandFailed command stderr))
             (\<lambda>stdout. ok stdout))"

definition Add :: "'w binary \<Rightarrow> WhereaboutsExecutor \<Rightarrow> string \<Rightarrow> string \<Rightarrow> ('w, ExecError, IP) io" where
  "Add bin w conf claimUID =
     call (run bin w ''ADD'' conf claimUID)
       (\<lambda>e. fail (WhereaboutsADD e))
       (\<lambda>stdout.
          case Unmarshal dec_cniAddResult stdout \<lparr>IPs = []\<rparr> of
            None \<Rightarrow> fail ParseADDResult
          | Some result \<Rightarrow>
              (case IPs result of
                 [] \<Rightarrow> fail NoIPs
               | i # _ \<Rightarrow>
                   (case ParseCIDR (Address i) of
                      Some ip \<Rightarrow> ok ip
                    | None \<Rightarrow>
                        (case ParseIP (Address i) of
                           None \<Rightarrow> fail (ParseAllocatedIP (Address i))
                         | Some ip \<Rightarrow> ok ip))))"

definition Del :: "'w binary \<Rightarrow> WhereaboutsExecutor \<Rightarrow> string \<Rightarrow> string \<Rightarrow> ('w, ExecError, unit) io" where
  "Del bin w conf claimUID =
     call (run bin w ''DEL'' conf claimUID)
       (\<lambda>e. fail (WhereaboutsDEL e))
       (\<lambda>stdout. ok ())"

definition whereabouts_executor :: "'w binary \<Rightarrow> WhereaboutsExecutor \<Rightarrow> 'w CNIExecutor" where
  "whereabouts_executor bin w = \<lparr>Executor_Add = Add bin w, Executor_Del = Del bin w\<rparr>"

section \<open>What the handlers rely on\<close>

text \<open>An executor refuses a malformed claim UID without doing anything.\<close>

locale cni_executor =
  fixes ex_Add :: "string \<Rightarrow> string \<Rightarrow> ('w, ExecError, IP) io"
    and ex_Del :: "string \<Rightarrow> string \<Rightarrow> ('w, ExecError, unit) io"
  assumes add_refuses: "\<not> validClaimUID uid \<Longrightarrow> \<exists>e. run_state (ex_Add conf uid) w = (Inl e, w)"
    and del_refuses: "\<not> validClaimUID uid \<Longrightarrow> \<exists>e. run_state (ex_Del conf uid) w = (Inl e, w)"

lemma run_invalid: "\<not> validClaimUID uid \<Longrightarrow> run_state (run bin x command conf uid) w = (Inl (InvalidClaimUID uid), w)"
  by (simp add: run_def)

interpretation wexec: cni_executor "Add bin x" "Del bin x" for bin :: "'w binary" and x
  by unfold_locales (simp_all add: Add_def Del_def run_invalid)

section \<open>Claim UIDs cannot inject CNI arguments\<close>

lemma validClaimUID_iff:
  "validClaimUID s \<longleftrightarrow> s \<noteq> [] \<and>
     list_all (in_class [(CHR ''A'', CHR ''Z''), (CHR ''a'', CHR ''z''), (CHR ''0'', CHR ''9''),
                    (CHR ''.'', CHR ''.''), (CHR ''_'', CHR ''_''), (CHR ''-'', CHR ''-'')]) s"
  by (simp add: validClaimUID_def validClaimUID_rx_def MatchString_iff in_lang_plus_class)

lemma validClaimUID_no_sep:
  "validClaimUID s \<Longrightarrow> CHR '';'' \<notin> set s \<and> CHR ''='' \<notin> set s \<and> CHR 0x00 \<notin> set s"
  by (auto simp: validClaimUID_iff list_all_iff in_class_def byte_def)

lemma Split_cni_args:
  assumes "CHR '';'' \<notin> set uid"
  shows "Split CHR '';'' (cni_args uid) =
     [''IgnoreUnknown=1'', ''K8S_POD_NAME='' @ uid, ''K8S_POD_NAMESPACE=dranet-webhook'']"
  using Split_append [of "CHR '';''" "''IgnoreUnknown=1''"] Split_append [of "CHR '';''" "''K8S_POD_NAME='' @ uid"]
    Split_no_sep [of "CHR '';''" "''K8S_POD_NAMESPACE=dranet-webhook''"] assms
  by (simp add: cni_args_def)

text \<open>C24: for every claim UID and command, either \<open>run\<close> refuses the UID without starting the
  binary, or it starts the binary once, with the UID as the container id and with a
  \<open>CNI_ARGS\<close> that is a list of exactly the three intended key/value pairs, the pod name being the
  UID and the pod namespace \<open>dranet-webhook\<close>: no UID can add a pair or override one.\<close>

theorem run_no_injection:
  assumes "run_state (run bin x command conf uid) w = (r, w')"
  shows "r = Inl (InvalidClaimUID uid) \<and> w' = w \<or>
     (\<exists>env. w' = snd (run_state (bin (BinPath x) env conf) w) \<and>
        length env = 6 \<and> env ! 0 = ''CNI_COMMAND='' @ command \<and> env ! 1 = ''CNI_CONTAINERID='' @ uid \<and>
        env ! 5 = ''CNI_ARGS='' @ cni_args uid \<and>
        map (Split CHR ''='') (Split CHR '';'' (cni_args uid)) =
          [[''IgnoreUnknown'', ''1''], [''K8S_POD_NAME'', uid], [''K8S_POD_NAMESPACE'', ''dranet-webhook'']])"
proof (cases "validClaimUID uid")
  case True
  then have "CHR '';'' \<notin> set uid" "CHR ''='' \<notin> set uid" by (simp_all add: validClaimUID_no_sep)
  then have "map (Split CHR ''='') (Split CHR '';'' (cni_args uid)) =
      [[''IgnoreUnknown'', ''1''], [''K8S_POD_NAME'', uid], [''K8S_POD_NAMESPACE'', ''dranet-webhook'']]"
    by (simp add: Split_cni_args Split_no_sep)
  moreover have "w' = snd (run_state (bin (BinPath x) (cni_env x command uid) conf) w)"
    using assms True by (auto simp: run_def run_call split: prod.splits sum.splits)
  ultimately show ?thesis by (intro disjI2 exI [of _ "cni_env x command uid"]) (simp add: cni_env_def)
next
  case False
  with assms show ?thesis by (simp add: run_invalid)
qed

theorem run_no_injection_witness:
  "snd (run_state (run (\<lambda>p env c. State (\<lambda>w. (Inr c, Suc w))) \<lparr>BinPath = ''/b'', CNIPath = ''/''\<rparr> ''ADD'' ''{}'' ''u-1'') 0) = 1"
proof -
  have v: "validClaimUID ''u-1''" by code_simp
  have "run_state (run (\<lambda>p env c. State (\<lambda>w. (Inr c, Suc w))) \<lparr>BinPath = ''/b'', CNIPath = ''/''\<rparr> ''ADD'' ''{}'' ''u-1'') 0
      = (Inr ''{}'', 1)"
    by (simp add: run_def v run_call)
  from run_no_injection [OF this] this show ?thesis by auto
qed

text \<open>\<open>Add\<close> reports success exactly when the UID is well formed, the binary succeeds, and its
  output is a JSON result whose first address Go reads as a CIDR or as a plain address; the
  result is that address.\<close>

theorem Add_success_iff:
  "run_state (Add bin x conf uid) w = (Inr ip, w') \<longleftrightarrow>
     validClaimUID uid \<and>
     (\<exists>out result i is. run_state (bin (BinPath x) (cni_env x ''ADD'' uid) conf) w = (Inr out, w') \<and>
        Unmarshal dec_cniAddResult out \<lparr>IPs = []\<rparr> = Some result \<and> IPs result = i # is \<and>
        (ParseCIDR (Address i) = Some ip \<or> ParseCIDR (Address i) = None \<and> ParseIP (Address i) = Some ip))"
  (is "?l \<longleftrightarrow> ?r")
proof
  assume ?l
  then show ?r
    by (fastforce simp: Add_def run_def run_call split: if_splits prod.splits sum.splits option.splits list.splits)
next
  assume ?r
  then show ?l
    by (auto simp: Add_def run_def run_call)
qed

end
