(* ===== verification/IpamHandler.thy ===== *)
theory IpamHandler
  imports IpamExec
begin

text \<open>
  \<open>internal/ipam/handler.go\<close>: the three HTTP endpoints of the dranet webhook provider.

  A response is an error status with the error that \<open>http.Error\<close> prints, a JSON body with
  status 200, or an empty 200.  Logging is left out.  The abstract specification is
  \<open>request_plan\<close>: what a request asks for before any cluster access; both endpoints follow it
  (\<open>getProfileConfig_plan\<close>, \<open>releaseProfileConfig_plan\<close>).
\<close>

section \<open>Requests and responses\<close>

record HttpRequest =
  Method :: string
  Body :: string

datatype HandlerError =
    MethodNotAllowed
  | DecodeRequest
  | InvalidProfile ProfileError
  | NumaNetworkNotFound string string
  | GetNumaNetworkError string string ApiError
  | BuildConf ConfError
  | AddFailed ExecError
  | DelFailed ExecError

datatype HttpResponse =
    HttpError nat HandlerError
  | HttpJSON string
  | HttpOK

record 'w Handler =
  Handler_Client :: "'w Client"
  Handler_Executor :: "'w CNIExecutor"

section \<open>The endpoints\<close>

definition getProfileConfig :: "'w Handler \<Rightarrow> HttpRequest \<Rightarrow> ('w, HttpResponse) state" where
  "getProfileConfig h r =
     (if Method r \<noteq> ''POST'' then State_Monad.return (HttpError 405 MethodNotAllowed)
      else case Decode dec_profileRequest (Body r) zero_request of
        None \<Rightarrow> State_Monad.return (HttpError 400 DecodeRequest)
      | Some req \<Rightarrow>
          (let profile = (case Config req of None \<Rightarrow> [] | Some c \<Rightarrow> Profile c)
           in case ParseProfileName profile of
             Inl e \<Rightarrow> State_Monad.return (HttpError 400 (InvalidProfile e))
           | Inr (ns, name) \<Rightarrow>
               call (GetNumaNetwork (Handler_Client h) (ns, name))
                 (\<lambda>e. State_Monad.return
                    (if IsNotFound e then HttpError 404 (NumaNetworkNotFound ns name)
                     else HttpError 500 (GetNumaNetworkError ns name e)))
                 (\<lambda>nn.
                    let range = IPRange (RefResourceClaimDranet (nn_Spec nn))
                    in case BuildConfFromNuma name range of
                      Inl e \<Rightarrow> State_Monad.return (HttpError 500 (BuildConf e))
                    | Inr conf \<Rightarrow>
                        call (Executor_Add (Handler_Executor h) conf (ClaimUID req))
                          (\<lambda>e. State_Monad.return (HttpError 500 (AddFailed e)))
                          (\<lambda>ip.
                             let resp = \<lparr>Profile = [], Interface =
                                   \<lparr>Addresses = [IP_String ip @ ''/'' @ extractPrefix range]\<rparr>\<rparr>
                             in State_Monad.return (HttpJSON (Marshal (networkConfig_json resp) @ [CHR 0x0A]))))))"

definition releaseProfileConfig :: "'w Handler \<Rightarrow> HttpRequest \<Rightarrow> ('w, HttpResponse) state" where
  "releaseProfileConfig h r =
     (if Method r \<noteq> ''POST'' then State_Monad.return (HttpError 405 MethodNotAllowed)
      else case Decode dec_profileRequest (Body r) zero_request of
        None \<Rightarrow> State_Monad.return (HttpError 400 DecodeRequest)
      | Some req \<Rightarrow>
          (let profile = (case Config req of None \<Rightarrow> [] | Some c \<Rightarrow> Profile c)
           in case ParseProfileName profile of
             Inl e \<Rightarrow> State_Monad.return (HttpError 400 (InvalidProfile e))
           | Inr (ns, name) \<Rightarrow>
               call (GetNumaNetwork (Handler_Client h) (ns, name))
                 (\<lambda>e. State_Monad.return
                    (if IsNotFound e then HttpError 404 (NumaNetworkNotFound ns name)
                     else HttpError 500 (GetNumaNetworkError ns name e)))
                 (\<lambda>nn.
                    case BuildConfFromNuma name (IPRange (RefResourceClaimDranet (nn_Spec nn))) of
                      Inl e \<Rightarrow> State_Monad.return (HttpError 500 (BuildConf e))
                    | Inr conf \<Rightarrow>
                        call (Executor_Del (Handler_Executor h) conf (ClaimUID req))
                          (\<lambda>e. State_Monad.return (HttpError 500 (DelFailed e)))
                          (\<lambda>_. State_Monad.return HttpOK))))"

definition health :: "'w Handler \<Rightarrow> HttpRequest \<Rightarrow> ('w, HttpResponse) state" where
  "health h r =
     State_Monad.return
       (HttpJSON (Marshal (capabilities_json \<lparr>CloudProvider = False, ProfileProvider = True\<rparr>) @ [CHR 0x0A]))"

definition RegisterRoutes :: "'w Handler \<Rightarrow> (string \<times> (HttpRequest \<Rightarrow> ('w, HttpResponse) state)) list" where
  "RegisterRoutes h =
     [(''/GetProfileConfig'', getProfileConfig h),
      (''/ReleaseProfileConfig'', releaseProfileConfig h),
      (''/health'', health h)]"

section \<open>The plan of a request\<close>

text \<open>What both endpoints compute before they look at the cluster: an error, or the NumaNetwork
  to read and the claim UID.\<close>

definition request_plan :: "HttpRequest \<Rightarrow> HttpResponse + (string \<times> string \<times> string)" where
  "request_plan r =
     (if Method r \<noteq> ''POST'' then Inl (HttpError 405 MethodNotAllowed)
      else case Decode dec_profileRequest (Body r) zero_request of
        None \<Rightarrow> Inl (HttpError 400 DecodeRequest)
      | Some req \<Rightarrow>
          (case ParseProfileName (case Config req of None \<Rightarrow> [] | Some c \<Rightarrow> Profile c) of
             Inl e \<Rightarrow> Inl (HttpError 400 (InvalidProfile e))
           | Inr (ns, name) \<Rightarrow> Inr (ns, name, ClaimUID req)))"

definition with_conf ::
  "'w Handler \<Rightarrow> HttpRequest \<Rightarrow> (NumaNetwork \<Rightarrow> string \<Rightarrow> string \<Rightarrow> ('w, HttpResponse) state) \<Rightarrow>
     ('w, HttpResponse) state" where
  "with_conf h r act =
     (case request_plan r of
        Inl resp \<Rightarrow> State_Monad.return resp
      | Inr (ns, name, uid) \<Rightarrow>
          call (GetNumaNetwork (Handler_Client h) (ns, name))
            (\<lambda>e. State_Monad.return
               (if IsNotFound e then HttpError 404 (NumaNetworkNotFound ns name)
                else HttpError 500 (GetNumaNetworkError ns name e)))
            (\<lambda>nn.
               case BuildConfFromNuma name (IPRange (RefResourceClaimDranet (nn_Spec nn))) of
                 Inl e \<Rightarrow> State_Monad.return (HttpError 500 (BuildConf e))
               | Inr conf \<Rightarrow> act nn conf uid))"

definition allocate :: "'w Handler \<Rightarrow> NumaNetwork \<Rightarrow> string \<Rightarrow> string \<Rightarrow> ('w, HttpResponse) state" where
  "allocate h nn conf uid =
     call (Executor_Add (Handler_Executor h) conf uid)
       (\<lambda>e. State_Monad.return (HttpError 500 (AddFailed e)))
       (\<lambda>ip. State_Monad.return
          (HttpJSON (Marshal (networkConfig_json \<lparr>Profile = [], Interface =
             \<lparr>Addresses = [IP_String ip @ ''/'' @ extractPrefix (IPRange (RefResourceClaimDranet (nn_Spec nn)))]\<rparr>\<rparr>)
           @ [CHR 0x0A])))"

definition release :: "'w Handler \<Rightarrow> NumaNetwork \<Rightarrow> string \<Rightarrow> string \<Rightarrow> ('w, HttpResponse) state" where
  "release h nn conf uid =
     call (Executor_Del (Handler_Executor h) conf uid)
       (\<lambda>e. State_Monad.return (HttpError 500 (DelFailed e)))
       (\<lambda>_. State_Monad.return HttpOK)"

lemma getProfileConfig_plan: "getProfileConfig h r = with_conf h r (allocate h)"
  unfolding getProfileConfig_def with_conf_def request_plan_def allocate_def Let_def
  by (simp split: option.split sum.split)

lemma releaseProfileConfig_plan: "releaseProfileConfig h r = with_conf h r (release h)"
  unfolding releaseProfileConfig_def with_conf_def request_plan_def release_def Let_def
  by (simp split: option.split sum.split)

section \<open>Address ranges and prefix lengths\<close>

lemma in_class_digit: "in_class [(CHR ''0'', CHR ''9'')] c \<longleftrightarrow> digit c"
  by (simp add: in_class_def digit_def in_range_def byte_def)

lemma in_class_12: "in_class [(CHR ''1'', CHR ''2'')] c \<longleftrightarrow> 49 \<le> byte c \<and> byte c \<le> 50"
  by (simp add: in_class_def byte_def)

lemma in_class_02: "in_class [(CHR ''0'', CHR ''2'')] c \<longleftrightarrow> 48 \<le> byte c \<and> byte c \<le> 50"
  by (simp add: in_class_def byte_def)

lemmas class_simps = in_class_digit in_class_12 in_class_02 in_class_single

lemma digit_utoa: "digit c \<Longrightarrow> [c] = utoa (byte c - 48)"
proof -
  assume "digit c"
  then have b: "48 \<le> byte c" "byte c \<le> 57" by (auto simp: digit_def in_range_def)
  then have "utoa (byte c - 48) = [char_of (48 + (byte c - 48))]" by (intro utoa_1) simp
  with b show ?thesis by simp
qed

lemma two_digits_utoa:
  assumes "49 \<le> byte c" "byte c \<le> 57" "digit d"
  shows "[c, d] = utoa ((byte c - 48) * 10 + (byte d - 48))"
proof -
  let ?n = "(byte c - 48) * 10 + (byte d - 48)"
  have d: "48 \<le> byte d" "byte d \<le> 57" using assms(3) by (auto simp: digit_def in_range_def)
  have "(byte d - 48) div 10 = 0" "(byte d - 48) mod 10 = byte d - 48" using d by simp_all
  then have "?n div 10 = byte c - 48" "?n mod 10 = byte d - 48"
    by (simp_all only: div_mult_self3 mod_mult_self3 div_mult_self1 mod_mult_self1 mod_mult_self4)
  moreover have "utoa ?n = [char_of (48 + ?n div 10), char_of (48 + ?n mod 10)]"
    by (rule utoa_2) (use assms d in auto)
  ultimately show ?thesis using assms(1) d by simp
qed

lemma prefix_rx_utoa:
  assumes "in_lang prefix_rx p"
  shows "\<exists>n \<le> 32. p = utoa n"
proof -
  from assms consider
      c where "p = [c]" "digit c"
    | c d where "p = [c, d]" "49 \<le> byte c" "byte c \<le> 50" "digit d"
    | d where "p = [CHR ''3'', d]" "48 \<le> byte d" "byte d \<le> 50"
    unfolding prefix_rx_def d09_def
    by (auto simp: in_lang_simps class_simps)
  then show ?thesis
  proof cases
    case (1 c)
    then show ?thesis using digit_utoa [of c] by (intro exI [of _ "byte c - 48"]) (auto simp: digit_def in_range_def)
  next
    case (2 c d)
    then have "digit d" "byte d \<le> 57" by (auto simp: digit_def in_range_def)
    with 2 show ?thesis using two_digits_utoa [of c d]
      by (intro exI [of _ "(byte c - 48) * 10 + (byte d - 48)"]) auto
  next
    case (3 d)
    then have "digit d" by (auto simp: digit_def in_range_def)
    with 3 show ?thesis using two_digits_utoa [of "CHR ''3''" d]
      by (intro exI [of _ "(byte CHR ''3'' - 48) * 10 + (byte d - 48)"]) (auto simp: byte_def)
  qed
qed

lemma ipRange_valid_form:
  assumes "ipRange_valid s"
  shows "\<exists>a p. s = a @ ''/'' @ p \<and> in_lang prefix_rx p"
proof -
  define tail where "tail = RSeq (RChr CHR ''/'') prefix_rx"
  define o_dot where "o_dot = RSeq octet_rx (RChr CHR ''.'')"
  have "in_lang (RSeq o_dot (RSeq o_dot (RSeq o_dot (RSeq octet_rx tail)))) s"
    using assms by (simp add: ipRange_valid_def MatchString_iff ipRange_rx_def Let_def tail_def o_dot_def)
  then obtain a1 t1 where 1: "s = a1 @ t1" "in_lang (RSeq o_dot (RSeq o_dot (RSeq octet_rx tail))) t1"
    using in_lang_seq_suffix by blast
  from 1(2) obtain a2 t2 where 2: "t1 = a2 @ t2" "in_lang (RSeq o_dot (RSeq octet_rx tail)) t2"
    using in_lang_seq_suffix by blast
  from 2(2) obtain a3 t3 where 3: "t2 = a3 @ t3" "in_lang (RSeq octet_rx tail) t3"
    using in_lang_seq_suffix by blast
  from 3(2) obtain a4 t where 4: "t3 = a4 @ t" and t: "in_lang (RSeq (RChr CHR ''/'') prefix_rx) t"
    unfolding tail_def using in_lang_seq_suffix by blast
  have s: "s = (a1 @ a2 @ a3 @ a4) @ t" using 1(1) 2(1) 3(1) 4 by simp
  from t have "\<exists>p. t = CHR ''/'' # p \<and> in_lang prefix_rx p"
    by (cases t) (simp_all add: in_lang_class_Cons in_lang_class_Nil in_class_single)
  with s show ?thesis by (metis append_Cons append_Nil)
qed

lemma utoa_no_slash: "CHR ''/'' \<notin> set (utoa n)"
proof -
  have "\<not> digit CHR ''/''" by (simp add: digit_def in_range_def byte_def)
  then show ?thesis using utoa_digits [of n] by (auto simp: list_all_iff)
qed

lemma prefix_of_valid_range:
  assumes "ipRange_valid r"
  shows "\<exists>n \<le> 32. extractPrefix r = utoa n"
proof -
  obtain a p where s: "r = a @ CHR ''/'' # p" and p: "in_lang prefix_rx p"
    using ipRange_valid_form [OF assms] by auto
  obtain n where "n \<le> 32" "p = utoa n" using prefix_rx_utoa [OF p] by blast
  then show ?thesis using extractPrefix_sep [of p a] s utoa_no_slash by auto
qed

text \<open>C36: for every \<open>ipRange\<close> the CRD validation pattern accepts, \<open>extractPrefix\<close> yields the
  decimal text of a prefix length between 0 and 32.\<close>

theorem extractPrefix_valid_range:
  assumes "ipRange_valid r"
  shows "\<exists>n \<le> 32. extractPrefix r = utoa n"
  using assms by (rule prefix_of_valid_range)

theorem extractPrefix_valid_range_witness: "\<exists>n \<le> 32. extractPrefix ''192.168.140.0/24'' = utoa n"
  by (rule extractPrefix_valid_range) code_simp

section \<open>Printed addresses are ASCII\<close>

lemma utoa_ascii: "is_ascii (utoa n)"
proof (induction n rule: utoa.induct)
  case (1 n)
  have "n mod 10 < 80" by (rule less_le_trans [of _ 10]) simp_all
  with 1 show ?case by (subst utoa.simps) simp
qed

lemma hex_digit_ascii: "n < 16 \<Longrightarrow> byte (hex_digit n) < 128"
  by (auto simp: hex_digit_def)

lemma uhex_ascii: "is_ascii (uhex n)"
proof (induction n rule: uhex.induct)
  case (1 n)
  then show ?case by (subst uhex.simps) (simp add: hex_digit_ascii)
qed

lemma Join_ascii: "(\<And>p. p \<in> set ps \<Longrightarrow> is_ascii p) \<Longrightarrow> is_ascii sep \<Longrightarrow> is_ascii (Join ps sep)"
  by (induction ps) (auto simp: Join_Cons)

lemma ascii_seps [simp]: "is_ascii ''.''" "is_ascii '':''" "is_ascii ''::''" "is_ascii ''/''"
  by (simp_all add: byte_def)

lemma v4_String_ascii: "is_ascii (v4_String bs)"
  by (auto simp: v4_String_def intro!: Join_ascii simp: utoa_ascii)

lemma v6_String_ascii: "is_ascii (v6_String ip)"
  unfolding v6_String_def Let_def
  by (auto split: prod.split intro!: Join_ascii simp: uhex_ascii)

lemma IP_String_ascii: "is_ascii (IP_String ip)"
  by (simp add: IP_String_def v4_String_ascii v6_String_ascii split: option.split)

section \<open>The response of an allocation\<close>

lemma networkConfig_roundtrip:
  assumes "is_ascii a"
  shows "Decode dec_networkConfig
     (Marshal (networkConfig_json \<lparr>Profile = [], Interface = \<lparr>Addresses = [a]\<rparr>\<rparr>) @ t) zero_config =
     Some \<lparr>Profile = [], Interface = \<lparr>Addresses = [a]\<rparr>\<rparr>"
proof -
  let ?v = "networkConfig_json \<lparr>Profile = [], Interface = \<lparr>Addresses = [a]\<rparr>\<rparr>"
  have v: "?v = JObj [(''interface'', JObj [(''addresses'', JArr [JStr a])])]"
    by (simp add: networkConfig_json_def interface_json_def opt_str_def)
  have u: "json_utf8 ?v = ?v" by (simp add: v to_utf8_ascii assms)
  have "Decode dec_networkConfig (Marshal ?v @ t) zero_config = dec_networkConfig ?v zero_config"
    using Decode_Marshal [of ?v dec_networkConfig t] by (simp add: u) (simp add: v maxNestingDepth_def)
  moreover have f: "fold_name ''profile'' \<noteq> fold_name ''interface''" "fold_name ''interface'' = fold_name ''interface''"
     "fold_name ''addresses'' = fold_name ''addresses''"
    by code_simp+
  ultimately show ?thesis
    by (simp add: v dec_networkConfig_def dec_interface_def dec_field_def zero_config_def del: fold_name.simps)
qed


lemma request_plan_Inr:
  assumes "request_plan r = Inr (ns, name, uid)"
  shows "Method r = ''POST''" "ns \<noteq> []" "name \<noteq> []"
    and "\<exists>req c. Decode dec_profileRequest (Body r) zero_request = Some req \<and> Config req = Some c \<and>
           Profile c = ns @ ''/'' @ name \<and> uid = ClaimUID req"
proof -
  obtain req where d: "Decode dec_profileRequest (Body r) zero_request = Some req"
    and p: "ParseProfileName (case Config req of None \<Rightarrow> [] | Some c \<Rightarrow> Profile c) = Inr (ns, name)"
    and u: "uid = ClaimUID req" and m: "Method r = ''POST''"
    using assms by (auto simp: request_plan_def split: if_splits option.splits sum.splits)
  have p': "(case Config req of None \<Rightarrow> [] | Some c \<Rightarrow> Profile c) = ns @ ''/'' @ name" "ns \<noteq> []" "name \<noteq> []"
    using p by (simp_all add: ParseProfileName_Inr_iff)
  then obtain c where "Config req = Some c" by (cases "Config req") auto
  with d p' u m show "Method r = ''POST''" "ns \<noteq> []" "name \<noteq> []"
    "\<exists>req c. Decode dec_profileRequest (Body r) zero_request = Some req \<and> Config req = Some c \<and>
           Profile c = ns @ ''/'' @ name \<and> uid = ClaimUID req"
    by auto
qed

text \<open>C5: a well-formed POST whose NumaNetwork exists and for which the executor allocates an
  address is answered with status 200 and a JSON body that dranet decodes to exactly one
  interface address: the allocated address with the prefix length of the network's \<open>ipRange\<close>.\<close>

theorem getProfileConfig_allocates:
  assumes "request_plan r = Inr (ns, name, uid)"
    and "run_state (GetNumaNetwork (Handler_Client h) (ns, name)) w = (Inr nn, w1)"
    and "IPRange (RefResourceClaimDranet (nn_Spec nn)) = ipRange" and "is_ascii ipRange"
    and "BuildConfFromNuma name ipRange = Inr conf"
    and "run_state (Executor_Add (Handler_Executor h) conf uid) w1 = (Inr ip, w2)"
  shows "\<exists>body. run_state (getProfileConfig h r) w = (HttpJSON body, w2) \<and>
     Decode dec_networkConfig body zero_config =
       Some \<lparr>Profile = [], Interface = \<lparr>Addresses = [IP_String ip @ ''/'' @ extractPrefix ipRange]\<rparr>\<rparr>"
proof -
  have "is_ascii (IP_String ip @ ''/'' @ extractPrefix ipRange)"
    by (simp add: IP_String_ascii extractPrefix_ascii assms(4))
  from networkConfig_roundtrip [OF this] assms show ?thesis
    by (simp add: getProfileConfig_plan with_conf_def allocate_def)
qed

text \<open>C34: every error answer of \<open>getProfileConfig\<close> has the documented status, and says how far the
  request went: 405 and 400 leave the world untouched, 404 and the read error follow a failed read
  of the NumaNetwork, and only \<open>AddFailed\<close> comes after the executor was called.\<close>

theorem getProfileConfig_errors:
  assumes "run_state (getProfileConfig h r) w = (HttpError code e, w')"
  shows "case e of
      MethodNotAllowed \<Rightarrow> code = 405 \<and> w' = w \<and> Method r \<noteq> ''POST''
    | DecodeRequest \<Rightarrow> code = 400 \<and> w' = w \<and> Decode dec_profileRequest (Body r) zero_request = None
    | InvalidProfile _ \<Rightarrow> code = 400 \<and> w' = w
    | NumaNetworkNotFound ns name \<Rightarrow> code = 404 \<and>
        run_state (GetNumaNetwork (Handler_Client h) (ns, name)) w = (Inl ErrNotFound, w')
    | GetNumaNetworkError ns name err \<Rightarrow> code = 500 \<and> err \<noteq> ErrNotFound \<and>
        run_state (GetNumaNetwork (Handler_Client h) (ns, name)) w = (Inl err, w')
    | BuildConf err \<Rightarrow> code = 500 \<and> err = EmptyIPRange \<and>
        (\<exists>ns name nn. run_state (GetNumaNetwork (Handler_Client h) (ns, name)) w = (Inr nn, w') \<and>
           IPRange (RefResourceClaimDranet (nn_Spec nn)) = [])
    | AddFailed err \<Rightarrow> code = 500 \<and>
        (\<exists>ns name nn w1 conf uid. run_state (GetNumaNetwork (Handler_Client h) (ns, name)) w = (Inr nn, w1) \<and>
           run_state (Executor_Add (Handler_Executor h) conf uid) w1 = (Inl err, w'))
    | DelFailed err \<Rightarrow> False"
proof (cases "request_plan r")
  case (Inl resp)
  with assms show ?thesis
    by (auto simp: getProfileConfig_plan with_conf_def request_plan_def
        split: if_splits option.splits sum.splits)
next
  case (Inr p)
  obtain ns name uid where p: "p = (ns, name, uid)" by (cases p)
  have name: "name \<noteq> []" using request_plan_Inr(3) Inr p by simp
  obtain g w1 where g: "run_state (GetNumaNetwork (Handler_Client h) (ns, name)) w = (g, w1)"
    by (cases "run_state (GetNumaNetwork (Handler_Client h) (ns, name)) w")
  show ?thesis
  proof (cases g)
    case (Inl err)
    with assms g Inr p show ?thesis
      by (auto simp: getProfileConfig_plan with_conf_def IsNotFound_def split: if_splits)
  next
    case (Inr nn)
    with assms g \<open>request_plan r = Inr p\<close> p name show ?thesis
      by (fastforce simp: getProfileConfig_plan with_conf_def allocate_def run_call BuildConfFromNuma_def Let_def
          split: if_splits prod.splits sum.splits)
  qed
qed

lemma with_conf_cases:
  "(\<exists>resp w1. (\<exists>code e. resp = HttpError code e) \<and> (\<forall>act. run_state (with_conf h r act) w = (resp, w1))) \<or>
   (\<exists>nn conf uid w1. \<forall>act. run_state (with_conf h r act) w = run_state (act nn conf uid) w1)"
proof (cases "request_plan r")
  case (Inl resp)
  then have "\<exists>code e. resp = HttpError code e"
    by (auto simp: request_plan_def split: if_splits option.splits sum.splits)
  with Inl show ?thesis by (simp add: with_conf_def)
next
  case (Inr p)
  obtain ns name uid where p: "p = (ns, name, uid)" by (cases p)
  obtain g w1 where g: "run_state (GetNumaNetwork (Handler_Client h) (ns, name)) w = (g, w1)"
    by (cases "run_state (GetNumaNetwork (Handler_Client h) (ns, name)) w")
  show ?thesis
  proof (cases g)
    case (Inl e)
    with \<open>request_plan r = Inr p\<close> p g show ?thesis by (simp add: with_conf_def)
  next
    case (Inr nn)
    show ?thesis
    proof (cases "BuildConfFromNuma name (IPRange (RefResourceClaimDranet (nn_Spec nn)))")
      case (Inl e)
      with Inr \<open>request_plan r = Inr p\<close> p g show ?thesis by (simp add: with_conf_def)
    next
      case (Inr conf)
      with \<open>g = Inr nn\<close> \<open>request_plan r = Inr p\<close> p g show ?thesis
        by (intro disjI2 exI [of _ nn] exI [of _ conf] exI [of _ uid] exI [of _ w1]) (simp add: with_conf_def)
    qed
  qed
qed

text \<open>C23: for the same request in the same world, \<open>releaseProfileConfig\<close> gives the whereabouts DEL
  exactly the configuration and the claim UID that \<open>getProfileConfig\<close> gives the ADD (or both answer
  the same error before that): what was allocated is what is released.\<close>

theorem release_matches_allocation:
  "(\<exists>resp w1. run_state (getProfileConfig h r) w = (resp, w1) \<and> run_state (releaseProfileConfig h r) w = (resp, w1) \<and>
       (\<exists>code e. resp = HttpError code e)) \<or>
   (\<exists>nn conf uid w1.
      run_state (getProfileConfig h r) w = run_state (allocate h nn conf uid) w1 \<and>
      run_state (releaseProfileConfig h r) w = run_state (release h nn conf uid) w1)"
  using with_conf_cases [of h r w] unfolding getProfileConfig_plan releaseProfileConfig_plan by blast

section \<open>Malformed claim UIDs\<close>

context cni_executor
begin

lemma handlers_refuse:
  assumes "Handler_Executor h = \<lparr>Executor_Add = ex_Add, Executor_Del = ex_Del\<rparr>"
    and "request_plan r = Inr (ns, name, uid)" and "\<not> validClaimUID uid"
  shows "snd (run_state (getProfileConfig h r) w) = snd (run_state (GetNumaNetwork (Handler_Client h) (ns, name)) w)"
    and "snd (run_state (releaseProfileConfig h r) w) = snd (run_state (GetNumaNetwork (Handler_Client h) (ns, name)) w)"
proof -
  have a: "\<exists>e. run_state (ex_Add conf uid) w = (Inl e, w)" "\<exists>e. run_state (ex_Del conf uid) w = (Inl e, w)" for conf w
    using assms(3) by (simp_all add: add_refuses del_refuses)
  have "snd (run_state (allocate h nn conf uid) w) = w" "snd (run_state (release h nn conf uid) w) = w" for nn conf w
    using a(1) [of conf w] a(2) [of conf w] assms(1) by (auto simp: allocate_def release_def)
  then show "snd (run_state (getProfileConfig h r) w) = snd (run_state (GetNumaNetwork (Handler_Client h) (ns, name)) w)"
    "snd (run_state (releaseProfileConfig h r) w) = snd (run_state (GetNumaNetwork (Handler_Client h) (ns, name)) w)"
    by (simp_all add: getProfileConfig_plan releaseProfileConfig_plan with_conf_def assms(2) run_call
        split: prod.split sum.split)
qed

end

text \<open>with the whereabouts executor, a request whose claim UID is malformed never runs the
  binary, for allocation or release: the only effect is the read of the NumaNetwork.\<close>

theorem malformed_uid_never_runs_binary:
  assumes "Handler_Executor h = whereabouts_executor bin x"
    and "request_plan r = Inr (ns, name, uid)" and "\<not> validClaimUID uid"
  shows "snd (run_state (getProfileConfig h r) w) = snd (run_state (GetNumaNetwork (Handler_Client h) (ns, name)) w) \<and>
     snd (run_state (releaseProfileConfig h r) w) = snd (run_state (GetNumaNetwork (Handler_Client h) (ns, name)) w)"
  using wexec.handlers_refuse [of h bin x r ns name uid w] assms by (simp add: whereabouts_executor_def)

section \<open>Examples\<close>

definition example_request :: "string \<Rightarrow> string \<Rightarrow> HttpRequest" where
  "example_request profile uid =
     \<lparr>Method = ''POST'', Body = Marshal (profileRequest_json
        \<lparr>Device = zero_device, ClaimUID = uid,
         Config = Some \<lparr>Profile = profile, Interface = \<lparr>Addresses = []\<rparr>\<rparr>\<rparr>)\<rparr>"

definition example_handler :: "nat Handler" where
  "example_handler =
     \<lparr>Handler_Client = stub_client\<lparr>GetNumaNetwork :=
        (\<lambda>(ns, name). ok (mk_network ns name ''vf'' ''10.0.0.0/24''))\<rparr>,
      Handler_Executor = \<lparr>Executor_Add = (\<lambda>conf uid. State (\<lambda>w. (Inr (v4 10 0 0 1), Suc w))),
        Executor_Del = (\<lambda>conf uid. ok ())\<rparr>\<rparr>"

lemma example_plan: "request_plan (example_request ''ns/a'' ''u1'') = Inr (''ns'', ''a'', ''u1'')"
  by code_simp

lemma example_plan_bad: "request_plan (example_request ''ns/a'' ''u;1'') = Inr (''ns'', ''a'', ''u;1'')"
  by code_simp

theorem getProfileConfig_allocates_witness:
  "\<exists>body. run_state (getProfileConfig example_handler (example_request ''ns/a'' ''u1'')) 0 = (HttpJSON body, 1) \<and>
     Decode dec_networkConfig body zero_config =
       Some \<lparr>Profile = [], Interface = \<lparr>Addresses = [''10.0.0.1/24'']\<rparr>\<rparr>"
proof -
  have a: "IP_String (v4 10 0 0 1) = ''10.0.0.1''"
    by (simp add: IP_String_v4 v4_String_def utoa.simps digit_chars)
  have b: "extractPrefix ''10.0.0.0/24'' = ''24''" by code_simp
  have c: "\<exists>conf. BuildConfFromNuma ''a'' ''10.0.0.0/24'' = Inr conf"
    by (simp add: BuildConfFromNuma_def Let_def)
  then obtain conf where "BuildConfFromNuma ''a'' ''10.0.0.0/24'' = Inr conf" ..
  from getProfileConfig_allocates [OF example_plan _ _ _ this, where h = example_handler and w = 0 and ?w1.0 = 0 and
      nn = "mk_network ''ns'' ''a'' ''vf'' ''10.0.0.0/24''" and ip = "v4 10 0 0 1" and ?w2.0 = 1]
  show ?thesis by (simp add: example_handler_def mk_network_def a b)
qed

theorem getProfileConfig_errors_witness:
  "run_state (getProfileConfig example_handler \<lparr>Method = ''GET'', Body = []\<rparr>) 7 = (HttpError 405 MethodNotAllowed, 7)"
proof -
  have "run_state (getProfileConfig example_handler \<lparr>Method = ''GET'', Body = []\<rparr>) 7 = (HttpError 405 MethodNotAllowed, 7)"
    by (simp add: getProfileConfig_def)
  with getProfileConfig_errors [OF this] show ?thesis by simp
qed

theorem malformed_uid_never_runs_binary_witness:
  "snd (run_state (getProfileConfig
      \<lparr>Handler_Client = Handler_Client example_handler,
       Handler_Executor = whereabouts_executor (\<lambda>p env c. State (\<lambda>w. (Inr c, Suc w))) \<lparr>BinPath = ''/b'', CNIPath = ''/''\<rparr>\<rparr>
      (example_request ''ns/a'' ''u;1'')) 0) = 0"
proof -
  have v: "\<not> validClaimUID ''u;1''" by code_simp
  show ?thesis
    using malformed_uid_never_runs_binary [OF _ example_plan_bad v, where w = 0 and
        h = "\<lparr>Handler_Client = Handler_Client example_handler,
       Handler_Executor = whereabouts_executor (\<lambda>p env c. State (\<lambda>w. (Inr c, Suc w))) \<lparr>BinPath = ''/b'', CNIPath = ''/''\<rparr>\<rparr>"]
    by (simp add: example_handler_def)
qed

text \<open>when the allocated address is IPv4 and the network's \<open>ipRange\<close> passes the CRD pattern,
  the address string sent to dranet is a CIDR that Go parses back to the allocated address.\<close>

theorem response_address_is_cidr:
  assumes "ipRange_valid r"
  shows "ParseCIDR (IP_String (v4 a b c d) @ ''/'' @ extractPrefix r) = Some (v4 a b c d)"
proof -
  from prefix_of_valid_range [OF assms] obtain n where "n \<le> 32" "extractPrefix r = utoa n" by blast
  then show ?thesis using ParseCIDR_v4_String [of n a b c d] by (simp add: IP_String_v4)
qed

theorem response_address_is_cidr_witness:
  "ParseCIDR (IP_String (v4 10 0 0 1) @ ''/'' @ extractPrefix ''10.0.0.0/24'') = Some (v4 10 0 0 1)"
  by (rule response_address_is_cidr) code_simp

end
