(* ===== verification/Dns.thy ===== *)
theory Dns
  imports GoStrings GoJson "HOL-Library.Sublist" "HOL-Library.AList"
begin

text \<open>
  \<open>internal/dns\<close>: the interface \<open>Store\<close> and its etcd implementation.

  The etcd client is a parameter, the record \<open>EtcdClient\<close>.  \<open>etcd_ok\<close> states what its
  documentation promises: a put or delete that succeeds has taken effect, one that fails (a
  timeout, say) may or may not have, and a prefix read returns each matching key once and changes
  nothing.  The locale \<open>dns_store\<close> is the contract of \<open>Store\<close>: a finite map from (FQDN, pod) to an
  address.  \<open>EtcdStore\<close> is shown to implement it over every client that satisfies \<open>etcd_ok\<close>, for
  the FQDNs of vertices, whose keys never overlap.
\<close>

section \<open>Keys and records\<close>

datatype DnsError =
    FqdnEmpty
  | FqdnTooFewLabels string
  | CreateEtcdClient string
  | PutEtcdKey string string
  | DeleteEtcdKey string string
  | GetEtcdPrefix string string
  | UnmarshalRecord string

definition skyDNSPrefix :: string where
  "skyDNSPrefix = ''/skydns''"

text \<open>\<open>reversed[len(parts)-1-i] = p\<close>: the loop fills the fresh slice from its end.\<close>

primrec reverse_loop :: "nat \<Rightarrow> string list \<Rightarrow> nat \<Rightarrow> string list \<Rightarrow> string list" where
  "reverse_loop n [] i reversed = reversed"
| "reverse_loop n (p # ps) i reversed = reverse_loop n ps (i + 1) (reversed[n - 1 - i := p])"

definition FQDNToEtcdKey :: "string \<Rightarrow> DnsError + string" where
  "FQDNToEtcdKey fqdn =
     (if fqdn = [] then Inl FqdnEmpty
      else
        (let parts = Split CHR ''.'' fqdn
         in if length parts < 2 then Inl (FqdnTooFewLabels fqdn)
            else
              (let reversed = reverse_loop (length parts) parts 0 (replicate (length parts) [])
               in Inr (skyDNSPrefix @ ''/'' @ Join reversed ''/''))))"

record skyDNSRecord =
  Host :: string

definition skyDNSRecord_json :: "skyDNSRecord \<Rightarrow> json" where
  "skyDNSRecord_json r = JObj [(''host'', JStr (Host r))]"

definition dec_skyDNSRecord :: "skyDNSRecord dec" where
  "dec_skyDNSRecord = dec_struct [(''host'', dec_field Host Host_update dec_string)]"

section \<open>The store\<close>

record 'w EtcdClient =
  etcd_Put :: "string \<Rightarrow> string \<Rightarrow> ('w, string, unit) io"
  etcd_Delete :: "string \<Rightarrow> ('w, string, unit) io"
  etcd_GetPrefix :: "string \<Rightarrow> ('w, string, (string \<times> string) list) io"
  etcd_Close :: "('w, string, unit) io"

record 'w EtcdStore =
  client :: "'w EtcdClient"

record etcdStoreConfig =
  dialTimeout :: int

type_synonym Option = "etcdStoreConfig \<Rightarrow> etcdStoreConfig"

text \<open>Durations are in nanoseconds, as in Go.\<close>

definition defaultDialTimeout :: int where
  "defaultDialTimeout = 5 * 1000000000"

definition WithDialTimeout :: "int \<Rightarrow> Option" where
  "WithDialTimeout d = (\<lambda>c. c\<lparr>dialTimeout := d\<rparr>)"

definition NewEtcdStore ::
  "(string list \<Rightarrow> int \<Rightarrow> ('w, string, 'w EtcdClient) io) \<Rightarrow> string list \<Rightarrow> Option list \<Rightarrow>
     ('w, DnsError, 'w EtcdStore) io" where
  "NewEtcdStore clientv3_New endpoints opts =
     (let cfg = foldl (\<lambda>c o'. o' c) \<lparr>dialTimeout = defaultDialTimeout\<rparr> opts
      in call (clientv3_New endpoints (dialTimeout cfg))
           (\<lambda>err. fail (CreateEtcdClient err))
           (\<lambda>c. ok \<lparr>client = c\<rparr>))"

definition NewEtcdStoreFromClient :: "'w EtcdClient \<Rightarrow> 'w EtcdStore" where
  "NewEtcdStoreFromClient c = \<lparr>client = c\<rparr>"

definition Put :: "'w EtcdStore \<Rightarrow> string \<Rightarrow> string \<Rightarrow> string \<Rightarrow> ('w, DnsError, unit) io" where
  "Put s fqdn podID ip =
     (case FQDNToEtcdKey fqdn of
        Inl err \<Rightarrow> fail err
      | Inr base \<Rightarrow>
          (let key = base @ ''/'' @ podID;
               val = Marshal (skyDNSRecord_json \<lparr>Host = ip\<rparr>)
           in call (etcd_Put (client s) key val) (\<lambda>err. fail (PutEtcdKey key err)) (\<lambda>_. ok ())))"

definition Delete :: "'w EtcdStore \<Rightarrow> string \<Rightarrow> string \<Rightarrow> ('w, DnsError, unit) io" where
  "Delete s fqdn podID =
     (case FQDNToEtcdKey fqdn of
        Inl err \<Rightarrow> fail err
      | Inr base \<Rightarrow>
          (let key = base @ ''/'' @ podID
           in call (etcd_Delete (client s) key) (\<lambda>err. fail (DeleteEtcdKey key err)) (\<lambda>_. ok ())))"

fun decode_kvs :: "(string \<times> string) list \<Rightarrow> DnsError + string list" where
  "decode_kvs [] = Inr []"
| "decode_kvs ((k, v) # kvs) =
     (case Unmarshal dec_skyDNSRecord v \<lparr>Host = []\<rparr> of
        None \<Rightarrow> Inl (UnmarshalRecord k)
      | Some rec \<Rightarrow> (case decode_kvs kvs of Inl e \<Rightarrow> Inl e | Inr ips \<Rightarrow> Inr (Host rec # ips)))"

definition Get :: "'w EtcdStore \<Rightarrow> string \<Rightarrow> ('w, DnsError, string list) io" where
  "Get s fqdn =
     (case FQDNToEtcdKey fqdn of
        Inl err \<Rightarrow> fail err
      | Inr base \<Rightarrow>
          (let pre = base @ ''/''
           in call (etcd_GetPrefix (client s) pre) (\<lambda>err. fail (GetEtcdPrefix pre err))
                (\<lambda>kvs. case decode_kvs kvs of Inl e \<Rightarrow> fail e | Inr ips \<Rightarrow> ok ips)))"

definition Close :: "'w EtcdStore \<Rightarrow> ('w, string, unit) io" where
  "Close s = etcd_Close (client s)"

section \<open>Keys\<close>

lemma reverse_loop_eq:
  "length reversed = i + length ps \<Longrightarrow>
   reverse_loop (length reversed) ps i reversed = rev ps @ drop (length ps) reversed"
proof (induction ps arbitrary: i reversed)
  case (Cons p ps)
  let ?r = "reversed[length reversed - 1 - i := p]"
  have n: "length reversed - 1 - i = length ps" using Cons.prems by simp
  have "reverse_loop (length ?r) ps (i + 1) ?r = rev ps @ drop (length ps) ?r"
    using Cons.prems by (intro Cons.IH) simp
  moreover have "drop (length ps) ?r = p # drop (Suc (length ps)) reversed"
    using Cons.prems by (simp add: n drop_update_swap Cons_nth_drop_Suc [symmetric])
  ultimately show ?case by simp
qed simp

lemma reverse_loop_rev: "reverse_loop (length ps) ps 0 (replicate (length ps) []) = rev ps"
  using reverse_loop_eq [of "replicate (length ps) []" 0 ps] by simp

lemma FQDNToEtcdKey_eq:
  "FQDNToEtcdKey fqdn =
     (if fqdn = [] then Inl FqdnEmpty
      else if CHR ''.'' \<notin> set fqdn then Inl (FqdnTooFewLabels fqdn)
      else Inr (''/skydns/'' @ Join (rev (Split CHR ''.'' fqdn)) ''/''))"
  unfolding FQDNToEtcdKey_def Let_def reverse_loop_rev skyDNSPrefix_def
  by (auto simp: length_Split filter_empty_conv)

text \<open>The labels of an FQDN with no slash, in the order of the key.\<close>

definition dns_name :: "string \<Rightarrow> bool" where
  "dns_name fqdn \<longleftrightarrow> CHR ''.'' \<in> set fqdn \<and> CHR ''/'' \<notin> set fqdn"

definition pod_id :: "string \<Rightarrow> bool" where
  "pod_id p \<longleftrightarrow> CHR ''/'' \<notin> set p"

definition record_key :: "string \<Rightarrow> string \<Rightarrow> string" where
  "record_key fqdn p = ''/skydns/'' @ Join (rev (Split CHR ''.'' fqdn)) ''/'' @ ''/'' @ p"

lemma FQDNToEtcdKey_dns_name:
  "dns_name f \<Longrightarrow> FQDNToEtcdKey f = Inr (''/skydns/'' @ Join (rev (Split CHR ''.'' f)) ''/'')"
  by (auto simp: FQDNToEtcdKey_eq dns_name_def)

lemma FQDNToEtcdKey_key:
  "dns_name f \<Longrightarrow> \<exists>base. FQDNToEtcdKey f = Inr base \<and> (\<forall>p. base @ ''/'' @ p = record_key f p)"
  by (simp add: FQDNToEtcdKey_dns_name record_key_def)

lemma dns_name_labels: "dns_name f \<Longrightarrow> l \<in> set (Split CHR ''.'' f) \<Longrightarrow> CHR ''/'' \<notin> set l"
  using Join_parts [of l "Split CHR ''.'' f" "''.''"] by (auto simp: Join_Split dns_name_def)

lemma record_key_inj:
  assumes "dns_name f" "dns_name g" "pod_id p" "pod_id q" "record_key f p = record_key g q"
  shows "f = g \<and> p = q"
proof -
  let ?l = "\<lambda>f p. rev (Split CHR ''.'' f) @ [p]"
  have "Join (?l f p) ''/'' = Join (?l g q) ''/''"
    using assms(5) by (simp add: record_key_def Join_append)
  then have "?l f p = ?l g q"
    using assms(1-4) by (elim Join_inj) (auto simp: pod_id_def dest: dns_name_labels)
  then have "Split CHR ''.'' f = Split CHR ''.'' g" "p = q" by simp_all
  then show ?thesis using Split_inj by blast
qed

text \<open>A key of \<open>g\<close> lies under the prefix of \<open>f\<close> only when \<open>f\<close> is a parent domain of \<open>g\<close>; with
  as many labels it is the same name.\<close>

lemma prefix_isolation:
  assumes "dns_name f" "dns_name g" "pod_id q" "length (Split CHR ''.'' f) = length (Split CHR ''.'' g)"
    and "prefix (record_key f []) (record_key g q)"
  shows "f = g"
proof -
  let ?l = "\<lambda>f. rev (Split CHR ''.'' f)"
  from assms(5) obtain t where t: "record_key g q = record_key f [] @ t" by (auto simp: prefix_def)
  let ?ts = "Split CHR ''/'' t"
  have "Join (?l g @ [q]) ''/'' = Join (?l f @ ?ts) ''/''"
    using t by (simp add: record_key_def Join_append Join_Split)
  then have "?l g @ [q] = ?l f @ ?ts"
    using assms(1-3) by (elim Join_inj) (auto simp: pod_id_def dest: dns_name_labels Split_parts)
  then have "?l g = ?l f" using assms(4) by simp
  then show ?thesis using Split_inj by simp metis
qed

section \<open>The contract of a store\<close>

text \<open>The FQDN of a vertex has five labels, three names and the zone.\<close>

definition vertex_fqdn :: "string \<Rightarrow> bool" where
  "vertex_fqdn f \<longleftrightarrow> dns_name f \<and> length (Split CHR ''.'' f) = 5"

text \<open>\<open>store.go\<close>: the interface.\<close>

record 'w Store =
  Store_Put :: "string \<Rightarrow> string \<Rightarrow> string \<Rightarrow> ('w, DnsError, unit) io"
  Store_Delete :: "string \<Rightarrow> string \<Rightarrow> ('w, DnsError, unit) io"
  Store_Get :: "string \<Rightarrow> ('w, DnsError, string list) io"

definition etcd_as_store :: "'w EtcdStore \<Rightarrow> 'w Store" where
  "etcd_as_store s = \<lparr>Store_Put = Put s, Store_Delete = Delete s, Store_Get = Get s\<rparr>"

text \<open>
  The abstract state is a map from (FQDN, pod) to an address.  A failed write may have been
  applied or not; nothing else may have changed.  \<open>good\<close> is the representation invariant.
\<close>

type_synonym records = "string \<times> string \<rightharpoonup> string"

locale dns_store =
  fixes st :: "'w Store"
    and recs :: "'w \<Rightarrow> records"
    and good :: "'w \<Rightarrow> bool"
  assumes put_ok: "good w \<Longrightarrow> vertex_fqdn f \<Longrightarrow> pod_id p \<Longrightarrow> is_ascii ip \<Longrightarrow>
      run_state (Store_Put st f p ip) w = (Inr (), w') \<Longrightarrow> good w' \<and> recs w' = (recs w)((f, p) \<mapsto> ip)"
    and put_err: "good w \<Longrightarrow> vertex_fqdn f \<Longrightarrow> pod_id p \<Longrightarrow> is_ascii ip \<Longrightarrow>
      run_state (Store_Put st f p ip) w = (Inl e, w') \<Longrightarrow>
      good w' \<and> (recs w' = recs w \<or> recs w' = (recs w)((f, p) \<mapsto> ip))"
    and delete_ok: "good w \<Longrightarrow> vertex_fqdn f \<Longrightarrow> pod_id p \<Longrightarrow>
      run_state (Store_Delete st f p) w = (Inr (), w') \<Longrightarrow> good w' \<and> recs w' = (recs w)((f, p) := None)"
    and delete_err: "good w \<Longrightarrow> vertex_fqdn f \<Longrightarrow> pod_id p \<Longrightarrow>
      run_state (Store_Delete st f p) w = (Inl e, w') \<Longrightarrow>
      good w' \<and> (recs w' = recs w \<or> recs w' = (recs w)((f, p) := None))"
    and get_ok: "good w \<Longrightarrow> vertex_fqdn f \<Longrightarrow> run_state (Store_Get st f) w = (Inr ips, w') \<Longrightarrow>
      good w' \<and> recs w' = recs w \<and>
      (\<exists>ps. distinct ps \<and> set ps = {p. recs w (f, p) \<noteq> None} \<and> map Some ips = map (\<lambda>p. recs w (f, p)) ps)"
    and get_err: "good w \<Longrightarrow> vertex_fqdn f \<Longrightarrow> run_state (Store_Get st f) w = (Inl e, w') \<Longrightarrow>
      good w' \<and> recs w' = recs w"
begin

lemma get_set:
  assumes "good w" "vertex_fqdn f" "run_state (Store_Get st f) w = (Inr ips, w')"
  shows "ip \<in> set ips \<longleftrightarrow> (\<exists>p. recs w (f, p) = Some ip)"
proof -
  obtain ps where ps: "set ps = {p. recs w (f, p) \<noteq> None}" "map Some ips = map (\<lambda>p. recs w (f, p)) ps"
    using get_ok [OF assms] by blast
  have "ip \<in> set ips \<longleftrightarrow> Some ip \<in> set (map Some ips)" by auto
  also have "\<dots> \<longleftrightarrow> (\<exists>p. recs w (f, p) = Some ip)" unfolding ps(2) using ps(1) by force
  finally show ?thesis .
qed

lemma get_after_put:
  assumes "good w" "vertex_fqdn f" "pod_id p" "is_ascii ip"
    and "run_state (Store_Put st f p ip) w = (Inr (), w')"
    and "run_state (Store_Get st f) w' = (Inr ips, w'')"
  shows "ip \<in> set ips"
  using put_ok [OF assms(1-5)] get_set [OF _ assms(2,6)] by auto

lemma get_after_delete:
  assumes "good w" "vertex_fqdn f" "pod_id p"
    and "run_state (Store_Delete st f p) w = (Inr (), w')"
    and "run_state (Store_Get st f) w' = (Inr ips, w'')"
  shows "ip \<in> set ips \<longleftrightarrow> (\<exists>q. q \<noteq> p \<and> recs w (f, q) = Some ip)"
  using delete_ok [OF assms(1-4)] get_set [OF _ assms(2,5)] by auto

lemma put_other_fqdn:
  assumes "good w" "vertex_fqdn f" "pod_id p" "is_ascii ip" "g \<noteq> f"
    and "run_state (Store_Put st f p ip) w = (r, w')"
  shows "recs w' (g, q) = recs w (g, q)"
proof (cases r)
  case (Inl e)
  then show ?thesis using put_err [OF assms(1-4)] assms(5,6) by fastforce
next
  case (Inr u)
  then show ?thesis using put_ok [OF assms(1-4)] assms(5,6) by simp
qed

end

section \<open>etcd\<close>

definition etcd_ok :: "'w EtcdClient \<Rightarrow> ('w \<Rightarrow> string \<rightharpoonup> string) \<Rightarrow> bool" where
  "etcd_ok c kv \<longleftrightarrow>
     (\<forall>k v w r w'. run_state (etcd_Put c k v) w = (r, w') \<longrightarrow>
        kv w' = (kv w)(k \<mapsto> v) \<or> (\<exists>e. r = Inl e) \<and> kv w' = kv w) \<and>
     (\<forall>k w r w'. run_state (etcd_Delete c k) w = (r, w') \<longrightarrow>
        kv w' = (kv w)(k := None) \<or> (\<exists>e. r = Inl e) \<and> kv w' = kv w) \<and>
     (\<forall>k w r w'. run_state (etcd_GetPrefix c k) w = (r, w') \<longrightarrow> kv w' = kv w \<and>
        (\<forall>kvs. r = Inr kvs \<longrightarrow> distinct (map fst kvs) \<and> set kvs = {(k', v). kv w k' = Some v \<and> prefix k k'}))"

text \<open>The abstraction: the record of (FQDN, pod) is the host of the JSON under its key.  The
  invariant: every key under \<open>/skydns/\<close> belongs to a vertex and holds a record.\<close>

definition host_of :: "string \<Rightarrow> string option" where
  "host_of v = map_option Host (Unmarshal dec_skyDNSRecord v \<lparr>Host = []\<rparr>)"

definition etcd_records :: "('w \<Rightarrow> string \<rightharpoonup> string) \<Rightarrow> 'w \<Rightarrow> records" where
  "etcd_records kv w = (\<lambda>(f, p). if vertex_fqdn f \<and> pod_id p
     then Option.bind (kv w (record_key f p)) host_of else None)"

definition etcd_good :: "('w \<Rightarrow> string \<rightharpoonup> string) \<Rightarrow> 'w \<Rightarrow> bool" where
  "etcd_good kv w \<longleftrightarrow> (\<forall>k v. kv w k = Some v \<longrightarrow> prefix ''/skydns/'' k \<longrightarrow>
     (\<exists>f p. vertex_fqdn f \<and> pod_id p \<and> k = record_key f p) \<and> host_of v \<noteq> None)"

lemma host_of_Marshal:
  assumes "is_ascii ip"
  shows "host_of (Marshal (skyDNSRecord_json \<lparr>Host = ip\<rparr>)) = Some ip"
proof -
  have v: "skyDNSRecord_json \<lparr>Host = ip\<rparr> = JObj [(''host'', JStr ip)]"
    by (simp add: skyDNSRecord_json_def)
  have "Unmarshal dec_skyDNSRecord (Marshal (JObj [(''host'', JStr ip)])) \<lparr>Host = []\<rparr> =
      dec_skyDNSRecord (JObj [(''host'', JStr ip)]) \<lparr>Host = []\<rparr>"
    using Unmarshal_Marshal [of "JObj [(''host'', JStr ip)]" dec_skyDNSRecord]
    by (simp add: assms to_utf8_ascii maxNestingDepth_def)
  then show ?thesis
    by (simp add: v host_of_def dec_skyDNSRecord_def dec_field_def del: fold_name.simps)
qed

lemma record_key_prefix: "prefix ''/skydns/'' (record_key f p)"
  by (simp add: record_key_def)

lemma vertex_fqdn_dns_name: "vertex_fqdn f \<Longrightarrow> dns_name f"
  by (simp add: vertex_fqdn_def)

lemma record_key_iff:
  "vertex_fqdn f \<Longrightarrow> vertex_fqdn g \<Longrightarrow> pod_id p \<Longrightarrow> pod_id q \<Longrightarrow>
     record_key f p = record_key g q \<longleftrightarrow> f = g \<and> p = q"
  using record_key_inj vertex_fqdn_dns_name by blast

lemma etcd_records_put:
  assumes "kv w' = (kv w)(record_key f p \<mapsto> v)" "vertex_fqdn f" "pod_id p" "host_of v = Some ip"
  shows "etcd_records kv w' = (etcd_records kv w)((f, p) \<mapsto> ip)"
  using assms by (auto simp: etcd_records_def record_key_iff intro!: ext)

lemma etcd_records_delete:
  assumes "kv w' = (kv w)(record_key f p := None)" "vertex_fqdn f" "pod_id p"
  shows "etcd_records kv w' = (etcd_records kv w)((f, p) := None)"
  using assms by (auto simp: etcd_records_def record_key_iff intro!: ext)

lemma etcd_good_put:
  "kv w' = (kv w)(record_key f p \<mapsto> v) \<Longrightarrow> vertex_fqdn f \<Longrightarrow> pod_id p \<Longrightarrow> host_of v \<noteq> None \<Longrightarrow>
    etcd_good kv w \<Longrightarrow> etcd_good kv w'"
  by (auto simp: etcd_good_def)

lemma etcd_good_delete: "kv w' = (kv w)(k := None) \<Longrightarrow> etcd_good kv w \<Longrightarrow> etcd_good kv w'"
  by (auto simp: etcd_good_def)

lemma etcd_same: "kv w' = kv w \<Longrightarrow> etcd_records kv w' = etcd_records kv w \<and> etcd_good kv w' = etcd_good kv w"
  by (auto simp: etcd_records_def etcd_good_def intro!: ext)


lemma decode_kvs_Inr: "decode_kvs kvs = Inr ips \<Longrightarrow> map Some ips = map (host_of \<circ> snd) kvs"
  by (induction kvs arbitrary: ips) (auto simp: host_of_def split: option.splits sum.splits)

lemma decode_kvs_total: "(\<And>k v. (k, v) \<in> set kvs \<Longrightarrow> host_of v \<noteq> None) \<Longrightarrow> \<exists>ips. decode_kvs kvs = Inr ips"
  by (induction kvs) (force simp: host_of_def split: option.splits sum.splits)+

text \<open>The keys under the prefix of a vertex are the keys of its records.\<close>

lemma keys_under_prefix:
  assumes "etcd_good kv w" "vertex_fqdn f" "kv w k = Some v" "prefix (record_key f []) k"
  shows "\<exists>p. pod_id p \<and> k = record_key f p \<and> etcd_records kv w (f, p) = host_of v \<and> host_of v \<noteq> None"
proof -
  have "prefix ''/skydns/'' k" using record_key_prefix assms(4) prefix_order.trans by blast
  with assms(1,3) obtain g p where g: "vertex_fqdn g" "pod_id p" "k = record_key g p" and h: "host_of v \<noteq> None"
    unfolding etcd_good_def by blast
  have "f = g" using prefix_isolation [of f g p] assms(2,4) g by (simp add: vertex_fqdn_def)
  with g h assms(3) show ?thesis by (auto simp: etcd_records_def)
qed

lemma kvs_pods:
  assumes "etcd_good kv w" "vertex_fqdn f" "distinct (map fst kvs)"
    and "set kvs = {(k, v). kv w k = Some v \<and> prefix (record_key f []) k}"
  shows "\<exists>ps. distinct ps \<and> set ps = {p. etcd_records kv w (f, p) \<noteq> None} \<and>
    map (host_of \<circ> snd) kvs = map (\<lambda>p. etcd_records kv w (f, p)) ps"
proof -
  have "\<forall>x \<in> set kvs. \<exists>p. pod_id p \<and> fst x = record_key f p \<and> etcd_records kv w (f, p) = host_of (snd x) \<and>
      host_of (snd x) \<noteq> None"
    using keys_under_prefix [OF assms(1,2)] assms(4) by fastforce
  then obtain pod where pod: "\<And>x. x \<in> set kvs \<Longrightarrow> pod_id (pod x) \<and> fst x = record_key f (pod x) \<and>
      etcd_records kv w (f, pod x) = host_of (snd x) \<and> host_of (snd x) \<noteq> None"
    by metis
  define ps where "ps = map pod kvs"
  have "map fst kvs = map (record_key f) ps" unfolding ps_def using pod by simp
  then have "distinct ps" using assms(3) by (metis distinct_map)
  moreover have "p \<in> set ps" if "etcd_records kv w (f, p) \<noteq> None" for p
  proof -
    from that obtain v where v: "pod_id p" "kv w (record_key f p) = Some v"
      by (auto simp: etcd_records_def bind_eq_Some_conv split: if_splits)
    have "(record_key f p, v) \<in> set kvs" using v assms(4) by (simp add: record_key_def)
    then show ?thesis using pod [of "(record_key f p, v)"] v(1) assms(2) by (force simp: ps_def record_key_iff)
  qed
  ultimately show ?thesis using pod by (intro exI [of _ ps]) (auto simp: ps_def)
qed

text \<open>The store over a client that keeps its promises satisfies the contract.\<close>

lemma Put_runs:
  "vertex_fqdn f \<Longrightarrow> run_state (Put s f p ip) w =
     (case run_state (etcd_Put (client s) (record_key f p) (Marshal (skyDNSRecord_json \<lparr>Host = ip\<rparr>))) w of
        (Inl e, w') \<Rightarrow> (Inl (PutEtcdKey (record_key f p) e), w') | (Inr _, w') \<Rightarrow> (Inr (), w'))"
  by (simp add: Put_def FQDNToEtcdKey_dns_name vertex_fqdn_dns_name run_call Let_def record_key_def
      split: prod.split sum.split)

lemma Delete_runs:
  "vertex_fqdn f \<Longrightarrow> run_state (Delete s f p) w =
     (case run_state (etcd_Delete (client s) (record_key f p)) w of
        (Inl e, w') \<Rightarrow> (Inl (DeleteEtcdKey (record_key f p) e), w') | (Inr _, w') \<Rightarrow> (Inr (), w'))"
  by (simp add: Delete_def FQDNToEtcdKey_dns_name vertex_fqdn_dns_name run_call Let_def record_key_def
      split: prod.split sum.split)

lemma Get_runs:
  "vertex_fqdn f \<Longrightarrow> run_state (Get s f) w =
     (case run_state (etcd_GetPrefix (client s) (record_key f [])) w of
        (Inl e, w') \<Rightarrow> (Inl (GetEtcdPrefix (record_key f []) e), w') | (Inr kvs, w') \<Rightarrow> (decode_kvs kvs, w'))"
  by (simp add: Get_def FQDNToEtcdKey_dns_name vertex_fqdn_dns_name run_call Let_def record_key_def
      split: prod.split sum.split)

lemma etcd_ok_put:
  assumes "etcd_ok c kv" "run_state (etcd_Put c k v) w = (r, w')"
  shows "kv w' = (kv w)(k \<mapsto> v) \<or> (\<exists>e. r = Inl e) \<and> kv w' = kv w"
  using assms unfolding etcd_ok_def by blast

lemma etcd_ok_delete:
  assumes "etcd_ok c kv" "run_state (etcd_Delete c k) w = (r, w')"
  shows "kv w' = (kv w)(k := None) \<or> (\<exists>e. r = Inl e) \<and> kv w' = kv w"
  using assms unfolding etcd_ok_def by blast

lemma etcd_ok_get:
  assumes "etcd_ok c kv" "run_state (etcd_GetPrefix c k) w = (r, w')"
  shows "kv w' = kv w"
    and "r = Inr kvs \<Longrightarrow> distinct (map fst kvs) \<and> set kvs = {(k', v). kv w k' = Some v \<and> prefix k k'}"
  using assms unfolding etcd_ok_def by blast+

lemma Put_effect:
  assumes "etcd_ok (client s) kv" "etcd_good kv w" "vertex_fqdn f" "pod_id p" "is_ascii ip"
    and "run_state (Put s f p ip) w = (r, w')"
  shows "etcd_good kv w'" 
    and "etcd_records kv w' = (etcd_records kv w)((f, p) \<mapsto> ip) \<or>
      (\<exists>e. r = Inl e) \<and> etcd_records kv w' = etcd_records kv w"
proof -
  let ?v = "Marshal (skyDNSRecord_json \<lparr>Host = ip\<rparr>)"
  obtain r' where r': "run_state (etcd_Put (client s) (record_key f p) ?v) w = (r', w')"
    and e: "(\<exists>e. r' = Inl e) \<longleftrightarrow> (\<exists>e. r = Inl e)"
    using assms(3,6) by (auto simp: Put_runs split: prod.splits sum.splits)
  have h: "host_of ?v = Some ip" by (rule host_of_Marshal) fact
  from etcd_ok_put [OF assms(1) r'] show "etcd_good kv w'"
    using assms(2-4) h etcd_good_put [of kv w' w f p ?v] etcd_same [of kv w' w] by auto
  from etcd_ok_put [OF assms(1) r'] show "etcd_records kv w' = (etcd_records kv w)((f, p) \<mapsto> ip) \<or>
      (\<exists>e. r = Inl e) \<and> etcd_records kv w' = etcd_records kv w"
    using assms(3,4) h e etcd_records_put [of kv w' w f p ?v] etcd_same [of kv w' w] by auto
qed

lemma Delete_effect:
  assumes "etcd_ok (client s) kv" "etcd_good kv w" "vertex_fqdn f" "pod_id p"
    and "run_state (Delete s f p) w = (r, w')"
  shows "etcd_good kv w'" 
    and "etcd_records kv w' = (etcd_records kv w)((f, p) := None) \<or>
      (\<exists>e. r = Inl e) \<and> etcd_records kv w' = etcd_records kv w"
proof -
  obtain r' where r': "run_state (etcd_Delete (client s) (record_key f p)) w = (r', w')"
    and e: "(\<exists>e. r' = Inl e) \<longleftrightarrow> (\<exists>e. r = Inl e)"
    using assms(3,5) by (auto simp: Delete_runs split: prod.splits sum.splits)
  from etcd_ok_delete [OF assms(1) r'] show "etcd_good kv w'"
    using assms(2) etcd_good_delete [of kv w' w] etcd_same [of kv w' w] by auto
  from etcd_ok_delete [OF assms(1) r'] show "etcd_records kv w' = (etcd_records kv w)((f, p) := None) \<or>
      (\<exists>e. r = Inl e) \<and> etcd_records kv w' = etcd_records kv w"
    using assms(3,4) e etcd_records_delete [of kv w' w f p] etcd_same [of kv w' w] by auto
qed

lemma Get_effect:
  assumes "etcd_ok (client s) kv" "etcd_good kv w" "vertex_fqdn f" "run_state (Get s f) w = (r, w')"
  shows "etcd_good kv w' \<and> etcd_records kv w' = etcd_records kv w"
    and "r = Inr ips \<Longrightarrow> \<exists>ps. distinct ps \<and> set ps = {p. etcd_records kv w (f, p) \<noteq> None} \<and>
      map Some ips = map (\<lambda>p. etcd_records kv w (f, p)) ps"
proof -
  obtain r' where r': "run_state (etcd_GetPrefix (client s) (record_key f [])) w = (r', w')"
    and r: "r = (case r' of Inl e \<Rightarrow> Inl (GetEtcdPrefix (record_key f []) e) | Inr kvs \<Rightarrow> decode_kvs kvs)"
    using assms(3,4) by (auto simp: Get_runs split: prod.splits sum.splits)
  show "etcd_good kv w' \<and> etcd_records kv w' = etcd_records kv w"
    using etcd_ok_get(1) [OF assms(1) r'] etcd_same [of kv w' w] assms(2) by simp
  assume "r = Inr ips"
  then obtain kvs where k: "r' = Inr kvs" "decode_kvs kvs = Inr ips" using r by (cases r') auto
  show "\<exists>ps. distinct ps \<and> set ps = {p. etcd_records kv w (f, p) \<noteq> None} \<and>
      map Some ips = map (\<lambda>p. etcd_records kv w (f, p)) ps"
    using kvs_pods [OF assms(2,3), of kvs] etcd_ok_get(2) [OF assms(1) r' k(1)] decode_kvs_Inr [OF k(2)] by simp
qed

lemma dns_store_etcd:
  assumes "etcd_ok (client s) kv"
  shows "dns_store (etcd_as_store s) (etcd_records kv) (etcd_good kv)"
proof
  show "etcd_good kv w' \<and> etcd_records kv w' = (etcd_records kv w)((f, p) \<mapsto> ip)"
    if "etcd_good kv w" "vertex_fqdn f" "pod_id p" "is_ascii ip"
      "run_state (Store_Put (etcd_as_store s) f p ip) w = (Inr (), w')" for w f p ip w'
    using Put_effect [OF assms that(1-4)] that(5) by (auto simp: etcd_as_store_def)
  show "etcd_good kv w' \<and> (etcd_records kv w' = etcd_records kv w \<or> etcd_records kv w' = (etcd_records kv w)((f, p) \<mapsto> ip))"
    if "etcd_good kv w" "vertex_fqdn f" "pod_id p" "is_ascii ip"
      "run_state (Store_Put (etcd_as_store s) f p ip) w = (Inl e, w')" for w f p ip e w'
    using Put_effect [OF assms that(1-4)] that(5) by (auto simp: etcd_as_store_def)
  show "etcd_good kv w' \<and> etcd_records kv w' = (etcd_records kv w)((f, p) := None)"
    if "etcd_good kv w" "vertex_fqdn f" "pod_id p"
      "run_state (Store_Delete (etcd_as_store s) f p) w = (Inr (), w')" for w f p w'
    using Delete_effect [OF assms that(1-3)] that(4) by (auto simp: etcd_as_store_def)
  show "etcd_good kv w' \<and> (etcd_records kv w' = etcd_records kv w \<or> etcd_records kv w' = (etcd_records kv w)((f, p) := None))"
    if "etcd_good kv w" "vertex_fqdn f" "pod_id p"
      "run_state (Store_Delete (etcd_as_store s) f p) w = (Inl e, w')" for w f p e w'
    using Delete_effect [OF assms that(1-3)] that(4) by (auto simp: etcd_as_store_def)
qed (use Get_effect [OF assms] in \<open>auto simp: etcd_as_store_def\<close>)

section \<open>A reference etcd\<close>

text \<open>An in-memory store written after the etcd documentation: puts and deletes always succeed and
  a prefix read returns the matching pairs.\<close>

definition mem_etcd :: "((string \<times> string) list) EtcdClient" where
  "mem_etcd =
     \<lparr>etcd_Put = (\<lambda>k v. State (\<lambda>m. (Inr (), (k, v) # filter (\<lambda>x. fst x \<noteq> k) m))),
      etcd_Delete = (\<lambda>k. State (\<lambda>m. (Inr (), filter (\<lambda>x. fst x \<noteq> k) m))),
      etcd_GetPrefix = (\<lambda>k. State (\<lambda>m. (Inr (filter (\<lambda>x. prefix k (fst x)) (AList.clearjunk m)), m))),
      etcd_Close = ok ()\<rparr>"

lemma distinct_set_single:
  assumes "distinct xs" "set xs = {x}"
  shows "xs = [x]"
proof -
  have "length xs = 1" using distinct_card [OF assms(1)] assms(2) by simp
  then show ?thesis using assms(2) by (cases xs) auto
qed

lemma map_of_filter_neq: "map_of (filter (\<lambda>x. fst x \<noteq> k) m) = (map_of m)(k := None)"
  by (induction m) (auto simp: fun_eq_iff)

lemma mem_etcd_ok: "etcd_ok mem_etcd map_of"
proof -
  have "distinct (map fst (filter P (AList.clearjunk m)))" for P and m :: "(string \<times> string) list"
    using distinct_clearjunk [of m] by (rule distinct_map_filter)
  moreover have "set (filter (\<lambda>x. prefix k (fst x)) (AList.clearjunk m)) =
      {(k', v). map_of m k' = Some v \<and> prefix k k'}" for k and m :: "(string \<times> string) list"
    using map_of_eq_Some_iff [OF distinct_clearjunk [of m]] by (auto simp: map_of_clearjunk)
  ultimately show ?thesis
    unfolding etcd_ok_def mem_etcd_def by (simp del: set_filter add: map_of_filter_neq)
qed

interpretation mem: dns_store "etcd_as_store \<lparr>client = mem_etcd\<rparr>" "etcd_records map_of" "etcd_good map_of"
  by (rule dns_store_etcd) (simp add: mem_etcd_ok)

lemma mem_empty_good: "etcd_good map_of []"
  by (simp add: etcd_good_def)

lemma mem_empty_records: "etcd_records map_of [] = Map.empty"
  by (auto simp: etcd_records_def intro!: ext)

section \<open>Properties of the store\<close>

text \<open>the etcd key of a record determines the record: two slash-free FQDNs and pod names with the
  same key are the same FQDN and the same pod.\<close>

theorem etcd_key_injective:
  assumes "FQDNToEtcdKey f = Inr b" "FQDNToEtcdKey g = Inr c"
    and "CHR ''/'' \<notin> set f" "CHR ''/'' \<notin> set g" "CHR ''/'' \<notin> set p" "CHR ''/'' \<notin> set q"
    and "b @ ''/'' @ p = c @ ''/'' @ q"
  shows "f = g \<and> p = q"
proof (rule record_key_inj)
  show "dns_name f" "dns_name g"
    using assms(1-4) by (auto simp: dns_name_def FQDNToEtcdKey_eq split: if_splits)
  then show "record_key f p = record_key g q"
    using assms(1,2,7) by (simp add: FQDNToEtcdKey_dns_name record_key_def) fastforce
qed (use assms(5,6) in \<open>simp_all add: pod_id_def\<close>)

theorem etcd_key_injective_witness:
  "\<exists>b. FQDNToEtcdKey ''in.p1.ns.vertexdomain.local'' = Inr b \<and> b = ''/skydns/local/vertexdomain/ns/p1/in'' \<and>
     ''pod-0'' = ''pod-0''"
proof -
  have b: "FQDNToEtcdKey ''in.p1.ns.vertexdomain.local'' = Inr ''/skydns/local/vertexdomain/ns/p1/in''"
    by code_simp
  with etcd_key_injective [OF b b, of "''pod-0''" "''pod-0''"] show ?thesis by simp
qed

text \<open>a name that is empty or has a single label is refused by \<open>Put\<close>, \<open>Delete\<close> and \<open>Get\<close> with
  the corresponding error before etcd is contacted; every other name has a key, the labels in
  reverse order under \<open>/skydns\<close>.\<close>

theorem store_refuses_bad_fqdn:
  "case FQDNToEtcdKey f of
     Inl e \<Rightarrow> (e = FqdnEmpty \<and> f = [] \<or> e = FqdnTooFewLabels f \<and> f \<noteq> [] \<and> CHR ''.'' \<notin> set f) \<and>
       run_state (Put s f p ip) w = (Inl e, w) \<and> run_state (Delete s f p) w = (Inl e, w) \<and>
       run_state (Get s f) w = (Inl e, w)
   | Inr base \<Rightarrow> CHR ''.'' \<in> set f \<and> base = ''/skydns/'' @ Join (rev (Split CHR ''.'' f)) ''/''"
  unfolding Put_def Delete_def Get_def by (auto simp: FQDNToEtcdKey_eq)

text \<open>C6: \<open>Put\<close> implements the contract: when it succeeds the record of (FQDN, pod) is the address
  and no other record changes; when it fails, the record is either written or left alone.\<close>

theorem Put_refines:
  assumes "etcd_ok (client s) kv" "etcd_good kv w" "vertex_fqdn f" "pod_id p" "is_ascii ip"
    and "run_state (Put s f p ip) w = (r, w')"
  shows "etcd_good kv w' \<and>
     (etcd_records kv w' = (etcd_records kv w)((f, p) \<mapsto> ip) \<or>
      (\<exists>e. r = Inl e) \<and> etcd_records kv w' = etcd_records kv w)"
  using Put_effect [OF assms] by blast

lemma example_fqdn: "vertex_fqdn ''in.p1.ns.vertexdomain.local''" "pod_id ''p-0''" "is_ascii ''10.0.0.1''"
  by code_simp+

theorem Put_refines_witness:
  "\<exists>w'. etcd_good map_of w' \<and>
     etcd_records map_of w' = (etcd_records map_of [])((''in.p1.ns.vertexdomain.local'', ''p-0'') \<mapsto> ''10.0.0.1'')"
proof -
  let ?s = "\<lparr>client = mem_etcd\<rparr>"
  have ok: "etcd_ok (client ?s) map_of" by (simp add: mem_etcd_ok)
  obtain w' where "run_state (Put ?s ''in.p1.ns.vertexdomain.local'' ''p-0'' ''10.0.0.1'') [] = (Inr (), w')"
    by (simp add: Put_runs example_fqdn) (simp add: mem_etcd_def)
  from Put_refines [OF ok mem_empty_good example_fqdn this] show ?thesis by auto
qed

text \<open>C9: \<open>Delete\<close> implements the contract: when it succeeds the record of (FQDN, pod) is gone and no
  other record changes; when it fails, the record is either gone or left alone.\<close>

theorem Delete_refines:
  assumes "etcd_ok (client s) kv" "etcd_good kv w" "vertex_fqdn f" "pod_id p"
    and "run_state (Delete s f p) w = (r, w')"
  shows "etcd_good kv w' \<and>
     (etcd_records kv w' = (etcd_records kv w)((f, p) := None) \<or>
      (\<exists>e. r = Inl e) \<and> etcd_records kv w' = etcd_records kv w)"
  using Delete_effect [OF assms] by blast

theorem Delete_refines_witness:
  "\<exists>w w'. etcd_records map_of w (''in.p1.ns.vertexdomain.local'', ''p-0'') = Some ''10.0.0.1'' \<and>
     run_state (Delete \<lparr>client = mem_etcd\<rparr> ''in.p1.ns.vertexdomain.local'' ''p-0'') w = (Inr (), w') \<and>
     etcd_good map_of w' \<and> etcd_records map_of w' = (etcd_records map_of w)((''in.p1.ns.vertexdomain.local'', ''p-0'') := None)"
proof -
  let ?s = "\<lparr>client = mem_etcd\<rparr>"
  have ok: "etcd_ok (client ?s) map_of" by (simp add: mem_etcd_ok)
  obtain w where put: "run_state (Put ?s ''in.p1.ns.vertexdomain.local'' ''p-0'' ''10.0.0.1'') [] = (Inr (), w)"
    by (simp add: Put_runs example_fqdn) (simp add: mem_etcd_def)
  obtain w' where del: "run_state (Delete ?s ''in.p1.ns.vertexdomain.local'' ''p-0'') w = (Inr (), w')"
    by (simp add: Delete_runs example_fqdn) (simp add: mem_etcd_def)
  note stored = Put_effect [OF ok mem_empty_good example_fqdn put]
  from stored(2) have "etcd_records map_of w (''in.p1.ns.vertexdomain.local'', ''p-0'') = Some ''10.0.0.1''" by auto
  with del Delete_refines [OF ok stored(1) example_fqdn(1,2) del] show ?thesis by blast
qed

text \<open>Over a store that satisfies the invariant, a read fails only when etcd does.\<close>

lemma Get_Inl:
  assumes "etcd_ok (client s) kv" "etcd_good kv w" "vertex_fqdn f" "run_state (Get s f) w = (Inl e, w')"
  shows "\<exists>pre err. e = GetEtcdPrefix pre err \<and> run_state (etcd_GetPrefix (client s) pre) w = (Inl err, w')"
proof -
  obtain r' where r': "run_state (etcd_GetPrefix (client s) (record_key f [])) w = (r', w')"
    and r: "Inl e = (case r' of Inl e \<Rightarrow> Inl (GetEtcdPrefix (record_key f []) e) | Inr kvs \<Rightarrow> decode_kvs kvs)"
    using assms(3,4) by (auto simp: Get_runs split: prod.splits sum.splits)
  have "\<exists>ips. decode_kvs kvs = Inr ips" if "r' = Inr kvs" for kvs
  proof (rule decode_kvs_total)
    fix k v assume "(k, v) \<in> set kvs"
    then show "host_of v \<noteq> None"
      using etcd_ok_get(2) [OF assms(1) r' that] keys_under_prefix [OF assms(2,3), of k v] by auto
  qed
  with r obtain err where "r' = Inl err" by (cases r') fastforce+
  with r r' show ?thesis by simp
qed

text \<open>C10: over a store whose keys all belong to vertices, \<open>Get\<close> fails only when etcd does; otherwise
  it returns the address of each pod registered under the FQDN, once per pod, and never a record of
  another FQDN.\<close>

theorem Get_refines:
  assumes "etcd_ok (client s) kv" "etcd_good kv w" "vertex_fqdn f" "run_state (Get s f) w = (r, w')"
  shows "etcd_records kv w' = etcd_records kv w \<and>
     (case r of
        Inl e \<Rightarrow> \<exists>pre err. e = GetEtcdPrefix pre err \<and> run_state (etcd_GetPrefix (client s) pre) w = (Inl err, w')
      | Inr ips \<Rightarrow> \<exists>ps. distinct ps \<and> set ps = {p. etcd_records kv w (f, p) \<noteq> None} \<and>
          map Some ips = map (\<lambda>p. etcd_records kv w (f, p)) ps)"
  using Get_effect [OF assms] Get_Inl [OF assms(1-3)] assms(4) by (cases r) auto

theorem Get_refines_witness:
  "\<exists>w w'. run_state (Put \<lparr>client = mem_etcd\<rparr> ''in.p1.ns.vertexdomain.local'' ''p-0'' ''10.0.0.1'') [] = (Inr (), w) \<and>
     run_state (Get \<lparr>client = mem_etcd\<rparr> ''in.p1.ns.vertexdomain.local'') w = (Inr [''10.0.0.1''], w')"
proof -
  let ?s = "\<lparr>client = mem_etcd\<rparr>" and ?f = "''in.p1.ns.vertexdomain.local''"
  have ok: "etcd_ok (client ?s) map_of" by (simp add: mem_etcd_ok)
  obtain w where w: "run_state (Put ?s ?f ''p-0'' ''10.0.0.1'') [] = (Inr (), w)"
    by (simp add: Put_runs example_fqdn) (simp add: mem_etcd_def)
  have g: "etcd_good map_of w" and r: "etcd_records map_of w = (etcd_records map_of [])((?f, ''p-0'') \<mapsto> ''10.0.0.1'')"
    using Put_effect [OF ok mem_empty_good example_fqdn w] by auto
  obtain res w' where get: "run_state (Get ?s ?f) w = (res, w')" by fastforce
  have no_err: "run_state (etcd_GetPrefix (client ?s) pre) w \<noteq> (Inl err, w')" for pre err
    by (simp add: mem_etcd_def)
  from Get_refines [OF ok g example_fqdn(1) get] no_err obtain ips ps where "res = Inr ips" "distinct ps"
    "set ps = {''p-0''}" "map Some ips = map (\<lambda>p. etcd_records map_of w (?f, p)) ps"
    by (cases res) (auto simp: r mem_empty_records split: if_splits)
  moreover from this have "ps = [''p-0'']" by (intro distinct_set_single)
  ultimately show ?thesis using w get by (auto simp: r mem_empty_records)
qed

text \<open>the dial timeout of a new store is the one of the last option, five seconds without
  options, and a client that cannot be created is reported as such.\<close>

theorem NewEtcdStore_timeout:
  "run_state (NewEtcdStore new eps (map WithDialTimeout ds)) w =
     (case run_state (new eps (last (5000000000 # ds))) w of
        (Inl err, w') \<Rightarrow> (Inl (CreateEtcdClient err), w')
      | (Inr c, w') \<Rightarrow> (Inr (NewEtcdStoreFromClient c), w'))"
proof -
  have "dialTimeout (foldl (\<lambda>c o'. o' c) \<lparr>dialTimeout = t\<rparr> (map WithDialTimeout ds)) = last (t # ds)" for t
    by (induction ds arbitrary: t) (simp_all add: WithDialTimeout_def)
  then show ?thesis
    by (simp add: NewEtcdStore_def NewEtcdStoreFromClient_def run_call defaultDialTimeout_def
        split: prod.split sum.split)
qed

end
