(* ===== verification/Cluster.thy ===== *)
theory Cluster
  imports ApiTypes
begin

text \<open>
  A reference API server: an in-memory store of objects written after the documented behaviour of the
  Kubernetes API, on which the theorems about the reconcilers and the webhooks are applied.  A read of
  a missing object is \<open>ErrNotFound\<close>, a create of an existing one \<open>ErrAlreadyExists\<close>, and an object marked
  for deletion goes away with the update that leaves it without finalizers.
\<close>

record cluster =
  cl_networks :: "(NamespacedName \<times> NumaNetwork) list"
  cl_rcts :: "(NamespacedName \<times> ResourceClaimTemplate) list"
  cl_claims :: "(NamespacedName \<times> ResourceClaim) list"
  cl_pods :: "(NamespacedName \<times> Pod) list"
  cl_pipelines :: "(NamespacedName \<times> Unstructured) list"

definition empty_cluster :: cluster where
  "empty_cluster = \<lparr>cl_networks = [], cl_rcts = [], cl_claims = [], cl_pods = [], cl_pipelines = []\<rparr>"

definition meta_key :: "ObjectMeta \<Rightarrow> NamespacedName" where
  "meta_key m = (om_Namespace m, om_Name m)"

definition api_get :: "('w \<Rightarrow> (NamespacedName \<times> 'a) list) \<Rightarrow> NamespacedName \<Rightarrow> ('w, ApiError, 'a) io" where
  "api_get sel k = State (\<lambda>w. (case map_of (sel w) k of None \<Rightarrow> Inl ErrNotFound | Some x \<Rightarrow> Inr x, w))"

text \<open>Store an object, or drop it when it is marked for deletion and has no finalizer left.\<close>

definition api_put ::
  "('a \<Rightarrow> ObjectMeta) \<Rightarrow> 'a \<Rightarrow> (NamespacedName \<times> 'a) list \<Rightarrow> (NamespacedName \<times> 'a) list" where
  "api_put meta x xs =
     (let k = meta_key (meta x); rest = filter (\<lambda>p. fst p \<noteq> k) xs
      in if om_DeletionTimestamp (meta x) \<noteq> None \<and> om_Finalizers (meta x) = [] then rest else (k, x) # rest)"

definition api_update ::
  "('a \<Rightarrow> ObjectMeta) \<Rightarrow> ('w \<Rightarrow> (NamespacedName \<times> 'a) list) \<Rightarrow>
     (((NamespacedName \<times> 'a) list \<Rightarrow> (NamespacedName \<times> 'a) list) \<Rightarrow> 'w \<Rightarrow> 'w) \<Rightarrow> 'a \<Rightarrow> ('w, ApiError, 'a) io" where
  "api_update meta sel upd x = State (\<lambda>w.
     case map_of (sel w) (meta_key (meta x)) of
       None \<Rightarrow> (Inl ErrNotFound, w) | Some _ \<Rightarrow> (Inr x, upd (api_put meta x) w))"

definition api_create ::
  "('a \<Rightarrow> ObjectMeta) \<Rightarrow> ('w \<Rightarrow> (NamespacedName \<times> 'a) list) \<Rightarrow>
     (((NamespacedName \<times> 'a) list \<Rightarrow> (NamespacedName \<times> 'a) list) \<Rightarrow> 'w \<Rightarrow> 'w) \<Rightarrow> 'a \<Rightarrow> ('w, ApiError, 'a) io" where
  "api_create meta sel upd x = State (\<lambda>w.
     case map_of (sel w) (meta_key (meta x)) of
       Some _ \<Rightarrow> (Inl ErrAlreadyExists, w) | None \<Rightarrow> (Inr x, upd (api_put meta x) w))"

definition api_list ::
  "('a \<Rightarrow> ObjectMeta) \<Rightarrow> ('w \<Rightarrow> (NamespacedName \<times> 'a) list) \<Rightarrow> string \<Rightarrow> (string \<times> string) list \<Rightarrow>
     ('w, ApiError, 'a list) io" where
  "api_list meta sel ns labels = State (\<lambda>w.
     (Inr (filter (\<lambda>x. om_Namespace (meta x) = ns \<and> list_all (\<lambda>(k, v). om_Labels (meta x) k = Some v) labels)
        (map snd (sel w))), w))"

definition cluster_client :: "cluster Client" where
  "cluster_client =
     \<lparr>GetNumaNetwork = api_get cl_networks,
      UpdateNumaNetwork = api_update nn_meta cl_networks cl_networks_update,
      GetRCT = api_get cl_rcts,
      CreateRCT = api_create rct_meta cl_rcts cl_rcts_update,
      UpdateRCT = api_update rct_meta cl_rcts cl_rcts_update,
      ListRCTs = api_list rct_meta cl_rcts,
      ListResourceClaims = api_list rc_meta cl_claims,
      GetResourceClaim = api_get cl_claims,
      GetPod = api_get cl_pods,
      UpdatePod = api_update pod_meta cl_pods cl_pods_update,
      GetPipeline = api_get cl_pipelines\<rparr>"

lemmas api_defs = api_get_def api_put_def api_update_def api_create_def api_list_def meta_key_def

text \<open>Reads keep every predicate of the cluster; writes change their own kind of object only.\<close>

lemma api_get_keeps: "keeps P (api_get sel k)"
  by (simp add: keeps_def api_get_def)

lemma api_list_keeps: "keeps P (api_list meta sel ns l)"
  by (simp add: keeps_def api_list_def)

lemma api_update_keeps: "(\<And>w. P w \<Longrightarrow> P (upd (api_put meta x) w)) \<Longrightarrow> keeps P (api_update meta sel upd x)"
  by (auto simp: keeps_def api_update_def split: option.split)

lemma api_create_keeps: "(\<And>w. P w \<Longrightarrow> P (upd (api_put meta x) w)) \<Longrightarrow> keeps P (api_create meta sel upd x)"
  by (auto simp: keeps_def api_create_def split: option.split)

lemmas api_keeps = api_get_keeps api_list_keeps api_update_keeps api_create_keeps

text \<open>What is stored after a write.\<close>

lemma map_of_drop_key: "map_of (filter (\<lambda>p. fst p \<noteq> k) xs) = (map_of xs)(k := None)"
  by (induction xs) (auto simp: fun_eq_iff)

lemma map_of_api_put:
  "map_of (api_put meta x xs) =
     (map_of xs)(meta_key (meta x) := (if om_DeletionTimestamp (meta x) \<noteq> None \<and> om_Finalizers (meta x) = [] then None else Some x))"
  by (auto simp: api_put_def Let_def fun_eq_iff map_of_drop_key)

lemma api_put_set: "t \<in> snd ` set (api_put meta x xs) \<Longrightarrow> t \<in> snd ` set xs \<or> t = x"
  by (auto simp: api_put_def Let_def split: if_splits)

end
