(* ===== verification/NumaNetworkController.thy ===== *)
theory NumaNetworkController
  imports Cluster GoJson
begin

text \<open>
  \<open>internal/controller/numanetwork_controller.go\<close>: the reconciler that keeps one
  ResourceClaimTemplate per NumaNetwork and holds back the deletion of a NumaNetwork while
  ResourceClaims made from its template exist.
\<close>

definition numaNetworkFinalizer :: string where
  "numaNetworkFinalizer = ''gpu-direct-comm.numaproj.io/numa-network-ip''"

definition finalizerRequeueDelay :: nat where
  "finalizerRequeueDelay = 5"

datatype ReconcileError =
    GetNumaNetworkFailed ApiError
  | ListResourceClaimsFailed ApiError
  | RemoveFinalizerFailed ApiError
  | AddFinalizerFailed ApiError
  | SetControllerReferenceFailed string
  | GetRCTFailed ApiError
  | CreateRCTFailed ApiError
  | GetRCTAfterAlreadyExists ApiError
  | UpdateRCTFailed ApiError

section \<open>The template\<close>

definition profile_params :: "string \<Rightarrow> json" where
  "profile_params profileName = JObj [(''profile'', JStr profileName)]"

definition BuildResourceClaimTemplate :: "NumaNetwork \<Rightarrow> ResourceClaimTemplate" where
  "BuildResourceClaimTemplate nn =
     (let profileName = nn_Namespace nn @ ''/'' @ nn_Name nn;
          paramsRaw = Marshal (profile_params profileName)
      in \<lparr>rct_meta = empty_meta\<lparr>om_Name := nn_Name nn @ ''-rct'', om_Namespace := nn_Namespace nn,
            om_Labels := [LabelNumaNetworkName \<mapsto> nn_Name nn]\<rparr>,
          rct_Spec =
            \<lparr>rcts_Labels = [LabelNumaNetworkName \<mapsto> nn_Name nn],
             rcts_Requests =
               [\<lparr>dr_Name = ''nic'',
                 dr_Exactly = Some \<lparr>DeviceClassName = DeviceClass_Name (RefDeviceClass (nn_Spec nn)),
                   AllocationMode = [], Count = 0\<rparr>\<rparr>],
             rcts_Config = [Some \<lparr>Driver = ''dra.net'', Parameters = paramsRaw\<rparr>]\<rparr>\<rparr>)"

section \<open>Operations\<close>

definition countRelatedResourceClaims :: "'w Client \<Rightarrow> NumaNetwork \<Rightarrow> ('w, ReconcileError, nat) io" where
  "countRelatedResourceClaims c nn =
     call (ListResourceClaims c (nn_Namespace nn) [(LabelNumaNetworkName, nn_Name nn)])
       (\<lambda>err. fail (ListResourceClaimsFailed err))
       (\<lambda>claims. ok (length claims))"

text \<open>The update path of \<open>reconcileRCT\<close>, taken with an existing template.\<close>

definition updateRCT ::
  "'w Client \<Rightarrow> ControllerUtil \<Rightarrow> NumaNetwork \<Rightarrow> ResourceClaimTemplate \<Rightarrow> ResourceClaimTemplate \<Rightarrow>
     ('w, ReconcileError, unit) io" where
  "updateRCT c u nn desired existing =
     (case SetControllerReference u nn (rct_meta existing) of
        Inl err \<Rightarrow> fail (SetControllerReferenceFailed err)
      | Inr meta \<Rightarrow>
          (let updated = existing\<lparr>rct_meta := meta\<lparr>om_Labels := om_Labels (rct_meta desired)\<rparr>,
                                  rct_Spec := rct_Spec desired\<rparr>
           in if \<not> DeepEqualSpec u (rct_Spec existing) (rct_Spec desired) \<or>
                 \<not> DeepEqualLabels u (om_Labels (rct_meta existing)) (om_Labels (rct_meta desired)) \<or>
                 \<not> DeepEqualOwners u (om_OwnerReferences (rct_meta existing)) (om_OwnerReferences (rct_meta updated))
              then call (UpdateRCT c updated) (\<lambda>err. fail (UpdateRCTFailed err)) (\<lambda>_. ok ())
              else ok ()))"

definition reconcileRCT :: "'w Client \<Rightarrow> ControllerUtil \<Rightarrow> NumaNetwork \<Rightarrow> ('w, ReconcileError, unit) io" where
  "reconcileRCT c u nn =
     (let built = BuildResourceClaimTemplate nn
      in case SetControllerReference u nn (rct_meta built) of
           Inl err \<Rightarrow> fail (SetControllerReferenceFailed err)
         | Inr meta \<Rightarrow>
             (let desired = built\<lparr>rct_meta := meta\<rparr>;
                  key = (om_Namespace (rct_meta desired), om_Name (rct_meta desired))
              in call (GetRCT c key)
                   (\<lambda>err. if IsNotFound err
                      then call (CreateRCT c desired)
                             (\<lambda>createErr. if \<not> IsAlreadyExists createErr then fail (CreateRCTFailed createErr)
                                else call (GetRCT c key)
                                       (\<lambda>err. fail (GetRCTAfterAlreadyExists err))
                                       (updateRCT c u nn desired))
                             (\<lambda>_. ok ())
                      else fail (GetRCTFailed err))
                   (updateRCT c u nn desired)))"

definition finalizeNumaNetwork :: "'w Client \<Rightarrow> ControllerUtil \<Rightarrow> NumaNetwork \<Rightarrow> ('w, ReconcileError, Result) io" where
  "finalizeNumaNetwork c u nn =
     (if ContainsFinalizer u (nn_meta nn) numaNetworkFinalizer
      then call (countRelatedResourceClaims c nn) fail
             (\<lambda>remaining.
                if remaining > 0 then ok \<lparr>RequeueAfter = finalizerRequeueDelay\<rparr>
                else call (UpdateNumaNetwork c (nn\<lparr>nn_meta := RemoveFinalizer u (nn_meta nn) numaNetworkFinalizer\<rparr>))
                       (\<lambda>err. fail (RemoveFinalizerFailed err))
                       (\<lambda>_. ok \<lparr>RequeueAfter = 0\<rparr>))
      else ok \<lparr>RequeueAfter = 0\<rparr>)"

definition ensureNumaFinalizer :: "'w Client \<Rightarrow> ControllerUtil \<Rightarrow> NumaNetwork \<Rightarrow> ('w, ReconcileError, NumaNetwork) io" where
  "ensureNumaFinalizer c u nn =
     (if \<not> ContainsFinalizer u (nn_meta nn) numaNetworkFinalizer
      then call (UpdateNumaNetwork c (nn\<lparr>nn_meta := AddFinalizer u (nn_meta nn) numaNetworkFinalizer\<rparr>))
             (\<lambda>err. fail (AddFinalizerFailed err)) ok
      else ok nn)"

definition Reconcile :: "'w Client \<Rightarrow> ControllerUtil \<Rightarrow> NamespacedName \<Rightarrow> ('w, ReconcileError, Result) io" where
  "Reconcile c u req =
     call (GetNumaNetwork c req)
       (\<lambda>err. if IsNotFound err then ok \<lparr>RequeueAfter = 0\<rparr> else fail (GetNumaNetworkFailed err))
       (\<lambda>nn.
          if om_DeletionTimestamp (nn_meta nn) \<noteq> None then finalizeNumaNetwork c u nn
          else call (ensureNumaFinalizer c u nn) fail
                 (\<lambda>nn. call (reconcileRCT c u nn) fail (\<lambda>_. ok \<lparr>RequeueAfter = 0\<rparr>)))"

section \<open>Frames\<close>

text \<open>What \<open>reconcileRCT\<close> may call: reads and writes of templates.\<close>

lemma updateRCT_keeps:
  "(\<And>x. keeps P (UpdateRCT c x)) \<Longrightarrow> keeps P (updateRCT c u nn desired existing)"
  unfolding updateRCT_def Let_def by (auto intro!: io_frame split: sum.split)

lemma reconcileRCT_keeps:
  assumes "\<And>k. keeps P (GetRCT c k)" "\<And>x. keeps P (CreateRCT c x)" "\<And>x. keeps P (UpdateRCT c x)"
  shows "keeps P (reconcileRCT c u nn)"
  unfolding reconcileRCT_def Let_def
  by (auto intro!: io_frame assms updateRCT_keeps split: sum.split)

lemma run_Reconcile:
  "run_state (Reconcile c u req) w =
     (case run_state (GetNumaNetwork c req) w of
        (Inl err, w1) \<Rightarrow> (if IsNotFound err then Inr \<lparr>RequeueAfter = 0\<rparr> else Inl (GetNumaNetworkFailed err), w1)
      | (Inr nn, w1) \<Rightarrow>
          if om_DeletionTimestamp (nn_meta nn) \<noteq> None then run_state (finalizeNumaNetwork c u nn) w1
          else (case run_state (ensureNumaFinalizer c u nn) w1 of
                  (Inl e, w2) \<Rightarrow> (Inl e, w2)
                | (Inr nn', w2) \<Rightarrow>
                    (case run_state (reconcileRCT c u nn') w2 of
                       (Inl e, w3) \<Rightarrow> (Inl e, w3) | (Inr _, w3) \<Rightarrow> (Inr \<lparr>RequeueAfter = 0\<rparr>, w3))))"
  by (simp add: Reconcile_def run_call split: prod.split sum.split)

lemma ensureNumaFinalizer_keeps:
  assumes "controllerutil_ok u"
    and "\<And>x. numaNetworkFinalizer \<in> set (om_Finalizers (nn_meta x)) \<Longrightarrow> keeps P (UpdateNumaNetwork c x)"
  shows "keeps P (ensureNumaFinalizer c u nn)"
  unfolding ensureNumaFinalizer_def
  by (auto intro!: io_frame assms(2) simp: util_finalizer [OF assms(1)])

section \<open>Deletion\<close>

text \<open>while ResourceClaims labelled with the name of a NumaNetwork that is being deleted exist in
  its namespace, the reconciler writes nothing and asks to be called again after five seconds.\<close>

theorem Reconcile_waits_for_claims:
  assumes "controllerutil_ok u"
    and "run_state (GetNumaNetwork c req) w = (Inr nn, w1)"
    and "om_DeletionTimestamp (nn_meta nn) \<noteq> None" "numaNetworkFinalizer \<in> set (om_Finalizers (nn_meta nn))"
    and "run_state (ListResourceClaims c (nn_Namespace nn) [(LabelNumaNetworkName, nn_Name nn)]) w1 = (Inr claims, w2)"
    and "claims \<noteq> []"
  shows "run_state (Reconcile c u req) w = (Inr \<lparr>RequeueAfter = 5\<rparr>, w2)"
  using assms
  by (simp add: run_Reconcile finalizeNumaNetwork_def countRelatedResourceClaims_def run_call
      util_finalizer finalizerRequeueDelay_def)

text \<open>C8: a reconciliation releases a NumaNetwork for deletion only when no ResourceClaim made from it is
  left.  Let \<open>P\<close> be any predicate of the world that reads, template writes and updates of NumaNetworks
  which still carry the finalizer preserve (the finalizer is still there, say).  A reconciliation
  that breaks \<open>P\<close> read a NumaNetwork marked for deletion and then an empty list of its claims.\<close>

theorem finalizer_released_only_without_claims:
  assumes "controllerutil_ok u"
    and "\<And>k. keeps P (GetNumaNetwork c k)" "\<And>ns l. keeps P (ListResourceClaims c ns l)"
    and "\<And>k. keeps P (GetRCT c k)" "\<And>x. keeps P (CreateRCT c x)" "\<And>x. keeps P (UpdateRCT c x)"
    and "\<And>x. numaNetworkFinalizer \<in> set (om_Finalizers (nn_meta x)) \<Longrightarrow> keeps P (UpdateNumaNetwork c x)"
    and "P w" "\<not> P (snd (run_state (Reconcile c u req) w))"
  shows "\<exists>nn w1 w2. run_state (GetNumaNetwork c req) w = (Inr nn, w1) \<and>
    om_DeletionTimestamp (nn_meta nn) \<noteq> None \<and>
    run_state (ListResourceClaims c (nn_Namespace nn) [(LabelNumaNetworkName, nn_Name nn)]) w1 = (Inr [], w2)"
proof -
  obtain g w1 where g: "run_state (GetNumaNetwork c req) w = (g, w1)" by fastforce
  have w1: "P w1" using keepsD [OF assms(2,8) g] .
  with g assms(9) obtain nn where nn: "g = Inr nn" by (cases g) (auto simp: run_Reconcile)
  have live: "keeps P (ensureNumaFinalizer c u nn)" "keeps P (reconcileRCT c u x)" for x
    using ensureNumaFinalizer_keeps [OF assms(1,7)] reconcileRCT_keeps [OF assms(4-6)] by blast+
  have del: "om_DeletionTimestamp (nn_meta nn) \<noteq> None"
  proof
    assume "om_DeletionTimestamp (nn_meta nn) = None"
    then have "P (snd (run_state (Reconcile c u req) w))"
      using g nn w1 live by (auto simp: run_Reconcile split: prod.split sum.split dest: keepsD)
    with assms(9) show False ..
  qed
  obtain l w2 where l: "run_state (ListResourceClaims c (nn_Namespace nn) [(LabelNumaNetworkName, nn_Name nn)]) w1 = (l, w2)"
    by fastforce
  have "P w2" using keepsD [OF assms(3) w1 l] .
  with g nn del l w1 assms(9) have "l = Inr []"
    by (cases l) (auto simp: run_Reconcile finalizeNumaNetwork_def countRelatedResourceClaims_def run_call split: if_splits)
  with g nn del l show ?thesis by blast
qed

text \<open>once no claim is left, the NumaNetwork is updated with this controller's finalizer removed and
  every other field, the other finalizers included, unchanged.\<close>

theorem Reconcile_releases_finalizer:
  assumes "controllerutil_ok u"
    and "run_state (GetNumaNetwork c req) w = (Inr nn, w1)"
    and "om_DeletionTimestamp (nn_meta nn) \<noteq> None" "numaNetworkFinalizer \<in> set (om_Finalizers (nn_meta nn))"
    and "run_state (ListResourceClaims c (nn_Namespace nn) [(LabelNumaNetworkName, nn_Name nn)]) w1 = (Inr [], w2)"
  shows "run_state (Reconcile c u req) w =
    (case run_state (UpdateNumaNetwork c (nn\<lparr>nn_meta := (nn_meta nn)\<lparr>om_Finalizers :=
        filter (\<lambda>g. g \<noteq> numaNetworkFinalizer) (om_Finalizers (nn_meta nn))\<rparr>\<rparr>)) w2 of
       (Inl e, w3) \<Rightarrow> (Inl (RemoveFinalizerFailed e), w3) | (Inr _, w3) \<Rightarrow> (Inr \<lparr>RequeueAfter = 0\<rparr>, w3))"
  using assms
  by (simp add: run_Reconcile finalizeNumaNetwork_def countRelatedResourceClaims_def run_call util_finalizer
      split: prod.split sum.split)

section \<open>The template\<close>

text \<open>templates are written only for NumaNetworks that carry the finalizer: a reconciliation that
  breaks a predicate which everything but template writes preserves has either read a NumaNetwork with
  the finalizer or has first updated it successfully to carry it.\<close>

theorem template_only_after_finalizer:
  assumes "controllerutil_ok u"
    and "\<And>k. keeps P (GetNumaNetwork c k)" "\<And>ns l. keeps P (ListResourceClaims c ns l)"
    and "\<And>x. keeps P (UpdateNumaNetwork c x)"
    and "P w" "\<not> P (snd (run_state (Reconcile c u req) w))"
  shows "\<exists>nn w1. run_state (GetNumaNetwork c req) w = (Inr nn, w1) \<and> om_DeletionTimestamp (nn_meta nn) = None \<and>
    (numaNetworkFinalizer \<in> set (om_Finalizers (nn_meta nn)) \<or>
     (\<exists>nn' w2. run_state (UpdateNumaNetwork c (nn\<lparr>nn_meta :=
         (nn_meta nn)\<lparr>om_Finalizers := om_Finalizers (nn_meta nn) @ [numaNetworkFinalizer]\<rparr>\<rparr>)) w1 = (Inr nn', w2)))"
proof -
  obtain g w1 where g: "run_state (GetNumaNetwork c req) w = (g, w1)" by fastforce
  have w1: "P w1" using keepsD [OF assms(2,5) g] .
  with g assms(6) obtain nn where nn: "g = Inr nn" by (cases g) (auto simp: run_Reconcile)
  have fin: "keeps P (finalizeNumaNetwork c u nn)"
    unfolding finalizeNumaNetwork_def countRelatedResourceClaims_def by (auto intro!: io_frame assms)
  have live: "om_DeletionTimestamp (nn_meta nn) = None"
    using g nn w1 fin assms(6) by (auto simp: run_Reconcile keeps_def split: if_splits)
  have "\<not> (\<exists>e w2. run_state (ensureNumaFinalizer c u nn) w1 = (Inl e, w2))"
  proof safe
    fix e w2 assume e: "run_state (ensureNumaFinalizer c u nn) w1 = (Inl e, w2)"
    have "keeps P (ensureNumaFinalizer c u nn)" unfolding ensureNumaFinalizer_def by (auto intro!: io_frame assms)
    from keepsD [OF this w1 e] have "P w2" .
    with e g nn live assms(6) show False by (simp add: run_Reconcile)
  qed
  then show ?thesis using g nn live
    by (auto simp: ensureNumaFinalizer_def util_finalizer [OF assms(1)] run_call split: if_splits prod.splits sum.splits)
qed

section \<open>Writing the template\<close>

lemma desired_key:
  assumes "controllerutil_ok u" "SetControllerReference u nn (rct_meta (BuildResourceClaimTemplate nn)) = Inr meta"
  shows "om_Namespace meta = nn_Namespace nn" "om_Name meta = nn_Name nn @ ''-rct''"
    "om_Labels meta = [LabelNumaNetworkName \<mapsto> nn_Name nn]" "om_DeletionTimestamp meta = None"
proof -
  obtain rs where "meta = (rct_meta (BuildResourceClaimTemplate nn))\<lparr>om_OwnerReferences := rs\<rparr>"
    using util_owner [OF assms] by blast
  then show "om_Namespace meta = nn_Namespace nn" "om_Name meta = nn_Name nn @ ''-rct''"
    "om_Labels meta = [LabelNumaNetworkName \<mapsto> nn_Name nn]" "om_DeletionTimestamp meta = None"
    by (simp_all add: BuildResourceClaimTemplate_def Let_def empty_meta_def)
qed

text \<open>The template a reconciliation leaves behind: the existing one with the labels, the spec and the
  owner of the NumaNetwork.\<close>

definition synced_template ::
  "ControllerUtil \<Rightarrow> NumaNetwork \<Rightarrow> ResourceClaimTemplate \<Rightarrow> string + ResourceClaimTemplate" where
  "synced_template u nn existing =
     (case SetControllerReference u nn (rct_meta existing) of
        Inl e \<Rightarrow> Inl e
      | Inr m \<Rightarrow> Inr (existing\<lparr>rct_meta := m\<lparr>om_Labels := [LabelNumaNetworkName \<mapsto> nn_Name nn]\<rparr>,
                               rct_Spec := rct_Spec (BuildResourceClaimTemplate nn)\<rparr>))"

lemma synced_unchanged:
  assumes "controllerutil_ok u" "SetControllerReference u nn (rct_meta existing) = Inr m"
  shows "existing\<lparr>rct_meta := m\<lparr>om_Labels := l\<rparr>, rct_Spec := s\<rparr> = existing \<longleftrightarrow>
     rct_Spec existing = s \<and> om_Labels (rct_meta existing) = l \<and>
     om_OwnerReferences (rct_meta existing) = om_OwnerReferences m"
proof -
  obtain em es mo where e: "existing = \<lparr>rct_meta = em, rct_Spec = es, \<dots> = mo\<rparr>" by (cases existing)
  have "m = em\<lparr>om_OwnerReferences := om_OwnerReferences m\<rparr>" using util_owner [OF assms] e by simp
  then obtain rs where m: "m = em\<lparr>om_OwnerReferences := rs\<rparr>" by blast
  show ?thesis unfolding e m by (cases em) auto
qed

definition sync_template ::
  "'w Client \<Rightarrow> ControllerUtil \<Rightarrow> NumaNetwork \<Rightarrow> ResourceClaimTemplate \<Rightarrow> 'w \<Rightarrow> (ReconcileError + unit) \<times> 'w" where
  "sync_template c u nn existing w =
     (case synced_template u nn existing of
        Inl e \<Rightarrow> (Inl (SetControllerReferenceFailed e), w)
      | Inr t \<Rightarrow> if t = existing then (Inr (), w)
          else (case run_state (UpdateRCT c t) w of
                  (Inl e, w') \<Rightarrow> (Inl (UpdateRCTFailed e), w') | (Inr _, w') \<Rightarrow> (Inr (), w')))"

lemma run_updateRCT:
  assumes "controllerutil_ok u" "SetControllerReference u nn (rct_meta (BuildResourceClaimTemplate nn)) = Inr meta"
    and "desired = (BuildResourceClaimTemplate nn)\<lparr>rct_meta := meta\<rparr>"
  shows "run_state (updateRCT c u nn desired existing) w = sync_template c u nn existing w"
proof (cases "SetControllerReference u nn (rct_meta existing)")
  case (Inl e)
  then show ?thesis by (simp add: updateRCT_def sync_template_def synced_template_def)
next
  case (Inr m)
  have l: "om_Labels (rct_meta desired) = [LabelNumaNetworkName \<mapsto> nn_Name nn]"
    "rct_Spec desired = rct_Spec (BuildResourceClaimTemplate nn)"
    using assms(3) desired_key(3) [OF assms(1,2)] by simp_all
  show ?thesis
    using synced_unchanged [OF assms(1) Inr, where l = "[LabelNumaNetworkName \<mapsto> nn_Name nn]" and s = "rct_Spec (BuildResourceClaimTemplate nn)"]
    by (auto simp: updateRCT_def sync_template_def synced_template_def Inr l Let_def util_equal [OF assms(1)] run_call
        split: prod.split sum.split)
qed

lemma run_reconcileRCT:
  assumes "controllerutil_ok u"
    and "SetControllerReference u nn (rct_meta (BuildResourceClaimTemplate nn)) = Inr meta"
  shows "run_state (reconcileRCT c u nn) w =
    (case run_state (GetRCT c (nn_Namespace nn, nn_Name nn @ ''-rct'')) w of
       (Inr existing, w1) \<Rightarrow> sync_template c u nn existing w1
     | (Inl e, w1) \<Rightarrow>
         if e \<noteq> ErrNotFound then (Inl (GetRCTFailed e), w1)
         else (case run_state (CreateRCT c ((BuildResourceClaimTemplate nn)\<lparr>rct_meta := meta\<rparr>)) w1 of
                 (Inr _, w2) \<Rightarrow> (Inr (), w2)
               | (Inl e, w2) \<Rightarrow>
                   if e \<noteq> ErrAlreadyExists then (Inl (CreateRCTFailed e), w2)
                   else (case run_state (GetRCT c (nn_Namespace nn, nn_Name nn @ ''-rct'')) w2 of
                           (Inl e, w3) \<Rightarrow> (Inl (GetRCTAfterAlreadyExists e), w3)
                         | (Inr existing, w3) \<Rightarrow> sync_template c u nn existing w3)))"
proof -
  define desired where "desired = (BuildResourceClaimTemplate nn)\<lparr>rct_meta := meta\<rparr>"
  define key where "key = (nn_Namespace nn, nn_Name nn @ ''-rct'')"
  have k: "(om_Namespace (rct_meta desired), om_Name (rct_meta desired)) = key"
    using desired_key [OF assms(1,2)] by (simp add: desired_def key_def)
  have s: "run_state (updateRCT c u nn desired existing) w = sync_template c u nn existing w" for existing w
    by (rule run_updateRCT [OF assms(1,2) desired_def])
  show ?thesis
    unfolding reconcileRCT_def Let_def assms(2) sum.case desired_def [symmetric] key_def [symmetric] k
    by (simp add: run_call s IsNotFound_def IsAlreadyExists_def split: prod.split sum.split)
qed


text \<open>C11: the whole behaviour of \<open>reconcileRCT\<close>, on every branch.  When the NumaNetwork cannot be made the owner of
  the template it builds, nothing is called.  Otherwise the template \<open><name>-rct\<close> is read; when it is missing it is
  created with the NumaNetwork's owner reference, and when another writer wins that race, it is read
  again; an existing template is updated only when its spec, labels or owner differ from the wanted
  ones, and then every other field of it is kept.\<close>

theorem reconcileRCT_behaviour:
  assumes "controllerutil_ok u"
  shows "run_state (reconcileRCT c u nn) w =
    (case SetControllerReference u nn (rct_meta (BuildResourceClaimTemplate nn)) of
       Inl e \<Rightarrow> (Inl (SetControllerReferenceFailed e), w)
     | Inr meta \<Rightarrow>
       (case run_state (GetRCT c (nn_Namespace nn, nn_Name nn @ ''-rct'')) w of
          (Inr existing, w1) \<Rightarrow> sync_template c u nn existing w1
        | (Inl e, w1) \<Rightarrow>
            if e \<noteq> ErrNotFound then (Inl (GetRCTFailed e), w1)
            else (case run_state (CreateRCT c ((BuildResourceClaimTemplate nn)\<lparr>rct_meta := meta\<rparr>)) w1 of
                    (Inr _, w2) \<Rightarrow> (Inr (), w2)
                  | (Inl e, w2) \<Rightarrow>
                      if e \<noteq> ErrAlreadyExists then (Inl (CreateRCTFailed e), w2)
                      else (case run_state (GetRCT c (nn_Namespace nn, nn_Name nn @ ''-rct'')) w2 of
                              (Inl e, w3) \<Rightarrow> (Inl (GetRCTAfterAlreadyExists e), w3)
                            | (Inr existing, w3) \<Rightarrow> sync_template c u nn existing w3))))"
proof (cases "SetControllerReference u nn (rct_meta (BuildResourceClaimTemplate nn))")
  case (Inl e)
  then show ?thesis by (simp add: reconcileRCT_def Let_def)
next
  case (Inr meta)
  then show ?thesis using run_reconcileRCT [OF assms Inr] by simp
qed

text \<open>a template that a reconciliation has brought in line is left alone by the next one: reading it
  back, \<open>reconcileRCT\<close> succeeds without a write.\<close>

theorem reconcileRCT_idempotent:
  assumes "controllerutil_ok u"
    and "SetControllerReference u nn (rct_meta (BuildResourceClaimTemplate nn)) = Inr meta"
    and "synced_template u nn existing = Inr t"
    and "run_state (GetRCT c (nn_Namespace nn, nn_Name nn @ ''-rct'')) w = (Inr t, w1)"
  shows "run_state (reconcileRCT c u nn) w = (Inr (), w1)"
proof -
  obtain m where m: "SetControllerReference u nn (rct_meta existing) = Inr m"
    and t: "t = existing\<lparr>rct_meta := m\<lparr>om_Labels := [LabelNumaNetworkName \<mapsto> nn_Name nn]\<rparr>,
                        rct_Spec := rct_Spec (BuildResourceClaimTemplate nn)\<rparr>"
    using assms(3) by (auto simp: synced_template_def split: sum.splits)
  have "synced_template u nn t = Inr t"
    using util_owner_idem [OF assms(1) m] by (simp add: synced_template_def t)
  then show ?thesis
    unfolding run_reconcileRCT [OF assms(1,2)] by (simp add: assms(4) sync_template_def)
qed

text \<open>C38: the wanted spec leaves the allocation mode of its request empty, so a stored template in which some request
  has one (the API server fills in \<open>ExactCount\<close>) always counts as changed: unless an owner reference cannot be set,
  every reconciliation that reads such a template sends an update, whose outcome is its own.\<close>

theorem defaulted_template_always_updated:
  assumes "controllerutil_ok u"
    and "run_state (GetRCT c (nn_Namespace nn, nn_Name nn @ ''-rct'')) w = (Inr existing, w1)"
    and "r \<in> set (rcts_Requests (rct_Spec existing))" "dr_Exactly r = Some x" "AllocationMode x \<noteq> []"
  shows "run_state (reconcileRCT c u nn) w =
    (case SetControllerReference u nn (rct_meta (BuildResourceClaimTemplate nn)) of
       Inl e \<Rightarrow> (Inl (SetControllerReferenceFailed e), w)
     | Inr _ \<Rightarrow>
       (case synced_template u nn existing of
          Inl e \<Rightarrow> (Inl (SetControllerReferenceFailed e), w1)
        | Inr t \<Rightarrow>
          (case run_state (UpdateRCT c t) w1 of
             (Inl e, w') \<Rightarrow> (Inl (UpdateRCTFailed e), w') | (Inr _, w') \<Rightarrow> (Inr (), w'))))"
proof (cases "SetControllerReference u nn (rct_meta (BuildResourceClaimTemplate nn))")
  case (Inl e)
  then show ?thesis by (simp add: reconcileRCT_def Let_def)
next
  case (Inr meta)
  have "t \<noteq> existing" if "synced_template u nn existing = Inr t" for t
  proof -
    have "rct_Spec t = rct_Spec (BuildResourceClaimTemplate nn)"
      using that by (auto simp: synced_template_def split: sum.splits)
    then show ?thesis using assms(3-5) by (auto simp: BuildResourceClaimTemplate_def Let_def)
  qed
  then show ?thesis
    unfolding run_reconcileRCT [OF assms(1) Inr] Inr by (simp add: assms(2) sync_template_def split: sum.split)
qed

section \<open>Examples\<close>

text \<open>A NumaNetwork that is being deleted, with or without a ResourceClaim made from it.\<close>

definition deleting_network :: NumaNetwork where
  "deleting_network = (mk_network ''ns'' ''a'' ''vf'' ''10.0.0.0/24'')\<lparr>nn_meta :=
     (nn_meta (mk_network ''ns'' ''a'' ''vf'' ''10.0.0.0/24''))\<lparr>om_DeletionTimestamp := Some 1,
        om_Finalizers := [numaNetworkFinalizer]\<rparr>\<rparr>"

definition example_claim :: ResourceClaim where
  "example_claim = \<lparr>rc_meta = empty_meta\<lparr>om_Name := ''c'', om_Namespace := ''ns'',
     om_Labels := [LabelNumaNetworkName \<mapsto> ''a'']\<rparr>, rc_Devices = []\<rparr>"

definition deleting_cluster :: "(NamespacedName \<times> ResourceClaim) list \<Rightarrow> cluster" where
  "deleting_cluster claims = empty_cluster\<lparr>cl_networks := [((''ns'', ''a''), deleting_network)], cl_claims := claims\<rparr>"

lemmas example_defs = deleting_cluster_def deleting_network_def example_claim_def cluster_client_def
  empty_cluster_def mk_network_def empty_meta_def

lemma example_get:
  "run_state (GetNumaNetwork cluster_client (''ns'', ''a'')) (deleting_cluster cs) = (Inr deleting_network, deleting_cluster cs)"
  by (simp add: example_defs api_defs)

lemma example_list:
  "run_state (ListResourceClaims cluster_client (nn_Namespace deleting_network) [(LabelNumaNetworkName, nn_Name deleting_network)])
     (deleting_cluster []) = (Inr [], deleting_cluster [])"
  "run_state (ListResourceClaims cluster_client (nn_Namespace deleting_network) [(LabelNumaNetworkName, nn_Name deleting_network)])
     (deleting_cluster [((''ns'', ''c''), example_claim)]) = (Inr [example_claim], deleting_cluster [((''ns'', ''c''), example_claim)])"
  by (simp_all add: example_defs api_defs)

lemma example_deleting:
  "om_DeletionTimestamp (nn_meta deleting_network) \<noteq> None"
  "numaNetworkFinalizer \<in> set (om_Finalizers (nn_meta deleting_network))"
  by (simp_all add: example_defs)

theorem Reconcile_waits_for_claims_witness:
  "run_state (Reconcile cluster_client ref_util (''ns'', ''a'')) (deleting_cluster [((''ns'', ''c''), example_claim)]) =
     (Inr \<lparr>RequeueAfter = 5\<rparr>, deleting_cluster [((''ns'', ''c''), example_claim)])"
  by (rule Reconcile_waits_for_claims [OF ref_util_ok example_get example_deleting example_list(2)]) simp

theorem Reconcile_releases_finalizer_witness:
  "run_state (Reconcile cluster_client ref_util (''ns'', ''a'')) (deleting_cluster []) =
     (Inr \<lparr>RequeueAfter = 0\<rparr>, empty_cluster)"
  using Reconcile_releases_finalizer [OF ref_util_ok example_get example_deleting example_list(1)]
  by (simp add: example_defs api_defs)

theorem finalizer_released_only_without_claims_witness:
  "\<exists>nn w1 w2. run_state (GetNumaNetwork cluster_client (''ns'', ''a'')) (deleting_cluster []) = (Inr nn, w1) \<and>
    om_DeletionTimestamp (nn_meta nn) \<noteq> None \<and>
    run_state (ListResourceClaims cluster_client (nn_Namespace nn) [(LabelNumaNetworkName, nn_Name nn)]) w1 = (Inr [], w2)"
proof (rule finalizer_released_only_without_claims [where P = "\<lambda>w. cl_networks w \<noteq> []", OF ref_util_ok])
  show "keeps (\<lambda>w. cl_networks w \<noteq> []) (UpdateNumaNetwork cluster_client x)"
    if "numaNetworkFinalizer \<in> set (om_Finalizers (nn_meta x))" for x
    using that by (auto simp: cluster_client_def api_put_def Let_def intro!: api_keeps split: if_splits)
  show "cl_networks (deleting_cluster []) \<noteq> []" by (simp add: deleting_cluster_def)
  have "run_state (Reconcile cluster_client ref_util (''ns'', ''a'')) (deleting_cluster []) = (Inr \<lparr>RequeueAfter = 0\<rparr>, empty_cluster)"
    by (simp add: Reconcile_def finalizeNumaNetwork_def countRelatedResourceClaims_def run_call example_defs api_defs ref_util_def)
  then show "\<not> cl_networks (snd (run_state (Reconcile cluster_client ref_util (''ns'', ''a'')) (deleting_cluster []))) \<noteq> []"
    by (simp add: empty_cluster_def)
qed (auto simp: cluster_client_def intro!: api_keeps)

text \<open>A new NumaNetwork.\<close>

definition fresh_network :: NumaNetwork where
  "fresh_network = mk_network ''ns'' ''a'' ''vf'' ''10.0.0.0/24''"

definition fresh_cluster :: "(NamespacedName \<times> ResourceClaimTemplate) list \<Rightarrow> cluster" where
  "fresh_cluster ts = empty_cluster\<lparr>cl_networks := [((''ns'', ''a''), fresh_network)], cl_rcts := ts\<rparr>"

theorem template_only_after_finalizer_witness:
  "\<exists>nn w1. run_state (GetNumaNetwork cluster_client (''ns'', ''a'')) (fresh_cluster []) = (Inr nn, w1) \<and>
    om_DeletionTimestamp (nn_meta nn) = None \<and>
    (numaNetworkFinalizer \<in> set (om_Finalizers (nn_meta nn)) \<or>
     (\<exists>nn' w2. run_state (UpdateNumaNetwork cluster_client (nn\<lparr>nn_meta :=
         (nn_meta nn)\<lparr>om_Finalizers := om_Finalizers (nn_meta nn) @ [numaNetworkFinalizer]\<rparr>\<rparr>)) w1 = (Inr nn', w2)))"
proof (rule template_only_after_finalizer [where P = "\<lambda>w. cl_rcts w = []", OF ref_util_ok])
  show "cl_rcts (fresh_cluster []) = []" by (simp add: fresh_cluster_def)
  show "\<not> cl_rcts (snd (run_state (Reconcile cluster_client ref_util (''ns'', ''a'')) (fresh_cluster []))) = []"
    by (simp add: Reconcile_def ensureNumaFinalizer_def reconcileRCT_def BuildResourceClaimTemplate_def run_call
        fresh_cluster_def fresh_network_def example_defs api_defs ref_util_def IsNotFound_def Let_def)
qed (auto simp: cluster_client_def intro!: api_keeps)

definition fresh_owner :: ObjectMeta where
  "fresh_owner = (rct_meta (BuildResourceClaimTemplate fresh_network))\<lparr>om_OwnerReferences := [controller_ref fresh_network]\<rparr>"

definition fresh_template :: ResourceClaimTemplate where
  "fresh_template = (BuildResourceClaimTemplate fresh_network)\<lparr>rct_meta := fresh_owner\<rparr>"

lemma example_owner:
  "SetControllerReference ref_util fresh_network (rct_meta (BuildResourceClaimTemplate fresh_network)) = Inr fresh_owner"
  by (simp add: ref_util_def BuildResourceClaimTemplate_def fresh_owner_def empty_meta_def)

theorem reconcileRCT_behaviour_witness:
  "run_state (reconcileRCT cluster_client ref_util fresh_network) (fresh_cluster []) =
     (Inr (), fresh_cluster [((''ns'', ''a-rct''), fresh_template)])"
  using reconcileRCT_behaviour [OF ref_util_ok, of cluster_client fresh_network "fresh_cluster []"]
  unfolding example_owner
  by (simp add: fresh_cluster_def fresh_template_def fresh_owner_def fresh_network_def BuildResourceClaimTemplate_def
      example_defs api_defs)

lemma example_synced: "synced_template ref_util fresh_network fresh_template = Inr fresh_template"
  by (simp add: synced_template_def fresh_template_def fresh_owner_def ref_util_def controller_ref_def
      BuildResourceClaimTemplate_def fresh_network_def mk_network_def empty_meta_def)

lemma example_get_template:
  "fst t = (''ns'', ''a-rct'') \<Longrightarrow> run_state (GetRCT cluster_client (nn_Namespace fresh_network, nn_Name fresh_network @ ''-rct''))
     (fresh_cluster [t]) = (Inr (snd t), fresh_cluster [t])"
  by (cases t) (simp add: cluster_client_def api_defs fresh_cluster_def fresh_network_def mk_network_def empty_meta_def)

theorem reconcileRCT_idempotent_witness:
  "run_state (reconcileRCT cluster_client ref_util fresh_network) (fresh_cluster [((''ns'', ''a-rct''), fresh_template)]) =
     (Inr (), fresh_cluster [((''ns'', ''a-rct''), fresh_template)])"
  by (rule reconcileRCT_idempotent [OF ref_util_ok example_owner example_synced]) (simp add: example_get_template)

definition stored_template :: ResourceClaimTemplate where
  "stored_template = fresh_template\<lparr>rct_Spec := (rct_Spec fresh_template)\<lparr>rcts_Requests :=
     [\<lparr>dr_Name = ''nic'', dr_Exactly = Some \<lparr>DeviceClassName = ''vf'', AllocationMode = ''ExactCount'', Count = 1\<rparr>\<rparr>]\<rparr>\<rparr>"

text \<open>The template as an API server stores it is written once more, although nothing changed.\<close>

theorem defaulted_template_always_updated_witness:
  "run_state (reconcileRCT cluster_client ref_util fresh_network) (fresh_cluster [((''ns'', ''a-rct''), stored_template)]) =
     (Inr (), fresh_cluster [((''ns'', ''a-rct''), fresh_template)])"
proof -
  let ?w = "fresh_cluster [((''ns'', ''a-rct''), stored_template)]"
  have sync: "synced_template ref_util fresh_network stored_template = Inr fresh_template"
    using example_synced by (simp add: synced_template_def stored_template_def split: sum.splits)
  have upd: "run_state (UpdateRCT cluster_client fresh_template) ?w = (Inr fresh_template, fresh_cluster [((''ns'', ''a-rct''), fresh_template)])"
    by (simp add: fresh_cluster_def fresh_template_def fresh_owner_def fresh_network_def BuildResourceClaimTemplate_def
        example_defs api_defs)
  have get: "run_state (GetRCT cluster_client (nn_Namespace fresh_network, nn_Name fresh_network @ ''-rct'')) ?w = (Inr stored_template, ?w)"
    by (simp add: example_get_template)
  from defaulted_template_always_updated [OF ref_util_ok get, where
      r = "\<lparr>dr_Name = ''nic'', dr_Exactly = Some \<lparr>DeviceClassName = ''vf'', AllocationMode = ''ExactCount'', Count = 1\<rparr>\<rparr>" and
      x = "\<lparr>DeviceClassName = ''vf'', AllocationMode = ''ExactCount'', Count = 1\<rparr>"]
  show ?thesis by (simp add: stored_template_def [THEN arg_cong [where f = rct_Spec]] example_owner sync upd)
qed

end
