(* ===== verification/Binding.thy ===== *)
theory Binding
  imports GoJson
begin

text \<open>
  \<open>internal/webhook/v1alpha1/binding.go\<close>: the edge bindings of a Pipeline annotation, their JSON form
  and their validation against the declared edges.
\<close>

definition AnnotationNumaNetworkEdges :: string where
  "AnnotationNumaNetworkEdges = ''gpu-direct-comm.numaproj.io/numa-network-edges''"

definition ConnectionTypeDirect :: string where
  "ConnectionTypeDirect = ''direct''"

record EdgeNumaNetworkBinding =
  From :: string
  To :: string
  NumaNetworkName :: string
  ConnectionType :: string

record PipelineEdge =
  pe_From :: string
  pe_To :: string

definition dec_binding :: "EdgeNumaNetworkBinding dec" where
  "dec_binding = dec_struct
     [(''from'', dec_field From From_update dec_string),
      (''to'', dec_field To To_update dec_string),
      (''numaNetwork'', dec_field NumaNetworkName NumaNetworkName_update dec_string),
      (''connectionType'', dec_field ConnectionType ConnectionType_update dec_string)]"

definition zero_binding :: EdgeNumaNetworkBinding where
  "zero_binding = \<lparr>From = [], To = [], NumaNetworkName = [], ConnectionType = []\<rparr>"

datatype BindingError =
    ParseEdgeBindings
  | EmptyEndpoint nat
  | UnsupportedConnectionType nat string
  | EdgeNotFound nat string string

definition ParseBindings :: "string \<Rightarrow> BindingError + EdgeNumaNetworkBinding list" where
  "ParseBindings annotationValue =
     (case Unmarshal (dec_slice zero_binding dec_binding) annotationValue [] of
        None \<Rightarrow> Inl ParseEdgeBindings
      | Some bindings \<Rightarrow> Inr bindings)"

fun validate_loop ::
  "(string \<times> string) set \<Rightarrow> nat \<Rightarrow> EdgeNumaNetworkBinding list \<Rightarrow> BindingError + unit" where
  "validate_loop edgeSet i [] = Inr ()"
| "validate_loop edgeSet i (b # bs) =
     (if From b = [] \<or> To b = [] then Inl (EmptyEndpoint i)
      else if ConnectionType b \<noteq> ConnectionTypeDirect then Inl (UnsupportedConnectionType i (ConnectionType b))
      else if (From b, To b) \<notin> edgeSet then Inl (EdgeNotFound i (From b) (To b))
      else validate_loop edgeSet (i + 1) bs)"

definition validateBindings ::
  "EdgeNumaNetworkBinding list \<Rightarrow> PipelineEdge list \<Rightarrow> BindingError + unit" where
  "validateBindings bindings edges =
     (let edgeSet = foldl (\<lambda>s e. insert (pe_From e, pe_To e) s) {} edges
      in validate_loop edgeSet 0 bindings)"

section \<open>Validation\<close>

text \<open>The error of one binding, if it has one.\<close>

definition binding_error :: "PipelineEdge list \<Rightarrow> nat \<Rightarrow> EdgeNumaNetworkBinding \<Rightarrow> BindingError option" where
  "binding_error edges i b =
     (if From b = [] \<or> To b = [] then Some (EmptyEndpoint i)
      else if ConnectionType b \<noteq> ''direct'' then Some (UnsupportedConnectionType i (ConnectionType b))
      else if \<not> list_ex (\<lambda>e. pe_From e = From b \<and> pe_To e = To b) edges then Some (EdgeNotFound i (From b) (To b))
      else None)"

lemma edgeSet_eq: "foldl (\<lambda>s e. insert (pe_From e, pe_To e) s) S edges = S \<union> (\<lambda>e. (pe_From e, pe_To e)) ` set edges"
  by (induction edges arbitrary: S) auto

lemma binding_error_set:
  "binding_error edges i b =
     (if From b = [] \<or> To b = [] then Some (EmptyEndpoint i)
      else if ConnectionType b \<noteq> ConnectionTypeDirect then Some (UnsupportedConnectionType i (ConnectionType b))
      else if (From b, To b) \<notin> (\<lambda>e. (pe_From e, pe_To e)) ` set edges then Some (EdgeNotFound i (From b) (To b))
      else None)"
  by (auto simp: binding_error_def ConnectionTypeDirect_def list_ex_iff image_iff)

lemma validate_loop_Cons:
  "validate_loop ((\<lambda>e. (pe_From e, pe_To e)) ` set edges) i (b # bs) =
     (case binding_error edges i b of
        Some e \<Rightarrow> Inl e | None \<Rightarrow> validate_loop ((\<lambda>e. (pe_From e, pe_To e)) ` set edges) (i + 1) bs)"
  by (simp add: binding_error_set)

lemma validate_loop_Inl:
  "validate_loop ((\<lambda>e. (pe_From e, pe_To e)) ` set edges) i bs = Inl err \<longleftrightarrow>
     (\<exists>k < length bs. (\<forall>j < k. binding_error edges (i + j) (bs ! j) = None) \<and> binding_error edges (i + k) (bs ! k) = Some err)"
proof (induction bs arbitrary: i)
  case (Cons b bs)
  show ?case
    unfolding validate_loop_Cons length_Cons Ex_less_Suc2
    by (auto simp: Cons.IH All_less_Suc2 split: option.split)
qed simp

lemma validateBindings_loop:
  "validateBindings bs edges = validate_loop ((\<lambda>e. (pe_From e, pe_To e)) ` set edges) 0 bs"
  by (simp add: validateBindings_def edgeSet_eq)

lemma binding_error_index: "binding_error edges i b = None \<longleftrightarrow> binding_error edges 0 b = None"
  by (simp add: binding_error_def)

lemma validateBindings_ok_iff:
  "validateBindings bs edges = Inr () \<longleftrightarrow> list_all (\<lambda>b. binding_error edges 0 b = None) bs"
proof -
  have "validate_loop ((\<lambda>e. (pe_From e, pe_To e)) ` set edges) i bs = Inr () \<longleftrightarrow>
      list_all (\<lambda>b. binding_error edges 0 b = None) bs" for i
  proof (induction bs arbitrary: i)
    case (Cons b bs)
    then show ?case unfolding validate_loop_Cons using binding_error_index [of edges i b]
      by (auto split: option.split)
  qed simp
  then show ?thesis by (simp add: validateBindings_loop)
qed

text \<open>\<open>validateBindings\<close> accepts a list of bindings exactly when every binding has both endpoints,
  the connection type \<open>direct\<close> and an edge declared in the Pipeline.\<close>

theorem validateBindings_accepts:
  "validateBindings bs edges = Inr () \<longleftrightarrow>
     list_all (\<lambda>b. From b \<noteq> [] \<and> To b \<noteq> [] \<and> ConnectionType b = ''direct'' \<and>
       list_ex (\<lambda>e. pe_From e = From b \<and> pe_To e = To b) edges) bs"
  unfolding validateBindings_ok_iff by (auto simp: list_all_iff binding_error_def split: if_splits)

text \<open>otherwise the error is that of the first bad binding, with its index, and its checks come in
  the order endpoints, connection type, edge.\<close>

theorem validateBindings_first_error:
  "validateBindings bs edges = Inl err \<longleftrightarrow>
     (\<exists>k < length bs. (\<forall>j < k. binding_error edges j (bs ! j) = None) \<and> binding_error edges k (bs ! k) = Some err)"
  using validate_loop_Inl [of edges 0 bs err] by (simp add: validateBindings_loop)

theorem validateBindings_first_error_witness:
  "validateBindings
     [\<lparr>From = ''a'', To = ''b'', NumaNetworkName = ''n'', ConnectionType = ''direct''\<rparr>,
      \<lparr>From = ''a'', To = ''c'', NumaNetworkName = ''n'', ConnectionType = ''direct''\<rparr>]
     [\<lparr>pe_From = ''a'', pe_To = ''b''\<rparr>] = Inl (EdgeNotFound 1 ''a'' ''c'')"
  unfolding validateBindings_first_error
  by (rule exI [of _ 1]) (simp add: binding_error_def)

section \<open>Round trip\<close>

definition binding_json :: "EdgeNumaNetworkBinding \<Rightarrow> json" where
  "binding_json b = JObj [(''from'', JStr (From b)), (''to'', JStr (To b)),
     (''numaNetwork'', JStr (NumaNetworkName b)), (''connectionType'', JStr (ConnectionType b))]"

definition ascii_binding :: "EdgeNumaNetworkBinding \<Rightarrow> bool" where
  "ascii_binding b \<longleftrightarrow> is_ascii (From b) \<and> is_ascii (To b) \<and> is_ascii (NumaNetworkName b) \<and> is_ascii (ConnectionType b)"

lemma binding_names:
  "fold_name ''from'' = ''FROM''" "fold_name ''to'' = ''TO''" "fold_name ''numaNetwork'' = ''NUMANETWORK''"
  "fold_name ''connectionType'' = ''CONNECTIONTYPE''"
  by code_simp+

lemma dec_binding_json: "dec_binding (binding_json b) x = Some b"
  by (simp add: dec_binding_def binding_json_def dec_field_def binding_names del: fold_name.simps)

lemma dec_elems_bindings: "dec_elems z dec_binding (map binding_json bs) old = Some bs"
  by (induction bs arbitrary: old) (simp_all add: dec_binding_json)

lemma binding_json_utf8: "ascii_binding b \<Longrightarrow> json_utf8 (binding_json b) = binding_json b"
  by (simp add: binding_json_def ascii_binding_def to_utf8_ascii)

lemma fold_max_le: "(\<And>x. x \<in> set xs \<Longrightarrow> x \<le> m) \<Longrightarrow> a \<le> m \<Longrightarrow> fold max xs a \<le> (m :: nat)"
  by (induction xs arbitrary: a) auto

lemma binding_json_num_free: "num_free (binding_json b)"
  by (simp add: binding_json_def)

lemma ParseBindings_Marshal:
  assumes "list_all ascii_binding bs"
  shows "ParseBindings (Marshal (JArr (map binding_json bs))) = Inr bs"
proof -
  let ?v = "JArr (map binding_json bs)"
  have u: "json_utf8 ?v = ?v" using assms by (simp add: list_all_iff binding_json_utf8)
  have n: "num_free ?v" by (simp add: list_all_iff binding_json_num_free)
  have "fold max (map (depth \<circ> binding_json) bs) 0 \<le> 1"
    by (rule fold_max_le) (auto simp: binding_json_def)
  then have d: "depth ?v \<le> maxNestingDepth" by (simp add: maxNestingDepth_def)
  have "Unmarshal (dec_slice zero_binding dec_binding) (Marshal ?v) [] = dec_slice zero_binding dec_binding (json_utf8 ?v) []"
    by (rule Unmarshal_Marshal) (use n d u in \<open>simp_all only:\<close>)
  then show ?thesis unfolding ParseBindings_def u by (simp add: dec_elems_bindings del: Marshal.simps)
qed

text \<open>C35: \<open>ParseBindings\<close> reads back every list of bindings written as JSON with the documented keys.\<close>

theorem ParseBindings_roundtrip:
  assumes "list_all ascii_binding bs"
  shows "ParseBindings (Marshal (JArr (map binding_json bs))) = Inr bs"
  using assms by (rule ParseBindings_Marshal)

theorem ParseBindings_roundtrip_witness:
  "ParseBindings (Marshal (JArr (map binding_json
      [\<lparr>From = ''a'', To = ''b'', NumaNetworkName = ''n'', ConnectionType = ''direct''\<rparr>]))) =
     Inr [\<lparr>From = ''a'', To = ''b'', NumaNetworkName = ''n'', ConnectionType = ''direct''\<rparr>]"
  by (rule ParseBindings_roundtrip) (simp add: ascii_binding_def)

end
