(* ===== verification/VertexDomain.thy ===== *)
theory VertexDomain
  imports GoRegexp Dns
begin

text \<open>
  \<open>internal/webhook/v1alpha1/vertex_domain.go\<close>: the FQDN of a vertex.  The pattern of a DNS label is
  shown to accept exactly the intended strings, and the FQDNs to be names in the sense of the store.
\<close>

definition EnvVertexDomainTargets :: string where
  "EnvVertexDomainTargets = ''VERTEX_DOMAIN_TARGETS''"

definition vertexDomainSuffix :: string where
  "vertexDomainSuffix = ''vertexdomain.local''"

definition dnsLabelRegexp :: rx where
  "dnsLabelRegexp =
     (let alnum = RClass [(CHR ''a'', CHR ''z''), (CHR ''0'', CHR ''9'')];
          inner = RClass [(CHR ''a'', CHR ''z''), (CHR ''0'', CHR ''9''), (CHR ''-'', CHR ''-'')]
      in RSeq alnum (ROpt (RSeq (RStar inner) alnum)))"

datatype VertexDomainError =
    EmptyVertexName
  | EmptyPipelineName
  | EmptyNamespace
  | NonDNSCharacters string string

fun check_labels :: "(string \<times> string) list \<Rightarrow> VertexDomainError option" where
  "check_labels [] = None"
| "check_labels ((name, v) # parts) =
     (if \<not> MatchString dnsLabelRegexp v then Some (NonDNSCharacters name v) else check_labels parts)"

definition BuildVertexDomain :: "string \<Rightarrow> string \<Rightarrow> string \<Rightarrow> VertexDomainError + string" where
  "BuildVertexDomain vertex pipeline namespace =
     (if vertex = [] then Inl EmptyVertexName
      else if pipeline = [] then Inl EmptyPipelineName
      else if namespace = [] then Inl EmptyNamespace
      else
        (case check_labels [(''vertex'', vertex), (''pipeline'', pipeline), (''namespace'', namespace)] of
           Some err \<Rightarrow> Inl err
         | None \<Rightarrow> Inr (vertex @ ''.'' @ pipeline @ ''.'' @ namespace @ ''.'' @ vertexDomainSuffix)))"

section \<open>DNS labels\<close>

definition alnum :: "char \<Rightarrow> bool" where
  "alnum c \<longleftrightarrow> in_class [(CHR ''a'', CHR ''z''), (CHR ''0'', CHR ''9'')] c"

text \<open>The intended set: not empty, lowercase letters, digits and hyphens, no hyphen at either end.\<close>

definition dns_label :: "string \<Rightarrow> bool" where
  "dns_label s \<longleftrightarrow> s \<noteq> [] \<and> list_all (\<lambda>c. alnum c \<or> c = CHR ''-'') s \<and> hd s \<noteq> CHR ''-'' \<and> last s \<noteq> CHR ''-''"

lemma in_class_inner:
  "in_class [(CHR ''a'', CHR ''z''), (CHR ''0'', CHR ''9''), (CHR ''-'', CHR ''-'')] c \<longleftrightarrow> alnum c \<or> c = CHR ''-''"
  using in_class_single [of "CHR ''-''" c] by (auto simp: alnum_def in_class_def)

lemma hyphen_not_alnum [simp]: "\<not> alnum CHR ''-''" "\<not> alnum CHR ''.''" "\<not> alnum CHR ''/''"
  by (simp_all add: alnum_def in_class_def byte_def)

lemma dnsLabel_iff: "MatchString dnsLabelRegexp s \<longleftrightarrow> dns_label s"
proof (cases s)
  case Nil
  then show ?thesis by (simp add: MatchString_iff dnsLabelRegexp_def Let_def in_lang_class_Nil dns_label_def)
next
  case (Cons c t)
  show ?thesis
  proof (cases t rule: rev_cases)
    case Nil
    with Cons show ?thesis
      by (auto simp: MatchString_iff dnsLabelRegexp_def Let_def in_lang_class_Cons in_lang_simps alnum_def [symmetric] dns_label_def)
  next
    case (snoc u d)
    have "in_lang (RSeq (RStar (RClass rs)) (RClass qs)) (u @ [d]) \<longleftrightarrow> list_all (in_class rs) u \<and> in_class qs d" for rs qs
      by (auto simp: in_lang_simps in_lang_star_class)
    with Cons snoc show ?thesis
      unfolding MatchString_iff dnsLabelRegexp_def Let_def
      by (auto simp: in_lang_class_Cons in_lang_simps(5) in_lang_simps(2) in_class_inner list_all_iff alnum_def [symmetric] dns_label_def)
  qed
qed

lemma dns_label_no_sep: "dns_label s \<Longrightarrow> CHR ''.'' \<notin> set s \<and> CHR ''/'' \<notin> set s"
  by (auto simp: dns_label_def list_all_iff)

lemma dns_label_ne: "dns_label s \<Longrightarrow> s \<noteq> []"
  by (simp add: dns_label_def)

section \<open>FQDNs\<close>

lemma BuildVertexDomain_Inr_iff:
  "BuildVertexDomain v p n = Inr f \<longleftrightarrow>
     dns_label v \<and> dns_label p \<and> dns_label n \<and> f = v @ ''.'' @ p @ ''.'' @ n @ ''.vertexdomain.local''"
  by (auto simp: BuildVertexDomain_def dnsLabel_iff vertexDomainSuffix_def dest: dns_label_ne)

lemma Split_vertex_domain:
  assumes "BuildVertexDomain v p n = Inr f"
  shows "Split CHR ''.'' f = [v, p, n, ''vertexdomain'', ''local'']"
proof -
  have s: "CHR ''.'' \<notin> set v" "CHR ''.'' \<notin> set p" "CHR ''.'' \<notin> set n"
    using assms by (auto simp: BuildVertexDomain_Inr_iff dest: dns_label_no_sep)
  have z: "Split CHR ''.'' ''vertexdomain.local'' = [''vertexdomain'', ''local'']" by code_simp
  show ?thesis
    using assms Split_append [OF s(1)] Split_append [OF s(2)] Split_append [OF s(3)] z
    by (simp add: BuildVertexDomain_Inr_iff)
qed

lemma BuildVertexDomain_vertex_fqdn:
  assumes "BuildVertexDomain v p n = Inr f"
  shows "vertex_fqdn f"
proof -
  have "CHR ''/'' \<notin> set v" "CHR ''/'' \<notin> set p" "CHR ''/'' \<notin> set n"
    using assms by (auto simp: BuildVertexDomain_Inr_iff dest: dns_label_no_sep)
  then show ?thesis using assms Split_vertex_domain [OF assms]
    by (simp add: vertex_fqdn_def dns_name_def BuildVertexDomain_Inr_iff)
qed

lemma BuildVertexDomain_inj:
  "BuildVertexDomain v p n = Inr f \<Longrightarrow> BuildVertexDomain v' p' n' = Inr f \<Longrightarrow> v = v' \<and> p = p' \<and> n = n'"
  using Split_vertex_domain [of v p n f] Split_vertex_domain [of v' p' n' f] by simp

text \<open>\<open>BuildVertexDomain\<close> succeeds exactly when the three names are non-empty strings of
  lowercase letters, digits and hyphens with no hyphen at either end, and then returns
  \<open><vertex>.<pipeline>.<namespace>.vertexdomain.local\<close>.\<close>

theorem BuildVertexDomain_format:
  "BuildVertexDomain v p n = Inr f \<longleftrightarrow>
     dns_label v \<and> dns_label p \<and> dns_label n \<and> f = v @ ''.'' @ p @ ''.'' @ n @ ''.vertexdomain.local''"
  by (rule BuildVertexDomain_Inr_iff)

text \<open>the FQDN determines the vertex: two vertices, pipelines or namespaces never share one.\<close>

theorem BuildVertexDomain_injective:
  assumes "BuildVertexDomain v p n = Inr f" "BuildVertexDomain v' p' n' = Inr f"
  shows "(v, p, n) = (v', p', n')"
  using BuildVertexDomain_inj [OF assms] by simp

theorem BuildVertexDomain_injective_witness:
  "BuildVertexDomain ''in'' ''p1'' ''ns'' = Inr ''in.p1.ns.vertexdomain.local'' \<and> (''in'', ''p1'', ''ns'') = (''in'', ''p1'', ''ns'')"
proof -
  have "BuildVertexDomain ''in'' ''p1'' ''ns'' = Inr ''in.p1.ns.vertexdomain.local''" by code_simp
  with BuildVertexDomain_injective [OF this this] show ?thesis by simp
qed

text \<open>the pattern puts no bound on the length of a label: names longer than the 63 characters of
  a DNS label are accepted.\<close>

theorem dnsLabelRegexp_unbounded: "MatchString dnsLabelRegexp (replicate (Suc n) CHR ''a'')"
  by (simp add: dnsLabel_iff dns_label_def list_all_iff alnum_def in_class_def byte_def del: replicate_Suc)

end
