(* ===== verification/Admission.thy ===== *)
theory Admission
  imports Cluster Binding VertexDomain
begin

text \<open>
  The types the three admission webhooks share: requests, responses and the reasons they carry.
  \<open>admission.PatchResponseFromRaw\<close> compares two JSON documents and is not part of the program: a
  response made with it keeps both documents.
\<close>

record Request =
  Object_Raw :: string
  req_Namespace :: string

datatype ResolveError =
    ListRCTsFailed string ApiError
  | TooManyTemplates string nat
  | NoTemplateFound string int

datatype WebhookError =
    DecodePipeline string
  | GetNumaNetworkErr string ApiError
  | ResolveRCT ResolveError
  | SpecIsNotAMap
  | MarshalPatchedPipeline string
  | DecodePod string
  | BuildVertexDomainErr VertexDomainError
  | CollectTargetFQDNs string VertexDomainError
  | MarshalPatchedPod string

datatype DenyReason =
    DeniedBinding BindingError
  | DeniedNumaNetworkNotFound string string

datatype Response =
    Allowed string
  | Denied DenyReason
  | Errored nat WebhookError
  | PatchResponseFromRaw string string

abbreviation respond :: "Response \<Rightarrow> ('w, Response) state" where
  "respond r \<equiv> State_Monad.return r"

lemma run_respond [simp, io_simps]: "run_state (respond r) w = (r, w)"
  by simp

text \<open>A string field of an unstructured map, empty when it is missing or not a string:
  \<open>s, _ := m[k].(string)\<close>.\<close>

definition str_field :: "string \<Rightarrow> (string \<times> any) list \<Rightarrow> string" where
  "str_field k m = (case as_str (map_of m k) of Some s \<Rightarrow> s | None \<Rightarrow> [])"

text \<open>Reads that leave the world alone.\<close>

definition pure_reads :: "'w Client \<Rightarrow> bool" where
  "pure_reads c \<longleftrightarrow> (\<forall>k w. snd (run_state (GetNumaNetwork c k) w) = w)"

lemma pure_readsD: "pure_reads c \<Longrightarrow> run_state (GetNumaNetwork c k) w = (r, w') \<Longrightarrow> w' = w"
  by (metis pure_reads_def snd_conv)

lemma cluster_pure_reads: "pure_reads cluster_client"
  by (simp add: pure_reads_def cluster_client_def api_get_def)

text \<open>An unstructured library for examples: a table of documents.\<close>

definition example_lib :: "(string \<times> Unstructured) list \<Rightarrow> (string \<rightharpoonup> string) \<Rightarrow> nat option \<Rightarrow> UnstructuredLib" where
  "example_lib docs annotations deleted =
     \<lparr>us_Unmarshal = (\<lambda>s. case map_of docs s of None \<Rightarrow> Inl ''bad document'' | Some o' \<Rightarrow> Inr o'),
      us_Marshal = (\<lambda>_. Inr ''patched''),
      GetAnnotations = (\<lambda>_. annotations), GetNamespace = (\<lambda>_. ''ns''), GetDeletionTimestamp = (\<lambda>_. deleted)\<rparr>"

end
