(* ===== verification/PipelineWebhook.thy ===== *)
theory PipelineWebhook
  imports Admission
begin

text \<open>
  \<open>internal/webhook/v1alpha1/pipeline_webhook.go\<close>: the validating webhook for Pipelines.
\<close>

definition extractEdges :: "Unstructured \<Rightarrow> PipelineEdge list" where
  "extractEdges obj =
     (case as_map (map_of obj ''spec'') of
        None \<Rightarrow> []
      | Some spec \<Rightarrow>
          (case as_arr (map_of spec ''edges'') of
             None \<Rightarrow> []
           | Some rawEdges \<Rightarrow>
               List.map_filter (\<lambda>e. map_option (\<lambda>edge.
                 \<lparr>pe_From = str_field ''from'' edge, pe_To = str_field ''to'' edge\<rparr>) (as_map (Some e))) rawEdges))"

fun check_networks :: "'w Client \<Rightarrow> string \<Rightarrow> EdgeNumaNetworkBinding list \<Rightarrow> ('w, Response) state" where
  "check_networks c ns [] = respond (Allowed [])"
| "check_networks c ns (b # bs) =
     call (GetNumaNetwork c (ns, NumaNetworkName b))
       (\<lambda>err. if IsNotFound err then respond (Denied (DeniedNumaNetworkNotFound (NumaNetworkName b) ns))
              else respond (Errored 500 (GetNumaNetworkErr (NumaNetworkName b) err)))
       (\<lambda>nn. check_networks c ns bs)"

definition Handle :: "'w Client \<Rightarrow> UnstructuredLib \<Rightarrow> Request \<Rightarrow> ('w, Response) state" where
  "Handle c lib req =
     (case us_Unmarshal lib (Object_Raw req) of
        Inl err \<Rightarrow> respond (Errored 400 (DecodePipeline err))
      | Inr obj \<Rightarrow>
          if GetDeletionTimestamp lib obj \<noteq> None then respond (Allowed ''pipeline is being deleted'')
          else
            (case GetAnnotations lib obj AnnotationNumaNetworkEdges of
               None \<Rightarrow> respond (Allowed ''no numa-network-edges annotation'')
             | Some rawBinding \<Rightarrow>
                 (case ParseBindings rawBinding of
                    Inl err \<Rightarrow> respond (Denied (DeniedBinding err))
                  | Inr bindings \<Rightarrow>
                      (case validateBindings bindings (extractEdges obj) of
                         Inl err \<Rightarrow> respond (Denied (DeniedBinding err))
                       | Inr _ \<Rightarrow> check_networks c (GetNamespace lib obj) bindings))))"

section \<open>Existence of the networks\<close>

lemma check_networks_pure:
  assumes "pure_reads c"
  shows "snd (run_state (check_networks c ns bs) w) = w"
  by (induction bs) (auto simp: run_call split: prod.split sum.split dest: pure_readsD [OF assms])

lemma check_networks_allowed:
  assumes "pure_reads c"
  shows "fst (run_state (check_networks c ns bs) w) = Allowed [] \<longleftrightarrow>
     list_all (\<lambda>b. \<not> isl (fst (run_state (GetNumaNetwork c (ns, NumaNetworkName b)) w))) bs"
proof (induction bs)
  case (Cons b bs)
  have "snd (run_state (GetNumaNetwork c (ns, NumaNetworkName b)) w) = w"
    using assms by (simp add: pure_reads_def)
  with Cons show ?case
    by (cases "run_state (GetNumaNetwork c (ns, NumaNetworkName b)) w") (auto simp: run_call split: sum.split)
qed simp

lemma check_networks_other:
  "fst (run_state (check_networks c ns bs) w) \<noteq> Allowed (x # xs)"
  "fst (run_state (check_networks c ns bs) w) \<noteq> Denied (DeniedBinding e)"
  "fst (run_state (check_networks c ns bs) w) \<noteq> PatchResponseFromRaw r p"
  by (induction bs arbitrary: w) (auto simp: run_call split: prod.split sum.split)

lemma check_networks_denied:
  assumes "pure_reads c" "fst (run_state (check_networks c ns bs) w) = Denied (DeniedNumaNetworkNotFound name ns')"
  shows "ns' = ns \<and> (\<exists>b \<in> set bs. NumaNetworkName b = name) \<and>
    fst (run_state (GetNumaNetwork c (ns, name)) w) = Inl ErrNotFound"
  using assms(2)
proof (induction bs)
  case (Cons b bs)
  have "snd (run_state (GetNumaNetwork c (ns, NumaNetworkName b)) w) = w"
    using assms(1) by (simp add: pure_reads_def)
  with Cons show ?case
    by (cases "run_state (GetNumaNetwork c (ns, NumaNetworkName b)) w")
       (auto simp: run_call IsNotFound_def split: sum.splits if_splits)
qed simp

section \<open>Properties\<close>

lemma GetNamespace_example: "GetNamespace (example_lib docs annotations deleted) obj = ''ns''"
  by (simp add: example_lib_def)

text \<open>C13: a Pipeline that is not being deleted and carries the annotation is admitted exactly when the
  annotation parses, every binding is well formed and matches a declared edge, and every NumaNetwork it
  names exists in the Pipeline's namespace.\<close>

theorem validator_admits_iff:
  assumes "pure_reads c" "us_Unmarshal lib (Object_Raw req) = Inr obj"
    and "GetDeletionTimestamp lib obj = None"
    and "GetAnnotations lib obj AnnotationNumaNetworkEdges = Some raw"
  shows "(\<exists>msg. run_state (Handle c lib req) w = (Allowed msg, w)) \<longleftrightarrow>
    (\<exists>bindings. ParseBindings raw = Inr bindings \<and>
       list_all (\<lambda>b. From b \<noteq> [] \<and> To b \<noteq> [] \<and> ConnectionType b = ''direct'' \<and>
         list_ex (\<lambda>e. pe_From e = From b \<and> pe_To e = To b) (extractEdges obj) \<and>
         (\<exists>nn. fst (run_state (GetNumaNetwork c (GetNamespace lib obj, NumaNetworkName b)) w) = Inr nn)) bindings)"
proof (cases "ParseBindings raw")
  case (Inl e)
  then show ?thesis using assms(2-4) by (simp add: Handle_def)
next
  case (Inr bs)
  let ?ns = "GetNamespace lib obj"
  have v: "validateBindings bs (extractEdges obj) = Inr () \<longleftrightarrow>
     list_all (\<lambda>b. From b \<noteq> [] \<and> To b \<noteq> [] \<and> ConnectionType b = ''direct'' \<and>
       list_ex (\<lambda>e. pe_From e = From b \<and> pe_To e = To b) (extractEdges obj)) bs"
    unfolding validateBindings_ok_iff by (auto simp: list_all_iff binding_error_def split: if_splits)
  have n: "(\<exists>msg. run_state (check_networks c ?ns bs) w = (Allowed msg, w)) \<longleftrightarrow>
     list_all (\<lambda>b. \<exists>nn. fst (run_state (GetNumaNetwork c (?ns, NumaNetworkName b)) w) = Inr nn) bs"
  proof -
    have "(\<exists>msg. run_state (check_networks c ?ns bs) w = (Allowed msg, w)) \<longleftrightarrow>
        fst (run_state (check_networks c ?ns bs) w) = Allowed []"
      using check_networks_pure [OF assms(1)] check_networks_other(1)
      by (metis fst_conv list.exhaust prod.collapse)
    then show ?thesis
      unfolding check_networks_allowed [OF assms(1)] list_all_iff by (metis isl_def sum.disc(2) sum.exhaust_sel)
  qed
  show ?thesis
  proof (cases "validateBindings bs (extractEdges obj)")
    case (Inl e)
    then show ?thesis using assms(2-4) Inr v by (auto simp: Handle_def list_all_iff)
  next
    case (Inr u)
    then show ?thesis using assms(2-4) \<open>ParseBindings raw = Inr bs\<close> v n by (auto simp: Handle_def list_all_iff)
  qed
qed


theorem validator_admits_iff_witness:
  "\<exists>msg. run_state (Handle cluster_client
      (example_lib [(''doc'', [(''spec'', AMap [(''edges'', AArr [AMap [(''from'', AStr ''a''), (''to'', AStr ''b'')]])])])]
         [AnnotationNumaNetworkEdges \<mapsto> Marshal (JArr (map binding_json
            [\<lparr>From = ''a'', To = ''b'', NumaNetworkName = ''n'', ConnectionType = ''direct''\<rparr>]))] None)
      \<lparr>Object_Raw = ''doc'', req_Namespace = ''ns''\<rparr>)
     (empty_cluster\<lparr>cl_networks := [((''ns'', ''n''), mk_network ''ns'' ''n'' ''vf'' ''10.0.0.0/24'')]\<rparr>) =
   (Allowed msg, empty_cluster\<lparr>cl_networks := [((''ns'', ''n''), mk_network ''ns'' ''n'' ''vf'' ''10.0.0.0/24'')]\<rparr>)"
proof (rule validator_admits_iff [OF cluster_pure_reads, THEN iffD2])
  let ?bs = "[\<lparr>From = ''a'', To = ''b'', NumaNetworkName = ''n'', ConnectionType = ''direct''\<rparr>]"
  let ?obj = "[(''spec'', AMap [(''edges'', AArr [AMap [(''from'', AStr ''a''), (''to'', AStr ''b'')]])])]"
  let ?w = "empty_cluster\<lparr>cl_networks := [((''ns'', ''n''), mk_network ''ns'' ''n'' ''vf'' ''10.0.0.0/24'')]\<rparr>"
  let ?lib = "example_lib [(''doc'', ?obj)] [AnnotationNumaNetworkEdges \<mapsto> Marshal (JArr (map binding_json ?bs))] None"
  show "us_Unmarshal ?lib (Object_Raw \<lparr>Object_Raw = ''doc'', req_Namespace = ''ns''\<rparr>) = Inr ?obj"
    "GetDeletionTimestamp ?lib ?obj = None"
    "GetAnnotations ?lib ?obj AnnotationNumaNetworkEdges = Some (Marshal (JArr (map binding_json ?bs)))"
    by (simp_all add: example_lib_def)
  have e: "extractEdges ?obj = [\<lparr>pe_From = ''a'', pe_To = ''b''\<rparr>]" by code_simp
  have p: "ParseBindings (Marshal (JArr (map binding_json ?bs))) = Inr ?bs"
    by (rule ParseBindings_Marshal) (simp add: ascii_binding_def)
  have g: "fst (run_state (GetNumaNetwork cluster_client (''ns'', ''n'')) ?w) = Inr (mk_network ''ns'' ''n'' ''vf'' ''10.0.0.0/24'')"
    by (simp add: cluster_client_def api_get_def)
  show "\<exists>bindings. ParseBindings (Marshal (JArr (map binding_json ?bs))) = Inr bindings \<and>
       list_all (\<lambda>b. From b \<noteq> [] \<and> To b \<noteq> [] \<and> ConnectionType b = ''direct'' \<and>
         list_ex (\<lambda>e. pe_From e = From b \<and> pe_To e = To b) (extractEdges ?obj) \<and>
         (\<exists>nn. fst (run_state (GetNumaNetwork cluster_client (GetNamespace ?lib ?obj, NumaNetworkName b)) ?w) = Inr nn)) bindings"
    by (intro exI [of _ ?bs] conjI p) (simp add: e g GetNamespace_example)
qed

text \<open>a Pipeline that is being deleted, or has no annotation, is admitted without a look at the
  cluster, whatever else it contains.\<close>

theorem validator_skips:
  assumes "us_Unmarshal lib (Object_Raw req) = Inr obj"
    and "GetDeletionTimestamp lib obj \<noteq> None \<or> GetAnnotations lib obj AnnotationNumaNetworkEdges = None"
  shows "\<exists>msg. run_state (Handle c lib req) w = (Allowed msg, w)"
  using assms by (cases "GetDeletionTimestamp lib obj") (auto simp: Handle_def)

theorem validator_skips_witness:
  "\<exists>msg. run_state (Handle stub_client (example_lib [(''doc'', [])] [AnnotationNumaNetworkEdges \<mapsto> ''x''] (Some 1))
     \<lparr>Object_Raw = ''doc'', req_Namespace = ''ns''\<rparr>) (0 :: nat) = (Allowed msg, 0)"
  by (rule validator_skips) (simp_all add: example_lib_def)

text \<open>a missing NumaNetwork is named in the denial: the denied name is that of a binding, in the
  Pipeline's namespace, and the API server does not know it.\<close>

theorem validator_denies_missing:
  assumes "pure_reads c" "fst (run_state (Handle c lib req) w) = Denied (DeniedNumaNetworkNotFound name ns)"
  shows "\<exists>obj raw bindings. us_Unmarshal lib (Object_Raw req) = Inr obj \<and> ns = GetNamespace lib obj \<and>
    GetAnnotations lib obj AnnotationNumaNetworkEdges = Some raw \<and> ParseBindings raw = Inr bindings \<and>
    name \<in> NumaNetworkName ` set bindings \<and> fst (run_state (GetNumaNetwork c (ns, name)) w) = Inl ErrNotFound"
proof -
  obtain obj raw bs where h: "us_Unmarshal lib (Object_Raw req) = Inr obj"
    "GetAnnotations lib obj AnnotationNumaNetworkEdges = Some raw" "ParseBindings raw = Inr bs"
    "fst (run_state (check_networks c (GetNamespace lib obj) bs) w) = Denied (DeniedNumaNetworkNotFound name ns)"
    using assms(2) unfolding Handle_def by (auto split: sum.splits if_splits option.splits)
  with check_networks_denied [OF assms(1) h(4)] show ?thesis by auto
qed

theorem validator_denies_missing_witness:
  "fst (run_state (GetNumaNetwork cluster_client (''ns'', ''n'')) empty_cluster) = Inl ErrNotFound"
proof -
  let ?bs = "[\<lparr>From = ''a'', To = ''b'', NumaNetworkName = ''n'', ConnectionType = ''direct''\<rparr>]"
  let ?obj = "[(''spec'', AMap [(''edges'', AArr [AMap [(''from'', AStr ''a''), (''to'', AStr ''b'')]])])]"
  let ?lib = "example_lib [(''doc'', ?obj)] [AnnotationNumaNetworkEdges \<mapsto> Marshal (JArr (map binding_json ?bs))] None"
  have e: "validateBindings ?bs (extractEdges ?obj) = Inr ()" by code_simp
  have p: "ParseBindings (Marshal (JArr (map binding_json ?bs))) = Inr ?bs"
    by (rule ParseBindings_Marshal) (simp add: ascii_binding_def)
  have "fst (run_state (Handle cluster_client ?lib \<lparr>Object_Raw = ''doc'', req_Namespace = ''ns''\<rparr>) empty_cluster) =
      Denied (DeniedNumaNetworkNotFound ''n'' ''ns'')"
    unfolding Handle_def using e p
    by (simp add: example_lib_def cluster_client_def api_get_def empty_cluster_def run_call IsNotFound_def del: Marshal.simps)
  from validator_denies_missing [OF cluster_pure_reads this] show ?thesis by blast
qed

section \<open>Edges\<close>

definition edge_any :: "PipelineEdge \<Rightarrow> any" where
  "edge_any e = AMap [(''from'', AStr (pe_From e)), (''to'', AStr (pe_To e))]"

text \<open>the edges written in \<open>spec.edges\<close> are read back in order, whatever else the Pipeline holds.\<close>

theorem extractEdges_roundtrip:
  assumes "map_of obj ''spec'' = Some (AMap spec)" "map_of spec ''edges'' = Some (AArr (map edge_any es))"
  shows "extractEdges obj = es"
proof -
  have "List.map_filter (\<lambda>e. map_option (\<lambda>edge.
      \<lparr>pe_From = str_field ''from'' edge, pe_To = str_field ''to'' edge\<rparr>) (as_map (Some e))) (map edge_any es) = es"
    by (induction es) (simp_all add: edge_any_def str_field_def)
  then show ?thesis using assms by (simp add: extractEdges_def)
qed

theorem extractEdges_roundtrip_witness:
  "extractEdges [(''spec'', AMap [(''edges'', AArr (map edge_any [\<lparr>pe_From = ''a'', pe_To = ''b''\<rparr>]))])] =
     [\<lparr>pe_From = ''a'', pe_To = ''b''\<rparr>]"
  by (rule extractEdges_roundtrip [where spec = "[(''edges'', AArr (map edge_any [\<lparr>pe_From = ''a'', pe_To = ''b''\<rparr>]))]"])
     simp_all

end
