(* ===== verification/PipelineMutator.thy ===== *)
theory PipelineMutator
  imports Admission "HOL-Library.AList"
begin

text \<open>
  \<open>internal/webhook/v1alpha1/pipeline_mutator.go\<close>: the mutating webhook that writes the
  ResourceClaimTemplates of the bound NumaNetworks into the vertices of a Pipeline.

  The Go maps \<open>toInject\<close>, \<open>queued\<close> and \<open>resolved\<close> are association lists: the code only looks
  keys up, so the order of their entries is not visible.

  Waiting is the record \<open>SelectEnv\<close>.  The \<open>select\<close> of \<open>resolveRCTName\<close> waits for the deadline of the
  context or for the next tick.  How often the tick is taken before the deadline is up to the runtime:
  \<open>ticks\<close> gives that number for one call, a natural number because the deadline of
  \<open>context.WithTimeout\<close> fires eventually, and \<open>after\<close> is what the world does during one wait.
\<close>

record PipelineMutator =
  RCTResolveTimeout :: int
  RCTResolveInterval :: int

record 'w SelectEnv =
  ticks :: "int \<Rightarrow> int \<Rightarrow> 'w \<Rightarrow> nat"
  after :: "int \<Rightarrow> ('w, unit) state"

text \<open>Durations are in nanoseconds.\<close>

definition rctResolveTimeout :: int where
  "rctResolveTimeout = 10 * 1000000000"

definition rctResolveInterval :: int where
  "rctResolveInterval = 500 * 1000000"

section \<open>resolveRCTName\<close>

definition poll ::
  "'w Client \<Rightarrow> string \<Rightarrow> string \<Rightarrow> ('w, ResolveError, string) io \<Rightarrow> ('w, ResolveError, string) io" where
  "poll c namespace numaNetworkName wait =
     call (ListRCTs c namespace [(LabelNumaNetworkName, numaNetworkName)])
       (\<lambda>err. fail (ListRCTsFailed numaNetworkName err))
       (\<lambda>items.
          if length items = 1 then ok (om_Name (rct_meta (items ! 0)))
          else if length items > 1 then fail (TooManyTemplates numaNetworkName (length items))
          else wait)"

primrec resolve_loop ::
  "'w Client \<Rightarrow> 'w SelectEnv \<Rightarrow> string \<Rightarrow> string \<Rightarrow> int \<Rightarrow> int \<Rightarrow> nat \<Rightarrow> ('w, ResolveError, string) io" where
  "resolve_loop c env ns name timeout interval 0 =
     poll c ns name (fail (NoTemplateFound name timeout))"
| "resolve_loop c env ns name timeout interval (Suc n) =
     poll c ns name (State_Monad.bind (after env interval) (\<lambda>_. resolve_loop c env ns name timeout interval n))"

definition resolveRCTName ::
  "PipelineMutator \<Rightarrow> 'w Client \<Rightarrow> 'w SelectEnv \<Rightarrow> string \<Rightarrow> string \<Rightarrow> ('w, ResolveError, string) io" where
  "resolveRCTName m c env namespace numaNetworkName =
     (let timeout = (if RCTResolveTimeout m = 0 then rctResolveTimeout else RCTResolveTimeout m);
          interval = (if RCTResolveInterval m = 0 then rctResolveInterval else RCTResolveInterval m)
      in State_Monad.bind State_Monad.get
           (\<lambda>w. resolve_loop c env namespace numaNetworkName timeout interval (ticks env timeout interval w)))"

section \<open>injectResourceClaims\<close>

type_synonym inject_map = "(string \<times> string list) list"

text \<open>A \<open>[]any\<close> is nil only when it was nil, or missing, and nothing was appended.\<close>

definition slice_any :: "any option \<Rightarrow> any list \<Rightarrow> any" where
  "slice_any old xs = (if xs = [] \<and> old \<noteq> Some (AArr []) then ANilArr else AArr xs)"

definition claim_name :: "any \<Rightarrow> string option" where
  "claim_name c = (case as_map (Some c) of None \<Rightarrow> None | Some m \<Rightarrow> as_str (map_of m ''name''))"

definition claim_any :: "string \<Rightarrow> any" where
  "claim_any rctName = AMap [(''name'', AStr rctName), (''resourceClaimTemplateName'', AStr rctName)]"

definition inject_claims :: "any list \<Rightarrow> string list \<Rightarrow> any list" where
  "inject_claims existing rctNames =
     (let existingNames = List.map_filter claim_name existing
      in foldl (\<lambda>claims rctName. if rctName \<in> set existingNames then claims else claims @ [claim_any rctName])
           existing rctNames)"

definition inject_vertex :: "inject_map \<Rightarrow> any \<Rightarrow> any" where
  "inject_vertex toInject v =
     (case as_map (Some v) of
        None \<Rightarrow> v
      | Some vertex \<Rightarrow>
          (case map_of toInject (str_field ''name'' vertex) of
             None \<Rightarrow> v
           | Some rctNames \<Rightarrow>
               (let old = map_of vertex ''resourceClaims'';
                    existing = (case as_arr old of Some xs \<Rightarrow> xs | None \<Rightarrow> [])
                in AMap (set_key ''resourceClaims'' (slice_any old (inject_claims existing rctNames)) vertex))))"

definition injectResourceClaims :: "Unstructured \<Rightarrow> inject_map \<Rightarrow> WebhookError + Unstructured" where
  "injectResourceClaims obj toInject =
     (case as_map (map_of obj ''spec'') of
        None \<Rightarrow> Inl SpecIsNotAMap
      | Some spec \<Rightarrow>
          (let old = map_of spec ''vertices'';
               rawVertices = (case as_arr old of Some vs \<Rightarrow> vs | None \<Rightarrow> []);
               vertices = slice_any old (map (inject_vertex toInject) rawVertices)
           in Inr (set_key ''spec'' (AMap (set_key ''vertices'' vertices spec)) obj)))"

section \<open>Handle\<close>

text \<open>The inner loop over the two endpoints of a binding.\<close>

type_synonym queue_state = "inject_map \<times> inject_map"

definition queue_vertex :: "string \<Rightarrow> queue_state \<Rightarrow> string \<Rightarrow> queue_state" where
  "queue_vertex rctName st vertexName =
     (case st of (toInject, queued) \<Rightarrow>
        (let queued = (case map_of queued vertexName of
                         None \<Rightarrow> AList.update vertexName [] queued | Some _ \<Rightarrow> queued);
             names = the (map_of queued vertexName)
         in if rctName \<in> set names then (toInject, queued)
            else (AList.update vertexName
                    ((case map_of toInject vertexName of None \<Rightarrow> [] | Some xs \<Rightarrow> xs) @ [rctName]) toInject,
                  AList.update vertexName (rctName # names) queued)))"

fun collect ::
  "(string \<Rightarrow> ('w, ResolveError, string) io) \<Rightarrow> EdgeNumaNetworkBinding list \<Rightarrow> (string \<times> string) list \<Rightarrow>
     queue_state \<Rightarrow> ('w, ResolveError, inject_map) io" where
  "collect resolve [] resolved (toInject, queued) = ok toInject"
| "collect resolve (b # bs) resolved st =
     (if ConnectionType b \<noteq> ConnectionTypeDirect then collect resolve bs resolved st
      else
        (case map_of resolved (NumaNetworkName b) of
           Some rctName \<Rightarrow> collect resolve bs resolved (foldl (queue_vertex rctName) st [From b, To b])
         | None \<Rightarrow>
             call (resolve (NumaNetworkName b)) fail
               (\<lambda>rctName. collect resolve bs (AList.update (NumaNetworkName b) rctName resolved)
                  (foldl (queue_vertex rctName) st [From b, To b]))))"

definition Handle ::
  "PipelineMutator \<Rightarrow> 'w Client \<Rightarrow> 'w SelectEnv \<Rightarrow> UnstructuredLib \<Rightarrow> Request \<Rightarrow> ('w, Response) state" where
  "Handle m c env lib req =
     (case us_Unmarshal lib (Object_Raw req) of
        Inl err \<Rightarrow> respond (Errored 400 (DecodePipeline err))
      | Inr obj \<Rightarrow>
          (case GetAnnotations lib obj AnnotationNumaNetworkEdges of
             None \<Rightarrow> respond (Allowed ''no numa-network-edges annotation'')
           | Some rawBinding \<Rightarrow>
               (case ParseBindings rawBinding of
                  Inl err \<Rightarrow> respond (Allowed ''parse error deferred to validating webhook'')
                | Inr bindings \<Rightarrow>
                    call (collect (resolveRCTName m c env (req_Namespace req)) bindings [] ([], []))
                      (\<lambda>err. respond (Errored 422 (ResolveRCT err)))
                      (\<lambda>toInject.
                         if toInject = [] then respond (Allowed ''no direct bindings to inject'')
                         else
                           (case injectResourceClaims obj toInject of
                              Inl err \<Rightarrow> respond (Errored 500 err)
                            | Inr obj' \<Rightarrow>
                                (case us_Marshal lib obj' of
                                   Inl err \<Rightarrow> respond (Errored 500 (MarshalPatchedPipeline err))
                                 | Inr patched \<Rightarrow> respond (PatchResponseFromRaw (Object_Raw req) patched)))))))"

section \<open>Polling\<close>

lemma run_poll:
  "run_state (poll c ns name wait) w =
     (case run_state (ListRCTs c ns [(LabelNumaNetworkName, name)]) w of
        (Inl e, w') \<Rightarrow> (Inl (ListRCTsFailed name e), w')
      | (Inr [], w') \<Rightarrow> run_state wait w'
      | (Inr [t], w') \<Rightarrow> (Inr (om_Name (rct_meta t)), w')
      | (Inr ts, w') \<Rightarrow> (Inl (TooManyTemplates name (length ts)), w'))"
  by (auto simp: poll_def run_call split: prod.split sum.split list.split)

text \<open>The world in which the \<open>k\<close>-th list call is made, when the calls before it found nothing.\<close>

primrec poll_world :: "'w Client \<Rightarrow> 'w SelectEnv \<Rightarrow> string \<Rightarrow> string \<Rightarrow> int \<Rightarrow> nat \<Rightarrow> 'w \<Rightarrow> 'w" where
  "poll_world c env ns name interval 0 w = w"
| "poll_world c env ns name interval (Suc k) w =
     poll_world c env ns name interval k
       (snd (run_state (after env interval) (snd (run_state (ListRCTs c ns [(LabelNumaNetworkName, name)]) w))))"

lemma resolve_loop_found:
  assumes "k \<le> n"
    and "\<And>j. j < k \<Longrightarrow> fst (run_state (ListRCTs c ns [(LabelNumaNetworkName, name)]) (poll_world c env ns name interval j w)) = Inr []"
    and "run_state (ListRCTs c ns [(LabelNumaNetworkName, name)]) (poll_world c env ns name interval k w) = (Inr [t], w')"
  shows "run_state (resolve_loop c env ns name timeout interval n) w = (Inr (om_Name (rct_meta t)), w')"
  using assms
proof (induction k arbitrary: n w)
  case 0
  then show ?case by (cases n) (simp_all add: run_poll)
next
  case (Suc k)
  then obtain m where n: "n = Suc m" "k \<le> m" by (cases n) auto
  obtain w1 where l: "run_state (ListRCTs c ns [(LabelNumaNetworkName, name)]) w = (Inr [], w1)"
    using Suc.prems(2) [of 0] by (metis poll_world.simps(1) prod.collapse zero_less_Suc)
  let ?w = "snd (run_state (after env interval) w1)"
  have "run_state (resolve_loop c env ns name timeout interval m) ?w = (Inr (om_Name (rct_meta t)), w')"
  proof (rule Suc.IH [OF n(2)])
    fix j assume "j < k"
    with Suc.prems(2) [of "Suc j"] l
    show "fst (run_state (ListRCTs c ns [(LabelNumaNetworkName, name)]) (poll_world c env ns name interval j ?w)) = Inr []"
      by simp
  qed (use Suc.prems(3) l in simp)
  with l n show ?case by (auto simp: run_poll split: prod.split)
qed

lemma resolve_loop_timeout:
  assumes "\<And>j. j \<le> n \<Longrightarrow> fst (run_state (ListRCTs c ns [(LabelNumaNetworkName, name)]) (poll_world c env ns name interval j w)) = Inr []"
  shows "run_state (resolve_loop c env ns name timeout interval n) w =
    (Inl (NoTemplateFound name timeout),
     snd (run_state (ListRCTs c ns [(LabelNumaNetworkName, name)]) (poll_world c env ns name interval n w)))"
  using assms
proof (induction n arbitrary: w)
  case 0
  then show ?case using 0 [of 0] by (auto simp: run_poll split: prod.split)
next
  case (Suc n)
  obtain w1 where l: "run_state (ListRCTs c ns [(LabelNumaNetworkName, name)]) w = (Inr [], w1)"
    using Suc.prems [of 0] by (metis poll_world.simps(1) prod.collapse zero_le)
  let ?w = "snd (run_state (after env interval) w1)"
  have "run_state (resolve_loop c env ns name timeout interval n) ?w =
      (Inl (NoTemplateFound name timeout),
       snd (run_state (ListRCTs c ns [(LabelNumaNetworkName, name)]) (poll_world c env ns name interval n ?w)))"
  proof (rule Suc.IH)
    fix j assume "j \<le> n"
    with Suc.prems [of "Suc j"] l
    show "fst (run_state (ListRCTs c ns [(LabelNumaNetworkName, name)]) (poll_world c env ns name interval j ?w)) = Inr []"
      by simp
  qed
  with l show ?case by (auto simp: run_poll split: prod.split)
qed

lemma run_resolveRCTName:
  "run_state (resolveRCTName m c env ns name) w =
     (let timeout = (if RCTResolveTimeout m = 0 then 10000000000 else RCTResolveTimeout m);
          interval = (if RCTResolveInterval m = 0 then 500000000 else RCTResolveInterval m)
      in run_state (resolve_loop c env ns name timeout interval (ticks env timeout interval w)) w)"
  by (simp add: resolveRCTName_def Let_def rctResolveTimeout_def rctResolveInterval_def State_Monad.get_def)

text \<open>C31: when the template of a NumaNetwork is not there yet, \<open>resolveRCTName\<close> goes on asking: if it
  appears by the \<open>k\<close>-th question, within the ticks the deadline leaves, its name is returned.\<close>

theorem resolveRCTName_waits:
  assumes "timeout = (if RCTResolveTimeout m = 0 then 10000000000 else RCTResolveTimeout m)"
    and "interval = (if RCTResolveInterval m = 0 then 500000000 else RCTResolveInterval m)"
    and "k \<le> ticks env timeout interval w"
    and "\<And>j. j < k \<Longrightarrow> fst (run_state (ListRCTs c ns [(LabelNumaNetworkName, name)]) (poll_world c env ns name interval j w)) = Inr []"
    and "run_state (ListRCTs c ns [(LabelNumaNetworkName, name)]) (poll_world c env ns name interval k w) = (Inr [t], w')"
  shows "run_state (resolveRCTName m c env ns name) w = (Inr (om_Name (rct_meta t)), w')"
  using resolve_loop_found [OF assms(3-5), of timeout] assms(1,2) by (simp add: run_resolveRCTName Let_def)

text \<open>C32: when it does not appear before the deadline, the code asks once and then once more after every tick
  that fits, neither more nor less, and ends with the timeout error: the world it leaves is the one after the
  question that follows the last of these ticks.\<close>

theorem resolveRCTName_times_out:
  assumes "timeout = (if RCTResolveTimeout m = 0 then 10000000000 else RCTResolveTimeout m)"
    and "interval = (if RCTResolveInterval m = 0 then 500000000 else RCTResolveInterval m)"
    and "n = ticks env timeout interval w"
    and "\<And>j. j \<le> n \<Longrightarrow>
      fst (run_state (ListRCTs c ns [(LabelNumaNetworkName, name)]) (poll_world c env ns name interval j w)) = Inr []"
  shows "run_state (resolveRCTName m c env ns name) w =
    (Inl (NoTemplateFound name timeout),
     snd (run_state (ListRCTs c ns [(LabelNumaNetworkName, name)]) (poll_world c env ns name interval n w)))"
  using resolve_loop_timeout [of n c ns name env interval w timeout] assms
  by (simp add: run_resolveRCTName Let_def)

section \<open>Injecting claims\<close>

lemma inject_claims_eq:
  "inject_claims existing rctNames =
     existing @ map claim_any (filter (\<lambda>r. r \<notin> set (List.map_filter claim_name existing)) rctNames)"
proof -
  have "foldl (\<lambda>claims r. if r \<in> S then claims else claims @ [claim_any r]) acc rs =
      acc @ map claim_any (filter (\<lambda>r. r \<notin> S) rs)" for S acc rs
    by (induction rs arbitrary: acc) auto
  then show ?thesis by (simp add: inject_claims_def Let_def)
qed

lemma claim_name_claim_any [simp]: "claim_name (claim_any r) = Some r"
  by (simp add: claim_name_def claim_any_def)

lemma map_filter_append: "List.map_filter f (xs @ ys) = List.map_filter f xs @ List.map_filter f ys"
  by (simp add: List.map_filter_def)

lemma map_filter_claims: "List.map_filter claim_name (map claim_any rs) = rs"
  by (induction rs) simp_all

lemma inject_claims_names:
  "set (List.map_filter claim_name (inject_claims existing rs)) = set (List.map_filter claim_name existing) \<union> set rs"
  by (auto simp: inject_claims_eq map_filter_append map_filter_claims)

lemma inject_claims_idem: "inject_claims (inject_claims existing rs) rs = inject_claims existing rs"
  unfolding inject_claims_eq [of "inject_claims existing rs"] inject_claims_names by (simp add: filter_False)

lemma as_arr_slice_any: "as_arr (Some (slice_any old xs)) = Some xs"
  by (simp add: slice_any_def)

lemma set_key_twice: "set_key k v (set_key k u m) = set_key k v m"
  by (induction m) auto

lemma str_field_other: "k \<noteq> k' \<Longrightarrow> str_field k (set_key k' v m) = str_field k m"
  by (simp add: str_field_def)

lemma slice_any_idem: "slice_any (Some (slice_any old xs)) xs = slice_any old xs"
  by (auto simp: slice_any_def)

lemma inject_vertex_idem: "inject_vertex ti (inject_vertex ti v) = inject_vertex ti v"
proof (cases "as_map (Some v)")
  case None
  then show ?thesis by (simp add: inject_vertex_def)
next
  case (Some m)
  then have v: "v = AMap m" by (cases v) auto
  show ?thesis
  proof (cases "map_of ti (str_field ''name'' m)")
    case None
    then show ?thesis by (simp add: inject_vertex_def v)
  next
    case (Some rs)
    then show ?thesis
      by (simp add: inject_vertex_def v Let_def str_field_other as_arr_slice_any inject_claims_idem slice_any_idem set_key_twice)
  qed
qed

text \<open>C33: injecting is idempotent: the webhook run on its own output changes nothing.\<close>

theorem injectResourceClaims_idempotent:
  assumes "injectResourceClaims obj toInject = Inr obj'"
  shows "injectResourceClaims obj' toInject = Inr obj'"
proof -
  obtain spec where s: "as_map (map_of obj ''spec'') = Some spec"
    using assms by (auto simp: injectResourceClaims_def split: option.splits)
  let ?old = "map_of spec ''vertices''" 
  let ?vs = "case as_arr ?old of Some vs \<Rightarrow> vs | None \<Rightarrow> []"
  let ?vs' = "map (inject_vertex toInject) ?vs"
  have o: "obj' = set_key ''spec'' (AMap (set_key ''vertices'' (slice_any ?old ?vs') spec)) obj"
    using assms s by (simp add: injectResourceClaims_def Let_def)
  have "map (inject_vertex toInject) ?vs' = ?vs'" by (simp add: inject_vertex_idem)
  then show ?thesis unfolding o
    by (simp add: injectResourceClaims_def Let_def as_arr_slice_any slice_any_idem set_key_twice del: map_map)
qed

text \<open>How a vertex may change: one that no binding names is untouched; in one that is named, only
  \<open>resourceClaims\<close> changes, the existing claims stay in front and one claim is added for each wanted
  template that is not named yet.\<close>

definition vertex_injected :: "inject_map \<Rightarrow> any \<Rightarrow> any \<Rightarrow> bool" where
  "vertex_injected toInject v v' \<longleftrightarrow>
     (case as_map (Some v) of
        None \<Rightarrow> v' = v
      | Some m \<Rightarrow>
          (case map_of toInject (str_field ''name'' m) of
             None \<Rightarrow> v' = v
           | Some rs \<Rightarrow>
               (\<exists>m' existing. v' = AMap m' \<and> (\<forall>k. k \<noteq> ''resourceClaims'' \<longrightarrow> map_of m' k = map_of m k) \<and>
                  existing = (case as_arr (map_of m ''resourceClaims'') of Some xs \<Rightarrow> xs | None \<Rightarrow> []) \<and>
                  as_arr (map_of m' ''resourceClaims'') = Some (existing @ map claim_any
                    (filter (\<lambda>r. r \<notin> set (List.map_filter claim_name existing)) rs)))))"

lemma inject_vertex_injected: "vertex_injected toInject v (inject_vertex toInject v)"
  by (simp add: vertex_injected_def inject_vertex_def Let_def as_arr_slice_any inject_claims_eq split: option.split)

text \<open>C12: what injection changes.  Keys of the object other than \<open>spec\<close> and keys of the spec other than
  \<open>vertices\<close> are kept, the vertices keep their number and order, and each changes only as
  \<open>vertex_injected\<close> allows.\<close>

theorem injectResourceClaims_effect:
  assumes "injectResourceClaims obj toInject = Inr obj'"
    and "map_of obj ''spec'' = Some (AMap spec)" "map_of spec ''vertices'' = Some (AArr vs)"
  shows "\<exists>spec' vs'. map_of obj' ''spec'' = Some (AMap spec') \<and> map_of spec' ''vertices'' = Some (AArr vs') \<and>
    (\<forall>k. k \<noteq> ''spec'' \<longrightarrow> map_of obj' k = map_of obj k) \<and>
    (\<forall>k. k \<noteq> ''vertices'' \<longrightarrow> map_of spec' k = map_of spec k) \<and>
    list_all2 (vertex_injected toInject) vs vs'"
proof -
  let ?vs' = "map (inject_vertex toInject) vs"
  have "slice_any (Some (AArr vs)) ?vs' = AArr ?vs'" by (auto simp: slice_any_def)
  then have o: "obj' = set_key ''spec'' (AMap (set_key ''vertices'' (AArr ?vs') spec)) obj"
    using assms by (simp add: injectResourceClaims_def Let_def)
  have "list_all2 (vertex_injected toInject) vs ?vs'"
    by (simp add: list.rel_map inject_vertex_injected list.rel_refl)
  then show ?thesis
    by (intro exI [of _ "set_key ''vertices'' (AArr ?vs') spec"] exI [of _ ?vs']) (simp add: o)
qed

section \<open>Collecting what to inject\<close>

text \<open>The reference: for each vertex, the templates of its direct bindings, in order, without
  repetition.\<close>

definition add_once :: "string list \<Rightarrow> string \<Rightarrow> string list" where
  "add_once xs x = (if x \<in> set xs then xs else xs @ [x])"

definition wanted :: "(string \<Rightarrow> string) \<Rightarrow> EdgeNumaNetworkBinding list \<Rightarrow> string \<Rightarrow> string list" where
  "wanted rct bs v = concat (map (\<lambda>b. if ConnectionType b = ConnectionTypeDirect
     then (if From b = v then [rct (NumaNetworkName b)] else []) @ (if To b = v then [rct (NumaNetworkName b)] else [])
     else []) bs)"

definition add_wanted :: "string list option \<Rightarrow> string list \<Rightarrow> string list option" where
  "add_wanted old ns = (if ns = [] then old else Some (foldl add_once (case old of None \<Rightarrow> [] | Some xs \<Rightarrow> xs) ns))"

lemma add_wanted_append: "add_wanted old (xs @ ys) = add_wanted (add_wanted old xs) ys"
  by (auto simp: add_wanted_def)

lemma add_wanted_Nil [simp]: "add_wanted old [] = old"
  by (simp add: add_wanted_def)

lemma wanted_Cons:
  "wanted rct (b # bs) v = (if ConnectionType b = ConnectionTypeDirect
     then (if From b = v then [rct (NumaNetworkName b)] else []) @ (if To b = v then [rct (NumaNetworkName b)] else [])
     else []) @ wanted rct bs v"
  by (simp add: wanted_def)

text \<open>\<open>queued\<close> holds for every vertex the names of \<open>toInject\<close>.\<close>

definition queue_inv :: "queue_state \<Rightarrow> bool" where
  "queue_inv st \<longleftrightarrow> (\<forall>v. case map_of (snd st) v of
      None \<Rightarrow> map_of (fst st) v = None
    | Some ns \<Rightarrow> set ns = set (case map_of (fst st) v of None \<Rightarrow> [] | Some xs \<Rightarrow> xs))"

lemma queue_vertex_effect:
  assumes "queue_inv st"
  shows "queue_inv (queue_vertex r st v)"
    and "map_of (fst (queue_vertex r st v)) = (map_of (fst st))(v := add_wanted (map_of (fst st) v) [r])"
proof -
  obtain ti q where st: "st = (ti, q)" by (cases st)
  have inv: "case map_of q x of None \<Rightarrow> map_of ti x = None
    | Some ns \<Rightarrow> set ns = set (case map_of ti x of None \<Rightarrow> [] | Some xs \<Rightarrow> xs)" for x
    using assms unfolding queue_inv_def st fst_conv snd_conv by blast
  show "queue_inv (queue_vertex r st v)"
    unfolding queue_inv_def
  proof
    fix x
    show "case map_of (snd (queue_vertex r st v)) x of
        None \<Rightarrow> map_of (fst (queue_vertex r st v)) x = None
      | Some ns \<Rightarrow> set ns = set (case map_of (fst (queue_vertex r st v)) x of None \<Rightarrow> [] | Some xs \<Rightarrow> xs)"
      using inv [of v] inv [of x]
      by (auto simp: queue_vertex_def st Let_def update_conv' split: option.splits if_splits)
  qed
  show "map_of (fst (queue_vertex r st v)) = (map_of (fst st))(v := add_wanted (map_of (fst st) v) [r])"
    using inv [of v]
    by (auto simp: queue_vertex_def st Let_def update_conv' add_wanted_def add_once_def split: option.splits)
qed

lemma queue_binding_effect:
  assumes "queue_inv st"
  shows "queue_inv (foldl (queue_vertex r) st [a, b])"
    and "map_of (fst (foldl (queue_vertex r) st [a, b])) v =
      add_wanted (map_of (fst st) v) ((if a = v then [r] else []) @ (if b = v then [r] else []))"
  using queue_vertex_effect [OF assms, of r a] queue_vertex_effect [of "queue_vertex r st a" r b]
  by (auto simp: add_wanted_append)

lemma queued_binding:
  assumes "queue_inv st" "ConnectionType b = ConnectionTypeDirect" "rct (NumaNetworkName b) = r"
    and "\<forall>v. map_of ti v = add_wanted (map_of (fst (foldl (queue_vertex r) st [From b, To b])) v) (wanted rct bs v)"
  shows "\<forall>v. map_of ti v = add_wanted (map_of (fst st) v) (wanted rct (b # bs) v)"
  unfolding wanted_Cons add_wanted_append
  using assms(2-4) queue_binding_effect(2) [OF assms(1), of r "From b" "To b"] by (simp add: add_wanted_append)

text \<open>The reference for the whole loop: every NumaNetwork of a direct binding is resolved once, in the order of its
  first binding, and the first failure ends it.\<close>

primrec resolve_all ::
  "(string \<Rightarrow> ('w, 'e, string) io) \<Rightarrow> string list \<Rightarrow> ('w, 'e, (string \<times> string) list) io" where
  "resolve_all resolve [] = ok []"
| "resolve_all resolve (n # ns) =
     call (resolve n) fail (\<lambda>r. call (resolve_all resolve ns) fail (\<lambda>rs. ok ((n, r) # rs)))"

definition direct_networks :: "EdgeNumaNetworkBinding list \<Rightarrow> string list" where
  "direct_networks bs = foldl add_once [] (map NumaNetworkName (filter (\<lambda>b. ConnectionType b = ''direct'') bs))"

definition direct_endpoints :: "EdgeNumaNetworkBinding list \<Rightarrow> string list" where
  "direct_endpoints bs = concat (map (\<lambda>b. [From b, To b]) (filter (\<lambda>b. ConnectionType b = ''direct'') bs))"

text \<open>What the resolved names make of the bindings: every endpoint with the templates it wants.\<close>

definition wanted_claims :: "(string \<times> string) list \<Rightarrow> EdgeNumaNetworkBinding list \<Rightarrow> inject_map" where
  "wanted_claims rcts bs =
     map (\<lambda>v. (v, foldl add_once [] (wanted (\<lambda>n. the (map_of rcts n)) bs v))) (direct_endpoints bs)"

primrec fresh_networks :: "string set \<Rightarrow> EdgeNumaNetworkBinding list \<Rightarrow> string list" where
  "fresh_networks seen [] = []"
| "fresh_networks seen (b # bs) =
     (if ConnectionType b = ConnectionTypeDirect \<and> NumaNetworkName b \<notin> seen
      then NumaNetworkName b # fresh_networks (insert (NumaNetworkName b) seen) bs else fresh_networks seen bs)"

lemma direct_networks_fresh: "direct_networks bs = fresh_networks {} bs"
proof -
  have "foldl add_once acc (map NumaNetworkName (filter (\<lambda>b. ConnectionType b = ''direct'') bs)) =
      acc @ fresh_networks (set acc) bs" for acc
    by (induction bs arbitrary: acc) (simp_all add: add_once_def ConnectionTypeDirect_def)
  from this [of "[]"] show ?thesis by (simp add: direct_networks_def)
qed

lemma direct_networks_empty: "direct_networks bs = [] \<longleftrightarrow> direct_endpoints bs = []"
  unfolding direct_networks_fresh direct_endpoints_def by (induction bs) (auto simp: ConnectionTypeDirect_def filter_empty_conv)

lemma wanted_endpoints: "wanted rct bs v = [] \<longleftrightarrow> v \<notin> set (direct_endpoints bs)"
  unfolding wanted_def direct_endpoints_def ConnectionTypeDirect_def by (induction bs) auto

lemma map_of_wanted_claims:
  "map_of (wanted_claims rcts bs) v = add_wanted None (wanted (\<lambda>n. the (map_of rcts n)) bs v)"
proof -
  have "map_of (map (\<lambda>v. (v, f v)) vs) v = (if v \<in> set vs then Some (f v) else None)" for f :: "string \<Rightarrow> string list" and vs
    by (induction vs) auto
  then show ?thesis
    by (simp add: wanted_claims_def add_wanted_def wanted_endpoints)
qed

text \<open>A run of \<open>collect\<close> against the run of the reference: the same failure, or the same final world and
  every vertex with what it wants.\<close>

definition collected ::
  "queue_state \<Rightarrow> (string \<times> string) list \<Rightarrow> EdgeNumaNetworkBinding list \<Rightarrow>
     ('e + (string \<times> string) list) \<times> 'w \<Rightarrow> ('e + inject_map) \<times> 'w \<Rightarrow> bool" where
  "collected st resolved bs each run \<longleftrightarrow>
     (case each of
        (Inl e, w') \<Rightarrow> run = (Inl e, w')
      | (Inr rs, w') \<Rightarrow> \<exists>ti. run = (Inr ti, w') \<and>
          (\<forall>v. map_of ti v = add_wanted (map_of (fst st) v) (wanted (\<lambda>n. the (map_of (resolved @ rs) n)) bs v)))"

lemma collected_skip:
  "ConnectionType b \<noteq> ConnectionTypeDirect \<Longrightarrow> collected st resolved (b # bs) each run = collected st resolved bs each run"
  by (simp add: collected_def wanted_Cons split: prod.split sum.split)

lemma collected_known:
  assumes "queue_inv st" "ConnectionType b = ConnectionTypeDirect" "map_of resolved (NumaNetworkName b) = Some r"
    and "collected (foldl (queue_vertex r) st [From b, To b]) resolved bs each run"
  shows "collected st resolved (b # bs) each run"
proof (cases "fst each")
  case (Inl e)
  with assms(4) show ?thesis unfolding collected_def by (cases each) simp
next
  case (Inr rs)
  have r: "the (map_of (resolved @ rs) (NumaNetworkName b)) = r" using assms(3) by (simp add: map_add_def)
  from assms(4) Inr obtain ti where "run = (Inr ti, snd each)"
    "\<forall>v. map_of ti v = add_wanted (map_of (fst (foldl (queue_vertex r) st [From b, To b])) v)
       (wanted (\<lambda>n. the (map_of (resolved @ rs) n)) bs v)"
    unfolding collected_def by (cases each) (simp del: foldl_Cons map_of_append, blast)
  with queued_binding [OF assms(1,2) r this(2)] Inr show ?thesis
    unfolding collected_def by (cases each) (simp del: map_of_append)
qed

lemma collected_new:
  assumes "queue_inv st" "ConnectionType b = ConnectionTypeDirect" "map_of resolved (NumaNetworkName b) = None"
    and "collected (foldl (queue_vertex r) st [From b, To b]) (AList.update (NumaNetworkName b) r resolved) bs each run"
  shows "collected st resolved (b # bs)
    (case each of (Inl e, w') \<Rightarrow> (Inl e, w') | (Inr rs, w') \<Rightarrow> (Inr ((NumaNetworkName b, r) # rs), w')) run"
proof (cases "fst each")
  case (Inl e)
  with assms(4) show ?thesis unfolding collected_def by (cases each) simp
next
  case (Inr rs)
  let ?n = "NumaNetworkName b"
  have m: "map_of (AList.update ?n r resolved @ rs) = map_of (resolved @ (?n, r) # rs)"
    using assms(3) by (auto simp: update_conv' map_add_def split: option.split)
  have r: "the (map_of (resolved @ (?n, r) # rs) ?n) = r" using assms(3) by (simp add: map_add_def)
  from assms(4) Inr obtain ti where "run = (Inr ti, snd each)"
    "\<forall>v. map_of ti v = add_wanted (map_of (fst (foldl (queue_vertex r) st [From b, To b])) v)
       (wanted (\<lambda>n. the (map_of (resolved @ (?n, r) # rs) n)) bs v)"
    unfolding collected_def m [symmetric] by (cases each) (simp del: foldl_Cons map_of_append, blast)
  with queued_binding [OF assms(1,2) r this(2)] Inr show ?thesis
    unfolding collected_def by (cases each) (simp del: map_of_append)
qed

lemma collect_behaviour:
  assumes "queue_inv st"
  shows "collected st resolved bs (run_state (resolve_all resolve (fresh_networks (dom (map_of resolved)) bs)) w)
    (run_state (collect resolve bs resolved st) w)"
  using assms
proof (induction resolve bs resolved st arbitrary: w rule: collect.induct)
  case (1 resolve resolved toInject queued)
  then show ?case by (simp add: collected_def wanted_def)
next
  case (2 resolve b bs resolved st)
  let ?n = "NumaNetworkName b"
  consider (skip) "ConnectionType b \<noteq> ConnectionTypeDirect"
    | (known) r where "ConnectionType b = ConnectionTypeDirect" "map_of resolved ?n = Some r"
    | (new) "ConnectionType b = ConnectionTypeDirect" "map_of resolved ?n = None" by (meson not_None_eq)
  then show ?case
  proof cases
    case skip
    with 2(1) [OF skip 2(4), of w] show ?thesis by (simp add: collected_skip)
  next
    case known
    have "run_state (collect resolve (b # bs) resolved st) w =
        run_state (collect resolve bs resolved (foldl (queue_vertex r) st [From b, To b])) w"
      "fresh_networks (dom (map_of resolved)) (b # bs) = fresh_networks (dom (map_of resolved)) bs"
      using known by auto
    with collected_known [OF 2(4) known 2(3) [OF _ known(2) queue_binding_effect(1) [OF 2(4)]]] known(1)
    show ?thesis by metis
  next
    case new
    obtain x w1 where x: "run_state (resolve ?n) w = (x, w1)" by fastforce
    show ?thesis
    proof (cases x)
      case (Inl e)
      with x new show ?thesis by (simp add: collected_def domIff)
    next
      case (Inr r)
      let ?res = "AList.update ?n r resolved"
      have run: "run_state (collect resolve (b # bs) resolved st) w =
          run_state (collect resolve bs ?res (foldl (queue_vertex r) st [From b, To b])) w1"
        using new x Inr by simp
      have each: "run_state (resolve_all resolve (fresh_networks (dom (map_of resolved)) (b # bs))) w =
          (case run_state (resolve_all resolve (fresh_networks (dom (map_of ?res)) bs)) w1 of
             (Inl e, w') \<Rightarrow> (Inl e, w') | (Inr rs, w') \<Rightarrow> (Inr ((?n, r) # rs), w'))"
        using new x Inr by (simp add: domIff update_conv' run_call split: prod.split sum.split)
      show ?thesis unfolding run each
        by (rule collected_new [OF 2(4) new 2(2) [OF _ new(2) queue_binding_effect(1) [OF 2(4)]]]) (simp add: new(1))
    qed
  qed
qed

text \<open>Only the lookups in \<open>toInject\<close> matter.\<close>

lemma injectResourceClaims_cong:
  assumes "map_of ti = map_of ti'"
  shows "injectResourceClaims obj ti = injectResourceClaims obj ti'"
proof -
  have "inject_vertex ti = inject_vertex ti'" by (rule ext) (simp add: inject_vertex_def assms split: option.split)
  then show ?thesis by (simp add: injectResourceClaims_def Let_def split: option.split)
qed

text \<open>C7: what the webhook answers to a Pipeline whose annotation parses, on every branch.  The NumaNetworks of
  the direct bindings are resolved in the request's namespace, each once and in the order of the bindings, and the
  first one that does not resolve refuses the Pipeline with status 422.  Without direct bindings the Pipeline is
  admitted as it is.  Otherwise every vertex that is an endpoint of direct bindings gets the claims of their
  templates, in the order of the bindings and without repetition, and the Pipeline with these claims is
  the patch; a spec that is no object and a failing encoder are answered with status 500.\<close>

theorem mutator_patch:
  assumes "us_Unmarshal lib (Object_Raw req) = Inr obj"
    and "GetAnnotations lib obj AnnotationNumaNetworkEdges = Some val" "ParseBindings val = Inr bindings"
  shows "run_state (Handle m c env lib req) w =
    (case run_state (resolve_all (resolveRCTName m c env (req_Namespace req)) (direct_networks bindings)) w of
       (Inl err, w') \<Rightarrow> (Errored 422 (ResolveRCT err), w')
     | (Inr rcts, w') \<Rightarrow>
         (if direct_networks bindings = [] then Allowed ''no direct bindings to inject''
          else case injectResourceClaims obj (wanted_claims rcts bindings) of
             Inl err \<Rightarrow> Errored 500 err
           | Inr obj' \<Rightarrow>
               (case us_Marshal lib obj' of
                  Inl err \<Rightarrow> Errored 500 (MarshalPatchedPipeline err)
                | Inr patched \<Rightarrow> PatchResponseFromRaw (Object_Raw req) patched), w'))"
proof -
  let ?resolve = "resolveRCTName m c env (req_Namespace req)"
  have inv: "queue_inv ([], [])" by (simp add: queue_inv_def)
  obtain x w' where x: "run_state (resolve_all ?resolve (direct_networks bindings)) w = (x, w')" by fastforce
  have each: "run_state (resolve_all ?resolve (fresh_networks (dom (map_of [])) bindings)) w = (x, w')"
    using x by (simp add: direct_networks_fresh)
  show ?thesis
  proof (cases x)
    case (Inl e)
    with collect_behaviour [OF inv, of "[]" bindings ?resolve w] each
    have "run_state (collect ?resolve bindings [] ([], [])) w = (Inl e, w')" by (simp add: collected_def)
    with x Inl assms show ?thesis by (simp add: Handle_def)
  next
    case (Inr rcts)
    with collect_behaviour [OF inv, of "[]" bindings ?resolve w] each obtain ti where
      ti: "run_state (collect ?resolve bindings [] ([], [])) w = (Inr ti, w')"
      "\<And>v. map_of ti v = add_wanted None (wanted (\<lambda>n. the (map_of rcts n)) bindings v)" by (auto simp: collected_def)
    have "map_of ti = map_of (wanted_claims rcts bindings)" by (rule ext) (simp add: ti(2) map_of_wanted_claims)
    note same = injectResourceClaims_cong [OF this, of obj]
    have "ti = [] \<longleftrightarrow> wanted_claims rcts bindings = []"
      using \<open>map_of ti = _\<close> by (metis map_of_eq_empty_iff)
    then have "ti = [] \<longleftrightarrow> direct_networks bindings = []"
      by (simp add: direct_networks_empty wanted_claims_def)
    with x Inr ti(1) same assms show ?thesis by (simp add: Handle_def split: sum.split)
  qed
qed

text \<open>Pipelines without the annotation, with an annotation that does not parse, or without direct
  bindings are left as they are, and no template is looked up for them.\<close>

theorem mutator_leaves_alone:
  assumes "us_Unmarshal lib (Object_Raw req) = Inr obj"
    and "case GetAnnotations lib obj AnnotationNumaNetworkEdges of None \<Rightarrow> True
      | Some val \<Rightarrow> (case ParseBindings val of Inl e \<Rightarrow> True
          | Inr bs \<Rightarrow> list_all (\<lambda>b. ConnectionType b \<noteq> ''direct'') bs)"
  shows "\<exists>msg. run_state (Handle m c env lib req) w = (Allowed msg, w)"
proof -
  have "run_state (collect resolve bs res ([], [])) w = (Inr [], w)"
    if "list_all (\<lambda>b. ConnectionType b \<noteq> ''direct'') bs" for resolve bs res
    using that by (induction bs) (simp_all add: ConnectionTypeDirect_def)
  then show ?thesis using assms unfolding Handle_def by (auto split: option.splits sum.splits)
qed

section \<open>Examples\<close>

text \<open>A template that appears in the cluster during the first wait.\<close>

definition example_template :: ResourceClaimTemplate where
  "example_template =
     \<lparr>rct_meta = empty_meta\<lparr>om_Name := ''n-rct'', om_Namespace := ''ns'', om_Labels := [LabelNumaNetworkName \<mapsto> ''n'']\<rparr>,
      rct_Spec = \<lparr>rcts_Labels = Map.empty, rcts_Requests = [], rcts_Config = []\<rparr>\<rparr>"

definition late_cluster :: cluster where
  "late_cluster = empty_cluster\<lparr>cl_rcts := [((''ns'', ''n-rct''), example_template)]\<rparr>"

definition example_env :: "cluster SelectEnv" where
  "example_env = \<lparr>ticks = (\<lambda>_ _ _. 20), after = (\<lambda>_. State (\<lambda>_. ((), late_cluster)))\<rparr>"

definition idle_env :: "cluster SelectEnv" where
  "idle_env = \<lparr>ticks = (\<lambda>_ _ _. 2), after = (\<lambda>_. State (\<lambda>w. ((), w)))\<rparr>"

definition default_mutator :: PipelineMutator where
  "default_mutator = \<lparr>RCTResolveTimeout = 0, RCTResolveInterval = 0\<rparr>"

lemma example_lists:
  "run_state (ListRCTs cluster_client ''ns'' [(LabelNumaNetworkName, ''n'')]) empty_cluster = (Inr [], empty_cluster)"
  "run_state (ListRCTs cluster_client ''ns'' [(LabelNumaNetworkName, ''n'')]) late_cluster = (Inr [example_template], late_cluster)"
  by (simp_all add: cluster_client_def api_list_def empty_cluster_def late_cluster_def example_template_def empty_meta_def)

theorem resolveRCTName_waits_witness:
  "run_state (resolveRCTName default_mutator cluster_client example_env ''ns'' ''n'') empty_cluster = (Inr ''n-rct'', late_cluster)"
  using resolveRCTName_waits [where m = default_mutator and c = cluster_client and env = example_env and ns = "''ns''" and
      name = "''n''" and k = 1 and w = empty_cluster and t = example_template and w' = late_cluster, OF refl refl]
  by (simp add: example_lists) (simp add: default_mutator_def example_env_def example_lists, simp add: example_template_def empty_meta_def)

text \<open>A world that counts the questions, in an API server that finds nothing, and 20 ticks before the deadline.\<close>

definition counting_client :: "nat Client" where
  "counting_client = stub_client\<lparr>ListRCTs := (\<lambda>_ _. State (\<lambda>w. (Inr [], Suc w)))\<rparr>"

definition counting_env :: "nat SelectEnv" where
  "counting_env = \<lparr>ticks = (\<lambda>timeout interval _. nat (timeout div interval)), after = (\<lambda>_. State (\<lambda>w. ((), w)))\<rparr>"

theorem resolveRCTName_times_out_witness:
  "run_state (resolveRCTName default_mutator counting_client counting_env ''ns'' ''n'') 0 =
     (Inl (NoTemplateFound ''n'' 10000000000), 21)"
proof -
  have "poll_world counting_client counting_env ''ns'' ''n'' i j w = w + j" for i j w
    by (induction j arbitrary: w) (simp_all add: counting_client_def counting_env_def)
  then show ?thesis
    using resolveRCTName_times_out [where m = default_mutator and c = counting_client and env = counting_env and ns = "''ns''" and
        name = "''n''" and w = 0 and n = 20, OF refl refl]
    by (simp add: default_mutator_def counting_client_def counting_env_def)
qed

text \<open>A Pipeline with one vertex that has a claim already.\<close>

definition example_pipeline :: "any list \<Rightarrow> Unstructured" where
  "example_pipeline claims = [(''spec'', AMap [(''vertices'',
     AArr [AMap [(''name'', AStr ''a''), (''resourceClaims'', AArr claims)]])])]"

lemma example_inject:
  "injectResourceClaims (example_pipeline [claim_any ''old'']) [(''a'', [''n-rct''])] =
     Inr (example_pipeline [claim_any ''old'', claim_any ''n-rct''])"
  by code_simp

theorem injectResourceClaims_idempotent_witness:
  "injectResourceClaims (example_pipeline [claim_any ''old'', claim_any ''n-rct'']) [(''a'', [''n-rct''])] =
     Inr (example_pipeline [claim_any ''old'', claim_any ''n-rct''])"
  by (rule injectResourceClaims_idempotent [OF example_inject])

theorem injectResourceClaims_effect_witness:
  "\<exists>spec' vs'. map_of (example_pipeline [claim_any ''old'', claim_any ''n-rct'']) ''spec'' = Some (AMap spec') \<and>
     map_of spec' ''vertices'' = Some (AArr vs') \<and>
     list_all2 (vertex_injected [(''a'', [''n-rct''])])
       [AMap [(''name'', AStr ''a''), (''resourceClaims'', AArr [claim_any ''old''])]] vs'"
  using injectResourceClaims_effect [OF example_inject,
      where spec = "[(''vertices'', AArr [AMap [(''name'', AStr ''a''), (''resourceClaims'', AArr [claim_any ''old''])]])]" and
        vs = "[AMap [(''name'', AStr ''a''), (''resourceClaims'', AArr [claim_any ''old''])]]"]
  by (auto simp: example_pipeline_def)

definition example_bindings :: "EdgeNumaNetworkBinding list" where
  "example_bindings = [\<lparr>From = ''a'', To = ''b'', NumaNetworkName = ''n'', ConnectionType = ''direct''\<rparr>]"

definition example_mutator_lib :: UnstructuredLib where
  "example_mutator_lib = example_lib [(''doc'', example_pipeline [])]
     [AnnotationNumaNetworkEdges \<mapsto> Marshal (JArr (map binding_json example_bindings))] None"

lemma example_parse: "ParseBindings (Marshal (JArr (map binding_json example_bindings))) = Inr example_bindings"
  by (rule ParseBindings_Marshal) (simp add: example_bindings_def ascii_binding_def)

lemma example_resolve:
  "run_state (resolveRCTName default_mutator cluster_client idle_env ''ns'' ''n'') late_cluster = (Inr ''n-rct'', late_cluster)"
  by (simp add: run_resolveRCTName idle_env_def default_mutator_def numeral_2_eq_2 run_poll example_lists)
     (simp add: example_template_def empty_meta_def)

lemma example_collect:
  "run_state (collect (resolveRCTName default_mutator cluster_client idle_env ''ns'') example_bindings [] ([], [])) late_cluster =
     (Inr [(''a'', [''n-rct'']), (''b'', [''n-rct''])], late_cluster)"
  by (simp add: example_bindings_def ConnectionTypeDirect_def example_resolve queue_vertex_def)

lemma example_each:
  "run_state (resolve_all (resolveRCTName default_mutator cluster_client idle_env ''ns'') (direct_networks example_bindings)) late_cluster =
     (Inr [(''n'', ''n-rct'')], late_cluster)"
  by (simp add: direct_networks_def example_bindings_def add_once_def example_resolve)

text \<open>The vertex \<open>a\<close> gets the claim for the template of \<open>n\<close>, and the Pipeline with it is the patch.\<close>

theorem mutator_patch_witness:
  "run_state (Handle default_mutator cluster_client idle_env
       (example_mutator_lib\<lparr>us_Marshal := (\<lambda>obj. if obj = example_pipeline [claim_any ''n-rct''] then Inr ''patched'' else Inl ''unused'')\<rparr>)
       \<lparr>Object_Raw = ''doc'', req_Namespace = ''ns''\<rparr>) late_cluster =
     (PatchResponseFromRaw ''doc'' ''patched'', late_cluster)"
proof -
  let ?lib = "example_mutator_lib\<lparr>us_Marshal := (\<lambda>obj. if obj = example_pipeline [claim_any ''n-rct''] then Inr ''patched'' else Inl ''unused'')\<rparr>"
  have claims: "injectResourceClaims (example_pipeline []) (wanted_claims [(''n'', ''n-rct'')] example_bindings) =
      Inr (example_pipeline [claim_any ''n-rct''])" by code_simp
  have some: "direct_networks example_bindings \<noteq> []" by code_simp
  have "us_Unmarshal ?lib ''doc'' = Inr (example_pipeline [])"
    "GetAnnotations ?lib (example_pipeline []) AnnotationNumaNetworkEdges = Some (Marshal (JArr (map binding_json example_bindings)))"
    by (simp_all add: example_mutator_lib_def example_lib_def del: Marshal.simps)
  from mutator_patch [OF _ this(2) example_parse, where req = "\<lparr>Object_Raw = ''doc'', req_Namespace = ''ns''\<rparr>" and
      m = default_mutator and c = cluster_client and env = idle_env and w = late_cluster] this(1)
  show ?thesis by (simp add: example_each claims some)
qed

theorem mutator_leaves_alone_witness:
  "\<exists>msg. run_state (Handle default_mutator stub_client \<lparr>ticks = (\<lambda>_ _ _. 0), after = (\<lambda>_. State (\<lambda>w. ((), w)))\<rparr>
     (example_lib [(''doc'', example_pipeline [])] Map.empty None) \<lparr>Object_Raw = ''doc'', req_Namespace = ''ns''\<rparr>) (3 :: nat) = (Allowed msg, 3)"
  by (rule mutator_leaves_alone [where obj = "example_pipeline []"]) (simp_all add: example_lib_def)

end
