(* ===== verification/VertexDomainMutator.thy ===== *)
theory VertexDomainMutator
  imports Admission
begin

text \<open>
  \<open>internal/webhook/v1alpha1/vertex_domain_mutator.go\<close>: the mutating webhook that marks the Pods of
  vertices with direct bindings, stores their FQDN in an annotation and tells their containers the FQDNs
  of the vertices they send to.  Decoding and encoding Pods is the parameter \<open>PodLib\<close>.
\<close>

definition numaflowLabelPipelineName :: string where
  "numaflowLabelPipelineName = ''numaflow.numaproj.io/pipeline-name''"

definition numaflowLabelVertexName :: string where
  "numaflowLabelVertexName = ''numaflow.numaproj.io/vertex-name''"

record PodLib =
  pod_Unmarshal :: "string \<Rightarrow> string + Pod"
  pod_Marshal :: "Pod \<Rightarrow> string + string"

text \<open>Reading a Go map: the zero value for a missing key.\<close>

definition lookup_str :: "(string \<rightharpoonup> string) \<Rightarrow> string \<Rightarrow> string" where
  "lookup_str m k = (case m k of None \<Rightarrow> [] | Some v \<Rightarrow> v)"

fun collectTargetFQDNs ::
  "string \<Rightarrow> EdgeNumaNetworkBinding list \<Rightarrow> string \<Rightarrow> string \<Rightarrow> WebhookError + string list" where
  "collectTargetFQDNs vertex [] pipeline namespace = Inr []"
| "collectTargetFQDNs vertex (b # bs) pipeline namespace =
     (if ConnectionType b \<noteq> ConnectionTypeDirect \<or> From b \<noteq> vertex
      then collectTargetFQDNs vertex bs pipeline namespace
      else
        (case BuildVertexDomain (To b) pipeline namespace of
           Inl err \<Rightarrow> Inl (CollectTargetFQDNs (To b) err)
         | Inr fqdn \<Rightarrow>
             (case collectTargetFQDNs vertex bs pipeline namespace of
                Inl err \<Rightarrow> Inl err
              | Inr targets \<Rightarrow> Inr (fqdn # targets))))"

fun vertexInDirectBindings :: "string \<Rightarrow> EdgeNumaNetworkBinding list \<Rightarrow> bool" where
  "vertexInDirectBindings vertex [] = False"
| "vertexInDirectBindings vertex (b # bs) =
     (if ConnectionType b \<noteq> ConnectionTypeDirect then vertexInDirectBindings vertex bs
      else if From b = vertex \<or> To b = vertex then True
      else vertexInDirectBindings vertex bs)"

definition add_targets :: "string list \<Rightarrow> Container list \<Rightarrow> Container list" where
  "add_targets targets cs =
     (if length targets > 0
      then map (\<lambda>c. c\<lparr>co_Env := co_Env c @ [\<lparr>ev_Name = EnvVertexDomainTargets, ev_Value = Join targets '',''\<rparr>]\<rparr>) cs
      else cs)"

definition Handle :: "'w Client \<Rightarrow> UnstructuredLib \<Rightarrow> PodLib \<Rightarrow> Request \<Rightarrow> ('w, Response) state" where
  "Handle c ulib plib req =
     (case pod_Unmarshal plib (Object_Raw req) of
        Inl err \<Rightarrow> respond (Errored 400 (DecodePod err))
      | Inr pod \<Rightarrow>
          (let pipelineName = lookup_str (om_Labels (pod_meta pod)) numaflowLabelPipelineName;
               vertexName = lookup_str (om_Labels (pod_meta pod)) numaflowLabelVertexName
           in if pipelineName = [] \<or> vertexName = [] then respond (Allowed ''not a Numaflow Vertex Pod'')
              else
                (let ns = (if req_Namespace req = [] then om_Namespace (pod_meta pod) else req_Namespace req)
                 in call (GetPipeline c (ns, pipelineName))
                      (\<lambda>err. respond (Allowed ''Pipeline not found, skipping''))
                      (\<lambda>pipeline.
                         case GetAnnotations ulib pipeline AnnotationNumaNetworkEdges of
                           None \<Rightarrow> respond (Allowed ''no numa-network-edges annotation on Pipeline'')
                         | Some rawBinding \<Rightarrow>
                             (case ParseBindings rawBinding of
                                Inl err \<Rightarrow> respond (Allowed ''binding parse error, skipping'')
                              | Inr bindings \<Rightarrow>
                                  if \<not> vertexInDirectBindings vertexName bindings
                                  then respond (Allowed ''vertex not in direct bindings'')
                                  else
                                    (case BuildVertexDomain vertexName pipelineName ns of
                                       Inl err \<Rightarrow> respond (Errored 500 (BuildVertexDomainErr err))
                                     | Inr fqdn \<Rightarrow>
                                         (let meta = pod_meta pod;
                                              pod = pod\<lparr>pod_meta := meta\<lparr>
                                                om_Labels := (om_Labels meta)(LabelVertexDomain \<mapsto> LabelVertexDomainValue),
                                                om_Annotations := (om_Annotations meta)(AnnotationVertexDomainFQDN \<mapsto> fqdn)\<rparr>\<rparr>
                                          in case collectTargetFQDNs vertexName bindings pipelineName ns of
                                               Inl err \<Rightarrow> respond (Errored 500 err)
                                             | Inr targets \<Rightarrow>
                                                 (case pod_Marshal plib (pod\<lparr>pod_Containers := add_targets targets (pod_Containers pod)\<rparr>) of
                                                    Inl err \<Rightarrow> respond (Errored 500 (MarshalPatchedPod err))
                                                  | Inr patched \<Rightarrow> respond (PatchResponseFromRaw (Object_Raw req) patched)))))))))"

section \<open>The bindings of a vertex\<close>

lemma vertexInDirectBindings_iff:
  "vertexInDirectBindings v bs \<longleftrightarrow> list_ex (\<lambda>b. ConnectionType b = ''direct'' \<and> (From b = v \<or> To b = v)) bs"
  by (induction bs) (auto simp: ConnectionTypeDirect_def)

text \<open>The destinations of a vertex, in the order of the bindings.\<close>

definition destinations :: "string \<Rightarrow> EdgeNumaNetworkBinding list \<Rightarrow> string list" where
  "destinations v bs = map To (filter (\<lambda>b. ConnectionType b = ''direct'' \<and> From b = v) bs)"

lemma collectTargetFQDNs_Inr:
  "collectTargetFQDNs v bs p n = Inr targets \<longleftrightarrow>
     map (\<lambda>t. BuildVertexDomain t p n) (destinations v bs) = map Inr targets"
proof (induction bs arbitrary: targets)
  case (Cons b bs)
  show ?case
  proof (cases "ConnectionType b = ConnectionTypeDirect \<and> From b = v")
    case False
    with Cons show ?thesis by (auto simp: destinations_def ConnectionTypeDirect_def)
  next
    case True
    then have "destinations v (b # bs) = To b # destinations v bs"
      by (simp add: destinations_def ConnectionTypeDirect_def)
    with True Cons show ?thesis
      by (cases targets; cases "collectTargetFQDNs v bs p n") (auto split: sum.splits)
  qed
qed (auto simp: destinations_def)

lemma collectTargetFQDNs_Inl:
  "collectTargetFQDNs v bs p n = Inl err \<Longrightarrow>
     \<exists>t e. err = CollectTargetFQDNs t e \<and> t \<in> set (destinations v bs) \<and> BuildVertexDomain t p n = Inl e"
  by (induction bs) (auto simp: destinations_def ConnectionTypeDirect_def split: sum.splits if_splits)

text \<open>The part of \<open>Handle\<close> after the Pipeline was read.\<close>

definition patch_pod ::
  "UnstructuredLib \<Rightarrow> PodLib \<Rightarrow> Request \<Rightarrow> Pod \<Rightarrow> string \<Rightarrow> string \<Rightarrow> string \<Rightarrow> Unstructured \<Rightarrow> ('w, Response) state" where
  "patch_pod ulib plib req pod pname vname ns pipeline =
     (case GetAnnotations ulib pipeline AnnotationNumaNetworkEdges of
        None \<Rightarrow> respond (Allowed ''no numa-network-edges annotation on Pipeline'')
      | Some rawBinding \<Rightarrow>
          (case ParseBindings rawBinding of
             Inl err \<Rightarrow> respond (Allowed ''binding parse error, skipping'')
           | Inr bindings \<Rightarrow>
               if \<not> vertexInDirectBindings vname bindings then respond (Allowed ''vertex not in direct bindings'')
               else
                 (case BuildVertexDomain vname pname ns of
                    Inl err \<Rightarrow> respond (Errored 500 (BuildVertexDomainErr err))
                  | Inr fqdn \<Rightarrow>
                      (case collectTargetFQDNs vname bindings pname ns of
                         Inl err \<Rightarrow> respond (Errored 500 err)
                       | Inr targets \<Rightarrow>
                           (case pod_Marshal plib (pod\<lparr>pod_meta := (pod_meta pod)\<lparr>
                                om_Labels := (om_Labels (pod_meta pod))(LabelVertexDomain \<mapsto> ''true''),
                                om_Annotations := (om_Annotations (pod_meta pod))(AnnotationVertexDomainFQDN \<mapsto> fqdn)\<rparr>,
                              pod_Containers := add_targets targets (pod_Containers pod)\<rparr>) of
                              Inl err \<Rightarrow> respond (Errored 500 (MarshalPatchedPod err))
                            | Inr patched \<Rightarrow> respond (PatchResponseFromRaw (Object_Raw req) patched))))))"

lemma containers_meta: "pod_Containers (pod\<lparr>pod_meta := m\<rparr>) = pod_Containers pod"
  by simp

lemma Handle_patch:
  "Handle c ulib plib req =
     (case pod_Unmarshal plib (Object_Raw req) of
        Inl err \<Rightarrow> respond (Errored 400 (DecodePod err))
      | Inr pod \<Rightarrow>
          (let pname = lookup_str (om_Labels (pod_meta pod)) numaflowLabelPipelineName;
               vname = lookup_str (om_Labels (pod_meta pod)) numaflowLabelVertexName;
               ns = (if req_Namespace req = [] then om_Namespace (pod_meta pod) else req_Namespace req)
           in if pname = [] \<or> vname = [] then respond (Allowed ''not a Numaflow Vertex Pod'')
              else call (GetPipeline c (ns, pname)) (\<lambda>err. respond (Allowed ''Pipeline not found, skipping''))
                     (patch_pod ulib plib req pod pname vname ns)))"
  unfolding Handle_def patch_pod_def [abs_def] Let_def LabelVertexDomainValue_def containers_meta ..

lemma patch_pod_result:
  assumes "run_state (patch_pod ulib plib req pod pname vname ns pipeline) w = (PatchResponseFromRaw raw patched, w')"
  shows "\<exists>val bindings fqdn targets. raw = Object_Raw req \<and> w' = w \<and>
    GetAnnotations ulib pipeline AnnotationNumaNetworkEdges = Some val \<and> ParseBindings val = Inr bindings \<and>
    list_ex (\<lambda>b. ConnectionType b = ''direct'' \<and> (From b = vname \<or> To b = vname)) bindings \<and>
    BuildVertexDomain vname pname ns = Inr fqdn \<and>
    map (\<lambda>t. BuildVertexDomain t pname ns) (destinations vname bindings) = map Inr targets \<and>
    pod_Marshal plib (pod\<lparr>pod_meta := (pod_meta pod)\<lparr>
        om_Labels := (om_Labels (pod_meta pod))(LabelVertexDomain \<mapsto> ''true''),
        om_Annotations := (om_Annotations (pod_meta pod))(AnnotationVertexDomainFQDN \<mapsto> fqdn)\<rparr>,
      pod_Containers := (if targets = [] then pod_Containers pod
        else map (\<lambda>k. k\<lparr>co_Env := co_Env k @ [\<lparr>ev_Name = ''VERTEX_DOMAIN_TARGETS'', ev_Value = Join targets '',''\<rparr>]\<rparr>)
          (pod_Containers pod))\<rparr>) = Inr patched"
  using assms unfolding patch_pod_def
  by (auto simp: vertexInDirectBindings_iff collectTargetFQDNs_Inr add_targets_def EnvVertexDomainTargets_def
      split: option.splits sum.splits if_splits)

lemma Handle_patched:
  assumes "run_state (Handle c ulib plib req) w = (PatchResponseFromRaw raw patched, w')"
  shows "\<exists>pod pname vname ns pipeline val bindings fqdn targets.
    raw = Object_Raw req \<and> pod_Unmarshal plib raw = Inr pod \<and>
    om_Labels (pod_meta pod) numaflowLabelPipelineName = Some pname \<and> om_Labels (pod_meta pod) numaflowLabelVertexName = Some vname \<and>
    ns = (if req_Namespace req = [] then om_Namespace (pod_meta pod) else req_Namespace req) \<and>
    run_state (GetPipeline c (ns, pname)) w = (Inr pipeline, w') \<and>
    GetAnnotations ulib pipeline AnnotationNumaNetworkEdges = Some val \<and> ParseBindings val = Inr bindings \<and>
    list_ex (\<lambda>b. ConnectionType b = ''direct'' \<and> (From b = vname \<or> To b = vname)) bindings \<and>
    BuildVertexDomain vname pname ns = Inr fqdn \<and>
    map (\<lambda>t. BuildVertexDomain t pname ns) (destinations vname bindings) = map Inr targets \<and>
    pod_Marshal plib (pod\<lparr>pod_meta := (pod_meta pod)\<lparr>
        om_Labels := (om_Labels (pod_meta pod))(LabelVertexDomain \<mapsto> ''true''),
        om_Annotations := (om_Annotations (pod_meta pod))(AnnotationVertexDomainFQDN \<mapsto> fqdn)\<rparr>,
      pod_Containers := (if targets = [] then pod_Containers pod
        else map (\<lambda>k. k\<lparr>co_Env := co_Env k @ [\<lparr>ev_Name = ''VERTEX_DOMAIN_TARGETS'', ev_Value = Join targets '',''\<rparr>]\<rparr>)
          (pod_Containers pod))\<rparr>) = Inr patched"
proof -
  obtain pod where pod: "pod_Unmarshal plib (Object_Raw req) = Inr pod"
    using assms unfolding Handle_def by (auto split: sum.splits)
  define pname where "pname = lookup_str (om_Labels (pod_meta pod)) numaflowLabelPipelineName"
  define vname where "vname = lookup_str (om_Labels (pod_meta pod)) numaflowLabelVertexName"
  define ns where "ns = (if req_Namespace req = [] then om_Namespace (pod_meta pod) else req_Namespace req)"
  have ne: "pname \<noteq> []" "vname \<noteq> []"
    using assms pod unfolding Handle_def by (auto simp: pname_def vname_def Let_def)
  then have l: "om_Labels (pod_meta pod) numaflowLabelPipelineName = Some pname"
    "om_Labels (pod_meta pod) numaflowLabelVertexName = Some vname"
    by (auto simp: pname_def vname_def lookup_str_def split: option.splits)
  obtain x w1 where x: "run_state (GetPipeline c (ns, pname)) w = (x, w1)" by fastforce
  have h: "run_state (call (GetPipeline c (ns, pname))
      (\<lambda>err. respond (Allowed ''Pipeline not found, skipping'')) (patch_pod ulib plib req pod pname vname ns)) w =
      (PatchResponseFromRaw raw patched, w')"
    using assms pod ne unfolding Handle_patch pname_def vname_def ns_def Let_def by simp
  with x obtain pipeline where p: "x = Inr pipeline" by (cases x) auto
  with h x have "run_state (patch_pod ulib plib req pod pname vname ns pipeline) w1 = (PatchResponseFromRaw raw patched, w')"
    by simp
  note facts = patch_pod_result [OF this] pod l x p
  show ?thesis
    by (rule exI [of _ pod], rule exI [of _ pname], rule exI [of _ vname], rule exI [of _ ns], rule exI [of _ pipeline])
       (use facts in \<open>simp only: ns_def [symmetric], blast\<close>)
qed

text \<open>The FQDN of a vertex, written out, and the Pod the webhook makes of one it marks.\<close>

definition vertex_name :: "string \<Rightarrow> string \<Rightarrow> string \<Rightarrow> string" where
  "vertex_name ns pname vname = vname @ ''.'' @ pname @ ''.'' @ ns @ ''.vertexdomain.local''"

definition marked_pod :: "Pod \<Rightarrow> string \<Rightarrow> string list \<Rightarrow> Pod" where
  "marked_pod pod fqdn targets =
     pod\<lparr>pod_meta := (pod_meta pod)\<lparr>
           om_Labels := (om_Labels (pod_meta pod))(''gpu-direct-comm.numaproj.io/vertex-domain'' \<mapsto> ''true''),
           om_Annotations := (om_Annotations (pod_meta pod))(''gpu-direct-comm.numaproj.io/vertex-domain-fqdn'' \<mapsto> fqdn)\<rparr>,
         pod_Containers := (if targets = [] then pod_Containers pod
           else map (\<lambda>k. k\<lparr>co_Env := co_Env k @ [\<lparr>ev_Name = ''VERTEX_DOMAIN_TARGETS'', ev_Value = Join targets '',''\<rparr>]\<rparr>)
             (pod_Containers pod))\<rparr>"

lemma marked_pod_eq:
  "marked_pod pod f ts = pod\<lparr>pod_meta := (pod_meta pod)\<lparr>
       om_Labels := (om_Labels (pod_meta pod))(LabelVertexDomain \<mapsto> ''true''),
       om_Annotations := (om_Annotations (pod_meta pod))(AnnotationVertexDomainFQDN \<mapsto> f)\<rparr>,
     pod_Containers := (if ts = [] then pod_Containers pod
       else map (\<lambda>k. k\<lparr>co_Env := co_Env k @ [\<lparr>ev_Name = ''VERTEX_DOMAIN_TARGETS'', ev_Value = Join ts '',''\<rparr>]\<rparr>) (pod_Containers pod))\<rparr>"
  by (simp add: marked_pod_def LabelVertexDomain_def AnnotationVertexDomainFQDN_def)

lemma patch_pod_runs:
  assumes "GetAnnotations ulib pipeline AnnotationNumaNetworkEdges = Some val" "ParseBindings val = Inr bindings"
    and "dns_label vname" "dns_label pname" "dns_label ns" "list_all dns_label (destinations vname bindings)"
  shows "run_state (patch_pod ulib plib req pod pname vname ns pipeline) w =
    (if list_ex (\<lambda>b. ConnectionType b = ''direct'' \<and> (From b = vname \<or> To b = vname)) bindings
     then case pod_Marshal plib (marked_pod pod (vertex_name ns pname vname)
         (map (vertex_name ns pname) (destinations vname bindings))) of
        Inl err \<Rightarrow> Errored 500 (MarshalPatchedPod err)
      | Inr patched \<Rightarrow> PatchResponseFromRaw (Object_Raw req) patched
     else Allowed ''vertex not in direct bindings'', w)"
proof -
  have own: "BuildVertexDomain vname pname ns = Inr (vertex_name ns pname vname)"
    using assms(3-5) by (simp add: BuildVertexDomain_Inr_iff vertex_name_def)
  have "map (\<lambda>t. BuildVertexDomain t pname ns) (destinations vname bindings) =
      map Inr (map (vertex_name ns pname) (destinations vname bindings))"
    using assms(4-6) by (auto simp: BuildVertexDomain_Inr_iff vertex_name_def list_all_iff)
  then have targets: "collectTargetFQDNs vname bindings pname ns = Inr (map (vertex_name ns pname) (destinations vname bindings))"
    unfolding collectTargetFQDNs_Inr .
  show ?thesis
    unfolding patch_pod_def
    by (simp add: assms(1,2) own targets vertexInDirectBindings_iff add_targets_def marked_pod_eq EnvVertexDomainTargets_def
        split: sum.split)
qed

section \<open>Properties\<close>

text \<open>C19: the Pods the webhook marks, and how.  Take a Pod with the labels of a vertex, whose Pipeline can be
  read in the request's namespace (the Pod's, when the request has none) and carries bindings that parse, where the
  names of the vertex, the Pipeline, the namespace and the destinations are DNS labels.  If a direct binding has the
  vertex at either end, the answer is the patch to the same Pod with the marker label, with the FQDN
  \<open><vertex>.<pipeline>.<namespace>.vertexdomain.local\<close> in the annotation and, when the vertex sends to others, with
  the comma-separated FQDNs of its destinations at the end of every container's environment, and nothing else changed
  (status 500 if this Pod cannot be encoded).  Otherwise the Pod is admitted as it is.\<close>

theorem vertex_domain_patch:
  assumes "pod_Unmarshal plib (Object_Raw req) = Inr pod"
    and "om_Labels (pod_meta pod) ''numaflow.numaproj.io/pipeline-name'' = Some pname"
    and "om_Labels (pod_meta pod) ''numaflow.numaproj.io/vertex-name'' = Some vname"
    and "ns = (if req_Namespace req = [] then om_Namespace (pod_meta pod) else req_Namespace req)"
    and "run_state (GetPipeline c (ns, pname)) w = (Inr pipeline, w')"
    and "GetAnnotations ulib pipeline AnnotationNumaNetworkEdges = Some val" "ParseBindings val = Inr bindings"
    and "dns_label vname" "dns_label pname" "dns_label ns" "list_all dns_label (destinations vname bindings)"
  shows "run_state (Handle c ulib plib req) w =
    (if list_ex (\<lambda>b. ConnectionType b = ''direct'' \<and> (From b = vname \<or> To b = vname)) bindings
     then case pod_Marshal plib (marked_pod pod (vertex_name ns pname vname)
         (map (vertex_name ns pname) (destinations vname bindings))) of
        Inl err \<Rightarrow> Errored 500 (MarshalPatchedPod err)
      | Inr patched \<Rightarrow> PatchResponseFromRaw (Object_Raw req) patched
     else Allowed ''vertex not in direct bindings'', w')"
proof -
  have "lookup_str (om_Labels (pod_meta pod)) numaflowLabelPipelineName = pname"
    "lookup_str (om_Labels (pod_meta pod)) numaflowLabelVertexName = vname"
    using assms(2,3) by (simp_all add: lookup_str_def numaflowLabelPipelineName_def numaflowLabelVertexName_def)
  then have "run_state (Handle c ulib plib req) w = run_state (patch_pod ulib plib req pod pname vname ns pipeline) w'"
    unfolding Handle_patch using assms(1,5) dns_label_ne [OF assms(8)] dns_label_ne [OF assms(9)] by (simp add: Let_def assms(4))
  then show ?thesis unfolding patch_pod_runs [OF assms(6-11)] .
qed

text \<open>the webhook never denies a Pod, and it reports an error only for a Pod it cannot decode (400),
  or, for a vertex with direct bindings, a name that is no DNS label or a Pod it cannot encode (500).
  In particular a Pipeline that cannot be read never blocks a Pod.\<close>

theorem vertex_domain_errors:
  "case fst (run_state (Handle c ulib plib req) w) of
     Denied _ \<Rightarrow> False
   | Errored code e \<Rightarrow>
       (case e of
          DecodePod msg \<Rightarrow> code = 400 \<and> pod_Unmarshal plib (Object_Raw req) = Inl msg
        | BuildVertexDomainErr err \<Rightarrow> code = 500 \<and> (\<exists>v p n. BuildVertexDomain v p n = Inl err)
        | CollectTargetFQDNs t err \<Rightarrow> code = 500 \<and> (\<exists>p n. BuildVertexDomain t p n = Inl err)
        | MarshalPatchedPod msg \<Rightarrow> code = 500 \<and> (\<exists>pod. pod_Marshal plib pod = Inl msg)
        | _ \<Rightarrow> False)
   | _ \<Rightarrow> True"
proof -
  let ?good = "\<lambda>r. case r of
     Denied _ \<Rightarrow> False
   | Errored code e \<Rightarrow>
       (case e of
          DecodePod msg \<Rightarrow> code = 400 \<and> pod_Unmarshal plib (Object_Raw req) = Inl msg
        | BuildVertexDomainErr err \<Rightarrow> code = 500 \<and> (\<exists>v p n. BuildVertexDomain v p n = Inl err)
        | CollectTargetFQDNs t err \<Rightarrow> code = 500 \<and> (\<exists>p n. BuildVertexDomain t p n = Inl err)
        | MarshalPatchedPod msg \<Rightarrow> code = 500 \<and> (\<exists>pod. pod_Marshal plib pod = Inl msg)
        | _ \<Rightarrow> False)
   | _ \<Rightarrow> True"
  have "?good (fst (run_state (patch_pod ulib plib req pod pname vname ns pipeline) w))" for pod pname vname ns pipeline w
    unfolding patch_pod_def
    by (fastforce split: option.split sum.split dest: collectTargetFQDNs_Inl)
  then show ?thesis unfolding Handle_patch Let_def by (auto simp: run_call split: sum.split prod.split)
qed

section \<open>Examples\<close>

definition example_pod :: Pod where
  "example_pod =
     \<lparr>pod_meta = empty_meta\<lparr>om_Name := ''p-0'', om_Namespace := ''ns'',
        om_Labels := [numaflowLabelPipelineName \<mapsto> ''p1'', numaflowLabelVertexName \<mapsto> ''in'']\<rparr>,
      pod_Containers = [\<lparr>co_Env = [], co_other = ''c''\<rparr>], pod_ResourceClaimStatuses = [], pod_other = []\<rparr>"

definition example_binding :: EdgeNumaNetworkBinding where
  "example_binding = \<lparr>From = ''in'', To = ''out'', NumaNetworkName = ''n'', ConnectionType = ''direct''\<rparr>"

definition example_ulib :: UnstructuredLib where
  "example_ulib = example_lib [] [AnnotationNumaNetworkEdges \<mapsto> Marshal (JArr (map binding_json [example_binding]))] None"

lemma example_domains:
  "BuildVertexDomain ''in'' ''p1'' ''ns'' = Inr ''in.p1.ns.vertexdomain.local''"
  "BuildVertexDomain ''out'' ''p1'' ''ns'' = Inr ''out.p1.ns.vertexdomain.local''"
  by code_simp+

text \<open>The Pod of the vertex \<open>in\<close> is marked and told the FQDN of \<open>out\<close>.\<close>

definition example_plib :: PodLib where
  "example_plib = \<lparr>pod_Unmarshal = (\<lambda>_. Inr example_pod),
     pod_Marshal = (\<lambda>p. if p = marked_pod example_pod ''in.p1.ns.vertexdomain.local'' [''out.p1.ns.vertexdomain.local'']
       then Inr ''patched'' else Inl ''unused'')\<rparr>"

definition pipeline_cluster :: cluster where
  "pipeline_cluster = empty_cluster\<lparr>cl_pipelines := [((''ns'', ''p1''), [])]\<rparr>"

theorem vertex_domain_patch_witness:
  "run_state (Handle cluster_client example_ulib example_plib \<lparr>Object_Raw = ''doc'', req_Namespace = ''ns''\<rparr>) pipeline_cluster =
     (PatchResponseFromRaw ''doc'' ''patched'', pipeline_cluster)"
proof -
  have p: "ParseBindings (Marshal (JArr (map binding_json [example_binding]))) = Inr [example_binding]"
    by (rule ParseBindings_Marshal) (simp add: example_binding_def ascii_binding_def)
  have g: "run_state (GetPipeline cluster_client (''ns'', ''p1'')) pipeline_cluster = (Inr [], pipeline_cluster)"
    by (simp add: cluster_client_def api_get_def pipeline_cluster_def)
  have a: "GetAnnotations example_ulib [] AnnotationNumaNetworkEdges = Some (Marshal (JArr (map binding_json [example_binding])))"
    by (simp add: example_ulib_def example_lib_def del: Marshal.simps)
  have d: "dns_label ''in''" "dns_label ''p1''" "dns_label ''ns''" "list_all dns_label (destinations ''in'' [example_binding])"
    by code_simp+
  have t: "destinations ''in'' [example_binding] = [''out'']" "vertex_name ''ns'' ''p1'' ''in'' = ''in.p1.ns.vertexdomain.local''"
    "vertex_name ''ns'' ''p1'' ''out'' = ''out.p1.ns.vertexdomain.local''" by code_simp+
  have l: "om_Labels (pod_meta example_pod) ''numaflow.numaproj.io/pipeline-name'' = Some ''p1''"
    "om_Labels (pod_meta example_pod) ''numaflow.numaproj.io/vertex-name'' = Some ''in''"
    by (simp_all add: example_pod_def numaflowLabelPipelineName_def numaflowLabelVertexName_def)
  from vertex_domain_patch [where plib = example_plib and req = "\<lparr>Object_Raw = ''doc'', req_Namespace = ''ns''\<rparr>",
      OF _ l _ g a p d]
  show ?thesis by (simp add: example_plib_def t) (simp add: example_binding_def)
qed

end
