(* ===== verification/VertexDomainController.thy ===== *)
theory VertexDomainController
  imports Cluster GoNet Dns IpamHandler
begin

text \<open>
  \<open>internal/controller/vertexdomain_controller.go\<close>: the reconciler that registers the secondary NIC
  addresses of vertex Pods in the DNS store and removes them again.  It relies on the store through the
  contract \<open>dns_store\<close>; its main theorems are proved once in that locale and hold for the etcd store.
\<close>

definition vertexDomainFinalizer :: string where
  "vertexDomainFinalizer = ''gpu-direct-comm.numaproj.io/vertex-domain-dns''"

definition requeueDelay :: nat where
  "requeueDelay = 5"

datatype VertexReconcileError =
    GetPodFailed ApiError
  | DeleteDNSRecordFailed string DnsError
  | RemovePodFinalizerFailed ApiError
  | AddPodFinalizerFailed ApiError
  | GetResourceClaimFailed string ApiError
  | PutDNSRecordFailed string DnsError

text \<open>The loops over the addresses of a device and the devices of a claim: the first string that
  parses.\<close>

fun first_ip :: "string list \<Rightarrow> string option" where
  "first_ip [] = None"
| "first_ip (cidr # cidrs) =
     (let ip = (case ParseCIDR cidr of Some ip \<Rightarrow> Some ip | None \<Rightarrow> ParseIP cidr)
      in case ip of Some ip \<Rightarrow> Some (IP_String ip) | None \<Rightarrow> first_ip cidrs)"

fun device_ip :: "AllocatedDeviceStatus list \<Rightarrow> string option" where
  "device_ip [] = None"
| "device_ip (device # devices) =
     (case NetworkData device of
        None \<Rightarrow> device_ip devices
      | Some ips \<Rightarrow> (case first_ip ips of Some ip \<Rightarrow> Some ip | None \<Rightarrow> device_ip devices))"

fun claims_ip ::
  "'w Client \<Rightarrow> string \<Rightarrow> PodResourceClaimStatus list \<Rightarrow> ('w, VertexReconcileError, string) io" where
  "claims_ip c ns [] = ok []"
| "claims_ip c ns (claimStatus # css) =
     (case rcs_ResourceClaimName claimStatus of
        None \<Rightarrow> claims_ip c ns css
      | Some name \<Rightarrow>
          call (GetResourceClaim c (ns, name))
            (\<lambda>err. if IsNotFound err then claims_ip c ns css else fail (GetResourceClaimFailed name err))
            (\<lambda>claim. case device_ip (rc_Devices claim) of Some ip \<Rightarrow> ok ip | None \<Rightarrow> claims_ip c ns css))"

definition extractSecondaryNICIP :: "'w Client \<Rightarrow> Pod \<Rightarrow> ('w, VertexReconcileError, string) io" where
  "extractSecondaryNICIP c pod = claims_ip c (om_Namespace (pod_meta pod)) (pod_ResourceClaimStatuses pod)"

definition finalizePod ::
  "'w Client \<Rightarrow> ControllerUtil \<Rightarrow> 'w Store \<Rightarrow> Pod \<Rightarrow> string \<Rightarrow> ('w, VertexReconcileError, Result) io" where
  "finalizePod c u st pod fqdn =
     (if ContainsFinalizer u (pod_meta pod) vertexDomainFinalizer
      then call (Store_Delete st fqdn (om_Name (pod_meta pod)))
             (\<lambda>err. fail (DeleteDNSRecordFailed fqdn err))
             (\<lambda>_. call (UpdatePod c (pod\<lparr>pod_meta := RemoveFinalizer u (pod_meta pod) vertexDomainFinalizer\<rparr>))
                    (\<lambda>err. fail (RemovePodFinalizerFailed err))
                    (\<lambda>_. ok \<lparr>RequeueAfter = 0\<rparr>))
      else ok \<lparr>RequeueAfter = 0\<rparr>)"

definition ensurePodFinalizer ::
  "'w Client \<Rightarrow> ControllerUtil \<Rightarrow> Pod \<Rightarrow> ('w, VertexReconcileError, Pod) io" where
  "ensurePodFinalizer c u pod =
     (if \<not> ContainsFinalizer u (pod_meta pod) vertexDomainFinalizer
      then call (UpdatePod c (pod\<lparr>pod_meta := AddFinalizer u (pod_meta pod) vertexDomainFinalizer\<rparr>))
             (\<lambda>err. fail (AddPodFinalizerFailed err)) ok
      else ok pod)"

definition Reconcile ::
  "'w Client \<Rightarrow> ControllerUtil \<Rightarrow> 'w Store \<Rightarrow> NamespacedName \<Rightarrow> ('w, VertexReconcileError, Result) io" where
  "Reconcile c u st req =
     call (GetPod c req)
       (\<lambda>err. if IsNotFound err then ok \<lparr>RequeueAfter = 0\<rparr> else fail (GetPodFailed err))
       (\<lambda>pod.
          case om_Labels (pod_meta pod) LabelVertexDomain of
            None \<Rightarrow> ok \<lparr>RequeueAfter = 0\<rparr>
          | Some _ \<Rightarrow>
              (let fqdn = (case om_Annotations (pod_meta pod) AnnotationVertexDomainFQDN of None \<Rightarrow> [] | Some s \<Rightarrow> s)
               in if fqdn = [] then ok \<lparr>RequeueAfter = 0\<rparr>
                  else if om_DeletionTimestamp (pod_meta pod) \<noteq> None then finalizePod c u st pod fqdn
                  else call (ensurePodFinalizer c u pod) fail
                         (\<lambda>pod. call (extractSecondaryNICIP c pod) fail
                            (\<lambda>ip. if ip = [] then ok \<lparr>RequeueAfter = requeueDelay\<rparr>
                                  else call (Store_Put st fqdn (om_Name (pod_meta pod)) ip)
                                         (\<lambda>err. fail (PutDNSRecordFailed fqdn err))
                                         (\<lambda>_. ok \<lparr>RequeueAfter = 0\<rparr>)))))"

text \<open>The event filter of \<open>SetupWithManager\<close>.\<close>

definition labelExists :: "ObjectMeta \<Rightarrow> bool" where
  "labelExists m = (case om_Labels m LabelVertexDomain of None \<Rightarrow> False | Some _ \<Rightarrow> True)"

section \<open>Addresses\<close>

text \<open>The nested loops look for the first address that parses among all addresses of the devices that
  have network data.\<close>

lemma first_ip_append: "first_ip (xs @ ys) = (case first_ip xs of Some ip \<Rightarrow> Some ip | None \<Rightarrow> first_ip ys)"
  by (induction xs) (simp_all add: Let_def split: option.split)

lemma device_ip_eq: "device_ip ds = first_ip (concat (List.map_filter NetworkData ds))"
  by (induction ds) (simp_all add: first_ip_append split: option.split)

lemma first_ip_Some: "first_ip xs = Some ip \<Longrightarrow> is_ascii ip"
  by (induction xs) (auto simp: Let_def IP_String_ascii split: option.splits)

lemma claims_ip_ascii:
  "run_state (claims_ip c ns css) w = (Inr ip, w') \<Longrightarrow> is_ascii ip"
proof (induction css arbitrary: w)
  case (Cons cs css)
  then show ?case
    by (auto simp: run_call device_ip_eq split: option.splits prod.splits sum.splits if_splits dest: first_ip_Some)
qed simp

lemma claims_ip_keeps: "(\<And>k. keeps P (GetResourceClaim c k)) \<Longrightarrow> keeps P (claims_ip c ns css)"
proof (induction css)
  case (Cons cs css)
  then show ?case by (auto intro!: io_frame split: option.split)
qed simp


section \<open>Frames\<close>

text \<open>Calls of the API server do not touch the DNS store, and an update returns the Pod it was given.\<close>

definition pod_api_ok :: "'w Client \<Rightarrow> ('w \<Rightarrow> records) \<Rightarrow> ('w \<Rightarrow> bool) \<Rightarrow> bool" where
  "pod_api_ok c recs good \<longleftrightarrow>
     (\<forall>R k. keeps (\<lambda>w. good w \<and> recs w = R) (GetPod c k)) \<and>
     (\<forall>R x. keeps (\<lambda>w. good w \<and> recs w = R) (UpdatePod c x)) \<and>
     (\<forall>R k. keeps (\<lambda>w. good w \<and> recs w = R) (GetResourceClaim c k)) \<and>
     (\<forall>x w y w'. run_state (UpdatePod c x) w = (Inr y, w') \<longrightarrow> om_Name (pod_meta y) = om_Name (pod_meta x))"

lemma pod_api_keeps:
  assumes "pod_api_ok c recs good"
  shows "keeps (\<lambda>w. good w \<and> recs w = R) (GetPod c k)" "keeps (\<lambda>w. good w \<and> recs w = R) (UpdatePod c x)"
    "keeps (\<lambda>w. good w \<and> recs w = R) (GetResourceClaim c k)"
  using assms unfolding pod_api_ok_def by blast+

lemma pod_api_name:
  "pod_api_ok c recs good \<Longrightarrow> run_state (UpdatePod c x) w = (Inr y, w') \<Longrightarrow> om_Name (pod_meta y) = om_Name (pod_meta x)"
  unfolding pod_api_ok_def by blast

lemma ensurePodFinalizer_keeps:
  "pod_api_ok c recs good \<Longrightarrow> keeps (\<lambda>w. good w \<and> recs w = R) (ensurePodFinalizer c u pod)"
  unfolding ensurePodFinalizer_def by (auto intro!: io_frame pod_api_keeps)

lemma ensurePodFinalizer_name:
  assumes "controllerutil_ok u" "pod_api_ok c recs good" "run_state (ensurePodFinalizer c u pod) w = (Inr pod', w')"
  shows "om_Name (pod_meta pod') = om_Name (pod_meta pod)"
  using assms(3) by (auto simp: ensurePodFinalizer_def util_finalizer [OF assms(1)] run_call
      split: if_splits prod.splits sum.splits dest!: pod_api_name [OF assms(2)])

lemma extract_keeps:
  "pod_api_ok c recs good \<Longrightarrow> keeps (\<lambda>w. good w \<and> recs w = R) (extractSecondaryNICIP c pod)"
  unfolding extractSecondaryNICIP_def by (rule claims_ip_keeps) (rule pod_api_keeps)

text \<open>The three ways a reconciliation goes on after it has read a Pod.\<close>

definition vertex_pod :: "Pod \<Rightarrow> string \<Rightarrow> bool" where
  "vertex_pod pod fqdn \<longleftrightarrow> om_Labels (pod_meta pod) LabelVertexDomain \<noteq> None \<and>
     om_Annotations (pod_meta pod) AnnotationVertexDomainFQDN = Some fqdn \<and> fqdn \<noteq> []"

definition registerPod ::
  "'w Client \<Rightarrow> ControllerUtil \<Rightarrow> 'w Store \<Rightarrow> Pod \<Rightarrow> string \<Rightarrow> ('w, VertexReconcileError, Result) io" where
  "registerPod c u st pod fqdn =
     call (ensurePodFinalizer c u pod) fail
       (\<lambda>pod. call (extractSecondaryNICIP c pod) fail
          (\<lambda>ip. if ip = [] then ok \<lparr>RequeueAfter = requeueDelay\<rparr>
                else call (Store_Put st fqdn (om_Name (pod_meta pod)) ip)
                       (\<lambda>err. fail (PutDNSRecordFailed fqdn err)) (\<lambda>_. ok \<lparr>RequeueAfter = 0\<rparr>)))"

lemma run_PodReconcile:
  "run_state (Reconcile c u st req) w =
     (case run_state (GetPod c req) w of
        (Inl err, w1) \<Rightarrow> (if IsNotFound err then Inr \<lparr>RequeueAfter = 0\<rparr> else Inl (GetPodFailed err), w1)
      | (Inr pod, w1) \<Rightarrow>
          (let fqdn = (case om_Annotations (pod_meta pod) AnnotationVertexDomainFQDN of None \<Rightarrow> [] | Some s \<Rightarrow> s)
           in if \<not> vertex_pod pod fqdn then (Inr \<lparr>RequeueAfter = 0\<rparr>, w1)
              else if om_DeletionTimestamp (pod_meta pod) \<noteq> None then run_state (finalizePod c u st pod fqdn) w1
              else run_state (registerPod c u st pod fqdn) w1))"
  unfolding Reconcile_def registerPod_def
  by (auto simp: vertex_pod_def run_call Let_def split: prod.split sum.split option.split)

lemma run_PodReconcile_pod:
  assumes "run_state (GetPod c req) w = (Inr pod, w1)" "vertex_pod pod fqdn"
  shows "run_state (Reconcile c u st req) w =
    (if om_DeletionTimestamp (pod_meta pod) \<noteq> None then run_state (finalizePod c u st pod fqdn) w1
     else run_state (registerPod c u st pod fqdn) w1)"
  using assms by (auto simp: run_PodReconcile vertex_pod_def Let_def)

section \<open>With a store that keeps its contract\<close>

context dns_store
begin

lemma register_runs:
  assumes "controllerutil_ok u" "pod_api_ok c recs good" "good w" "vertex_fqdn fqdn" "pod_id (om_Name (pod_meta pod))"
    and "run_state (registerPod c u st pod fqdn) w = (r, w')"
  shows "good w' \<and>
    (case run_state (ensurePodFinalizer c u pod) w of
       (Inl e, w1) \<Rightarrow> r = Inl e \<and> recs w' = recs w
     | (Inr pod', w1) \<Rightarrow>
       (case run_state (extractSecondaryNICIP c pod') w1 of
          (Inl e, w2) \<Rightarrow> r = Inl e \<and> recs w' = recs w
        | (Inr ip, w2) \<Rightarrow>
          if ip = [] then r = Inr \<lparr>RequeueAfter = requeueDelay\<rparr> \<and> recs w' = recs w
          else
            (case fst (run_state (Store_Put st fqdn (om_Name (pod_meta pod)) ip) w2) of
               Inl e \<Rightarrow> r = Inl (PutDNSRecordFailed fqdn e) \<and>
                 (recs w' = recs w \<or> recs w' = (recs w)((fqdn, om_Name (pod_meta pod)) \<mapsto> ip))
             | Inr _ \<Rightarrow> r = Inr \<lparr>RequeueAfter = 0\<rparr> \<and> recs w' = (recs w)((fqdn, om_Name (pod_meta pod)) \<mapsto> ip))))"
proof -
  let ?K = "\<lambda>x. good x \<and> recs x = recs w"
  obtain e w1 where e: "run_state (ensurePodFinalizer c u pod) w = (e, w1)" by (meson surj_pair)
  have w1: "?K w1" using keepsD [OF ensurePodFinalizer_keeps [OF assms(2)] _ e] assms(3) by blast
  show ?thesis
  proof (cases e)
    case (Inl err)
    with e assms(6) w1 show ?thesis by (auto simp: registerPod_def)
  next
    case (Inr pod')
    have name: "om_Name (pod_meta pod') = om_Name (pod_meta pod)"
      using ensurePodFinalizer_name [OF assms(1,2)] e Inr by blast
    obtain x w2 where x: "run_state (extractSecondaryNICIP c pod') w1 = (x, w2)" by (meson surj_pair)
    have w2: "?K w2" using keepsD [OF extract_keeps [OF assms(2)] w1 x] .
    consider (failed) err where "x = Inl err" | (none) "x = Inr []" | (found) ip where "x = Inr ip" "ip \<noteq> []"
      by (cases x) auto
    then show ?thesis
    proof cases
      case found
      have a: "is_ascii ip" using x found unfolding extractSecondaryNICIP_def by (auto dest: claims_ip_ascii)
      obtain p w3 where p: "run_state (Store_Put st fqdn (om_Name (pod_meta pod)) ip) w2 = (p, w3)" by (meson surj_pair)
      with e Inr x found assms(6) name
      have "(r, w') = (case p of Inl er \<Rightarrow> Inl (PutDNSRecordFailed fqdn er) | Inr _ \<Rightarrow> Inr \<lparr>RequeueAfter = 0\<rparr>, w3)"
        by (cases p) (auto simp: registerPod_def)
      moreover note put_err [OF conjunct1 [OF w2] assms(4,5) a] put_ok [OF conjunct1 [OF w2] assms(4,5) a]
      ultimately show ?thesis using p w2 e Inr x found by (cases p) fastforce+
    qed (use e Inr x w2 assms(6) in \<open>auto simp: registerPod_def\<close>)
  qed
qed

lemma finalize_effect:
  assumes "controllerutil_ok u" "pod_api_ok c recs good" "good w" "vertex_fqdn fqdn" "pod_id (om_Name (pod_meta pod))"
    and "run_state (finalizePod c u st pod fqdn) w = (r, w')"
  shows "good w' \<and> (recs w' = (recs w)((fqdn, om_Name (pod_meta pod)) := None) \<or>
      recs w' = recs w \<and> ((\<exists>e. r = Inl (DeleteDNSRecordFailed fqdn e)) \<or> vertexDomainFinalizer \<notin> set (om_Finalizers (pod_meta pod))))"
proof (cases "vertexDomainFinalizer \<in> set (om_Finalizers (pod_meta pod))")
  case False
  then show ?thesis using assms(3,6) by (auto simp: finalizePod_def util_finalizer [OF assms(1)])
next
  case True
  obtain d w1 where d: "run_state (Store_Delete st fqdn (om_Name (pod_meta pod))) w = (d, w1)" by fastforce
  show ?thesis
  proof (cases d)
    case (Inl er)
    then show ?thesis using delete_err [OF assms(3-5)] d assms(6) True
      by (fastforce simp: finalizePod_def util_finalizer [OF assms(1)])
  next
    case (Inr un)
    then have w1: "good w1 \<and> recs w1 = (recs w)((fqdn, om_Name (pod_meta pod)) := None)"
      using delete_ok [OF assms(3-5)] d by simp
    obtain y w2 where y: "run_state (UpdatePod c (pod\<lparr>pod_meta := RemoveFinalizer u (pod_meta pod) vertexDomainFinalizer\<rparr>)) w1 = (y, w2)"
      by fastforce
    have "good w2 \<and> recs w2 = (recs w)((fqdn, om_Name (pod_meta pod)) := None)"
      using keepsD [OF pod_api_keeps(2) [OF assms(2)] w1 y] .
    moreover have "w' = w2" using assms(6) True d Inr y
      by (cases y) (auto simp: finalizePod_def util_finalizer(1) [OF assms(1)])
    ultimately show ?thesis by simp
  qed
qed

lemma reconcile_frame:
  assumes "controllerutil_ok u" "pod_api_ok c recs good" "good w" 
    and "run_state (GetPod c req) w = (Inr pod, w1)" "vertex_pod pod fqdn"
    and "vertex_fqdn fqdn" "pod_id (om_Name (pod_meta pod))"
    and "run_state (Reconcile c u st req) w = (r, w')"
  shows "good w' \<and> (\<forall>k. k \<noteq> (fqdn, om_Name (pod_meta pod)) \<longrightarrow> recs w' k = recs w k)"
proof -
  have w1: "good w1 \<and> recs w1 = recs w" using keepsD [OF pod_api_keeps(1) [OF assms(2)] _ assms(4)] assms(3) by blast
  show ?thesis
  proof (cases "om_DeletionTimestamp (pod_meta pod) = None")
    case True
    then have "run_state (registerPod c u st pod fqdn) w1 = (r, w')"
      using assms(8) run_PodReconcile_pod [OF assms(4,5), of u st] by simp
    from register_runs [OF assms(1,2) conjunct1 [OF w1] assms(6,7) this] w1
    show ?thesis by (auto simp: case_prod_beta split: sum.splits if_splits)
  next
    case False
    then have "run_state (finalizePod c u st pod fqdn) w1 = (r, w')"
      using assms(8) run_PodReconcile_pod [OF assms(4,5), of u st] by simp
    from finalize_effect [OF assms(1,2) conjunct1 [OF w1] assms(6,7) this] w1
    show ?thesis by auto
  qed
qed

end


section \<open>Properties\<close>

text \<open>C15: what a reconciliation of a live vertex Pod does, on every branch.  The finalizer comes first, then the
  address is read from the Pod's ResourceClaims, and the error of either ends it with the records as they were.
  Without an address the Pod is looked at again after five seconds and no record changes.  With an address the
  record is put: when that works, exactly one record changed, the Pod's name under its FQDN now has this address;
  when it fails, the error is returned, and no other record was touched.\<close>

theorem Reconcile_registers_address:
  assumes "controllerutil_ok u" "etcd_ok (client s) kv" "pod_api_ok c (etcd_records kv) (etcd_good kv)" "etcd_good kv w"
    and "run_state (GetPod c req) w = (Inr pod, w1)" "vertex_pod pod fqdn" "om_DeletionTimestamp (pod_meta pod) = None"
    and "vertex_fqdn fqdn" "pod_id (om_Name (pod_meta pod))"
    and "run_state (Reconcile c u (etcd_as_store s) req) w = (r, w')"
  shows "etcd_good kv w' \<and>
    (case run_state (ensurePodFinalizer c u pod) w1 of
       (Inl e, w2) \<Rightarrow> r = Inl e \<and> etcd_records kv w' = etcd_records kv w
     | (Inr pod', w2) \<Rightarrow>
       (case run_state (extractSecondaryNICIP c pod') w2 of
          (Inl e, w3) \<Rightarrow> r = Inl e \<and> etcd_records kv w' = etcd_records kv w
        | (Inr ip, w3) \<Rightarrow>
          if ip = [] then r = Inr \<lparr>RequeueAfter = 5\<rparr> \<and> etcd_records kv w' = etcd_records kv w
          else
            (case fst (run_state (Put s fqdn (om_Name (pod_meta pod)) ip) w3) of
               Inl e \<Rightarrow> r = Inl (PutDNSRecordFailed fqdn e) \<and>
                 (etcd_records kv w' = etcd_records kv w \<or>
                  etcd_records kv w' = (etcd_records kv w)((fqdn, om_Name (pod_meta pod)) \<mapsto> ip))
             | Inr _ \<Rightarrow> r = Inr \<lparr>RequeueAfter = 0\<rparr> \<and>
                 etcd_records kv w' = (etcd_records kv w)((fqdn, om_Name (pod_meta pod)) \<mapsto> ip))))"
proof -
  have w1: "etcd_good kv w1" "etcd_records kv w1 = etcd_records kv w"
    using keepsD [OF pod_api_keeps(1) [OF assms(3)] _ assms(5)] assms(4) by blast+
  have run: "run_state (registerPod c u (etcd_as_store s) pod fqdn) w1 = (r, w')"
    using assms(7,10) run_PodReconcile_pod [OF assms(5,6), of u "etcd_as_store s"] by simp
  have put: "Store_Put (etcd_as_store s) = Put s" and delay: "requeueDelay = 5"
    by (simp_all add: etcd_as_store_def requeueDelay_def)
  show ?thesis
    by (rule dns_store.register_runs [OF dns_store_etcd [OF assms(2)] assms(1,3) w1(1) assms(8,9) run, unfolded put delay w1(2)])
qed

text \<open>a successful reconciliation of a vertex Pod under deletion that carries the finalizer removes
  exactly the Pod's record.\<close>

theorem Reconcile_removes_record:
  assumes "controllerutil_ok u" "etcd_ok (client s) kv" "pod_api_ok c (etcd_records kv) (etcd_good kv)" "etcd_good kv w"
    and "run_state (GetPod c req) w = (Inr pod, w1)" "vertex_pod pod fqdn" "om_DeletionTimestamp (pod_meta pod) \<noteq> None"
    and "vertexDomainFinalizer \<in> set (om_Finalizers (pod_meta pod))"
    and "vertex_fqdn fqdn" "pod_id (om_Name (pod_meta pod))"
    and "run_state (Reconcile c u (etcd_as_store s) req) w = (Inr res, w')"
  shows "etcd_good kv w' \<and> etcd_records kv w' = (etcd_records kv w)((fqdn, om_Name (pod_meta pod)) := None)"
proof -
  have w1: "etcd_good kv w1 \<and> etcd_records kv w1 = etcd_records kv w"
    using keepsD [OF pod_api_keeps(1) [OF assms(3)] _ assms(5)] assms(4) by blast
  have "run_state (finalizePod c u (etcd_as_store s) pod fqdn) w1 = (Inr res, w')"
    using assms(7,11) run_PodReconcile_pod [OF assms(5,6), of u "etcd_as_store s"] by simp
  from dns_store.finalize_effect [OF dns_store_etcd [OF assms(2)] assms(1,3) conjunct1 [OF w1] assms(9,10) this] w1 assms(8)
  show ?thesis by auto
qed

text \<open>a reconciliation, successful or not, touches no DNS record but that of the Pod it is for, and
  keeps the store's invariant.\<close>

theorem Reconcile_touches_own_record:
  assumes "controllerutil_ok u" "etcd_ok (client s) kv" "pod_api_ok c (etcd_records kv) (etcd_good kv)" "etcd_good kv w"
    and "run_state (GetPod c req) w = (Inr pod, w1)" "vertex_pod pod fqdn"
    and "vertex_fqdn fqdn" "pod_id (om_Name (pod_meta pod))"
    and "run_state (Reconcile c u (etcd_as_store s) req) w = (r, w')"
  shows "etcd_good kv w' \<and> (\<forall>k. k \<noteq> (fqdn, om_Name (pod_meta pod)) \<longrightarrow> etcd_records kv w' k = etcd_records kv w k)"
  by (rule dns_store.reconcile_frame [OF dns_store_etcd [OF assms(2)] assms(1,3-9)])

text \<open>C16: a Pod is released for deletion only after its record was deleted.  Let \<open>P\<close> be a predicate that
  every call but an update of a Pod without the finalizer preserves (the finalizer is still there, say): a
  reconciliation that breaks it read a Pod under deletion and deleted its record successfully first.\<close>

theorem pod_released_after_record_deleted:
  assumes "controllerutil_ok u"
    and "\<And>k. keeps P (GetPod c k)" "\<And>k. keeps P (GetResourceClaim c k)"
    and "\<And>f p ip. keeps P (Store_Put st f p ip)" "\<And>f p. keeps P (Store_Delete st f p)"
    and "\<And>x. vertexDomainFinalizer \<in> set (om_Finalizers (pod_meta x)) \<Longrightarrow> keeps P (UpdatePod c x)"
    and "P w" "\<not> P (snd (run_state (Reconcile c u st req) w))"
  shows "\<exists>pod w1 fqdn w2. run_state (GetPod c req) w = (Inr pod, w1) \<and> om_DeletionTimestamp (pod_meta pod) \<noteq> None \<and>
    om_Annotations (pod_meta pod) AnnotationVertexDomainFQDN = Some fqdn \<and>
    run_state (Store_Delete st fqdn (om_Name (pod_meta pod))) w1 = (Inr (), w2)"
proof -
  obtain g w1 where g: "run_state (GetPod c req) w = (g, w1)" by fastforce
  have w1: "P w1" using keepsD [OF assms(2,7) g] .
  with g assms(8) obtain pod where pod: "g = Inr pod" by (cases g) (auto simp: run_PodReconcile)
  let ?fqdn = "case om_Annotations (pod_meta pod) AnnotationVertexDomainFQDN of None \<Rightarrow> [] | Some s \<Rightarrow> s"
  have v: "vertex_pod pod ?fqdn" using g pod w1 assms(8) by (auto simp: run_PodReconcile Let_def split: if_splits)
  have ens: "keeps P (ensurePodFinalizer c u pod)"
    unfolding ensurePodFinalizer_def by (auto intro!: io_frame assms(6) simp: util_finalizer [OF assms(1)])
  have "keeps P (registerPod c u st pod ?fqdn)"
    unfolding registerPod_def extractSecondaryNICIP_def by (intro io_frame ens claims_ip_keeps assms(3,4))
  then have del: "om_DeletionTimestamp (pod_meta pod) \<noteq> None"
    using w1 assms(8) run_PodReconcile_pod [OF g [unfolded pod] v, of u st] by (auto simp: keeps_def split: if_splits)
  obtain d w2 where d: "run_state (Store_Delete st ?fqdn (om_Name (pod_meta pod))) w1 = (d, w2)" by fastforce
  have w2: "P w2" using keepsD [OF assms(5) w1 d] .
  have "\<not> P (snd (run_state (finalizePod c u st pod ?fqdn) w1))"
    using assms(8) del run_PodReconcile_pod [OF g [unfolded pod] v, of u st] by auto
  with d w1 w2 have "d = Inr ()" by (cases d) (auto simp: finalizePod_def split: if_splits)
  moreover have "om_Annotations (pod_meta pod) AnnotationVertexDomainFQDN = Some ?fqdn"
    using v by (auto simp: vertex_pod_def split: option.splits)
  ultimately show ?thesis using g pod del d by blast
qed

text \<open>C39: a Pod without the marker label or without an FQDN is skipped, even one that is being deleted and
  still carries the finalizer: nothing but the read of the Pod happens.\<close>

theorem Reconcile_skips_unmarked:
  assumes "run_state (GetPod c req) w = (Inr pod, w1)"
    and "om_Labels (pod_meta pod) LabelVertexDomain = None \<or>
      om_Annotations (pod_meta pod) AnnotationVertexDomainFQDN \<in> {None, Some []}"
  shows "run_state (Reconcile c u st req) w = (Inr \<lparr>RequeueAfter = 0\<rparr>, w1)"
  using assms by (auto simp: run_PodReconcile vertex_pod_def Let_def)

text \<open>an address that \<open>extractSecondaryNICIP\<close> returns is the printed form of the first address that
  parses, as a CIDR or else as a plain address, among the network data of the devices of one of the Pod's
  ResourceClaims.\<close>

theorem extractSecondaryNICIP_source:
  assumes "run_state (extractSecondaryNICIP c pod) w = (Inr ip, w')" "ip \<noteq> []"
  shows "\<exists>cs name claim w1 w2. cs \<in> set (pod_ResourceClaimStatuses pod) \<and> rcs_ResourceClaimName cs = Some name \<and>
    run_state (GetResourceClaim c (om_Namespace (pod_meta pod), name)) w1 = (Inr claim, w2) \<and>
    first_ip (concat (List.map_filter NetworkData (rc_Devices claim))) = Some ip"
proof -
  have "run_state (claims_ip c ns css) w = (Inr ip, w') \<Longrightarrow>
      \<exists>cs name claim w1 w2. cs \<in> set css \<and> rcs_ResourceClaimName cs = Some name \<and>
        run_state (GetResourceClaim c (ns, name)) w1 = (Inr claim, w2) \<and>
        first_ip (concat (List.map_filter NetworkData (rc_Devices claim))) = Some ip" for ns css w
  proof (induction css arbitrary: w)
    case (Cons cs css)
    show ?case
    proof (cases "rcs_ResourceClaimName cs")
      case None
      with Cons show ?thesis by fastforce
    next
      case (Some name)
      with Cons show ?thesis
        by (fastforce simp: run_call device_ip_eq split: prod.splits sum.splits option.splits if_splits)
    qed
  qed (use assms(2) in simp)
  with assms(1) show ?thesis unfolding extractSecondaryNICIP_def by blast
qed


section \<open>Examples\<close>

text \<open>The reference API server and the reference etcd side by side.\<close>

type_synonym dual = "cluster \<times> (string \<times> string) list"

definition on_fst :: "('a, 'r) state \<Rightarrow> ('a \<times> 'b, 'r) state" where
  "on_fst m = State (\<lambda>(a, b). case run_state m a of (r, a') \<Rightarrow> (r, (a', b)))"

definition on_snd :: "('b, 'r) state \<Rightarrow> ('a \<times> 'b, 'r) state" where
  "on_snd m = State (\<lambda>(a, b). case run_state m b of (r, b') \<Rightarrow> (r, (a, b')))"

definition dual_client :: "dual Client" where
  "dual_client = stub_client\<lparr>GetPod := (\<lambda>k. on_fst (GetPod cluster_client k)),
     UpdatePod := (\<lambda>x. on_fst (UpdatePod cluster_client x)),
     GetResourceClaim := (\<lambda>k. on_fst (GetResourceClaim cluster_client k))\<rparr>"

definition dual_etcd :: "dual EtcdClient" where
  "dual_etcd = \<lparr>etcd_Put = (\<lambda>k v. on_snd (etcd_Put mem_etcd k v)), etcd_Delete = (\<lambda>k. on_snd (etcd_Delete mem_etcd k)),
     etcd_GetPrefix = (\<lambda>k. on_snd (etcd_GetPrefix mem_etcd k)), etcd_Close = ok ()\<rparr>"

definition dual_kv :: "dual \<Rightarrow> string \<rightharpoonup> string" where
  "dual_kv w = map_of (snd w)"

lemma run_on_fst: "run_state (on_fst m) w = (fst (run_state m (fst w)), (snd (run_state m (fst w)), snd w))"
  by (cases w) (simp add: on_fst_def split: prod.split)

lemma run_on_snd: "run_state (on_snd m) w = (fst (run_state m (snd w)), (fst w, snd (run_state m (snd w))))"
  by (cases w) (simp add: on_snd_def split: prod.split)

lemma dual_etcd_ok: "etcd_ok dual_etcd dual_kv"
proof -
  have "dual_kv w' = (dual_kv w)(k \<mapsto> v)" if "run_state (etcd_Put dual_etcd k v) w = (r, w')" for k v w r w'
    using that by (auto simp: dual_etcd_def run_on_snd mem_etcd_def dual_kv_def map_of_filter_neq)
  moreover have "dual_kv w' = (dual_kv w)(k := None)" if "run_state (etcd_Delete dual_etcd k) w = (r, w')" for k w r w'
    using that by (auto simp: dual_etcd_def run_on_snd mem_etcd_def dual_kv_def map_of_filter_neq)
  moreover have "dual_kv w' = dual_kv w \<and> (\<forall>kvs. r = Inr kvs \<longrightarrow> distinct (map fst kvs) \<and>
      set kvs = {(k', v). dual_kv w k' = Some v \<and> prefix k k'})"
    if "run_state (etcd_GetPrefix dual_etcd k) w = (r, w')" for k w r w'
  proof -
    have g: "run_state (etcd_GetPrefix mem_etcd k) (snd w) = (r, snd w')"
      using that by (auto simp: dual_etcd_def run_on_snd)
    show ?thesis unfolding dual_kv_def using etcd_ok_get [OF mem_etcd_ok g] by blast
  qed
  ultimately show ?thesis unfolding etcd_ok_def by blast
qed

lemma dual_store: "etcd_ok (client \<lparr>client = dual_etcd\<rparr>) dual_kv"
  by (simp add: dual_etcd_ok)

lemma keeps_on_fst: "(\<And>a a' b. P (a, b) \<longleftrightarrow> P (a', b)) \<Longrightarrow> keeps P (on_fst m)"
  unfolding keeps_def run_on_fst by (metis prod.collapse snd_conv)

lemma dual_frame: "(etcd_good dual_kv (a, b) \<and> etcd_records dual_kv (a, b) = R) \<longleftrightarrow>
    (etcd_good dual_kv (a', b) \<and> etcd_records dual_kv (a', b) = R)"
  using etcd_same [of dual_kv "(a, b)" "(a', b)"] by (simp add: dual_kv_def)

lemma dual_api_ok: "pod_api_ok dual_client (etcd_records dual_kv) (etcd_good dual_kv)"
proof -
  have "om_Name (pod_meta y) = om_Name (pod_meta x)"
    if "run_state (UpdatePod dual_client x) w = (Inr y, w')" for x y w w'
    using that by (auto simp: dual_client_def run_on_fst cluster_client_def api_update_def split: option.splits)
  then show ?thesis
    unfolding pod_api_ok_def by (auto simp: dual_client_def intro!: keeps_on_fst dual_frame)
qed

lemma dual_empty_good: "etcd_good dual_kv (a, [])"
  by (simp add: etcd_good_def dual_kv_def)


lemmas dual_simps = dual_client_def dual_etcd_def run_on_fst run_on_snd

text \<open>A vertex Pod whose claim has an address.\<close>

definition vertex_pod_example :: "string list \<Rightarrow> nat option \<Rightarrow> Pod" where
  "vertex_pod_example fin del =
     \<lparr>pod_meta = empty_meta\<lparr>om_Name := ''p-0'', om_Namespace := ''ns'', om_Finalizers := fin, om_DeletionTimestamp := del,
        om_Labels := [LabelVertexDomain \<mapsto> ''true''],
        om_Annotations := [AnnotationVertexDomainFQDN \<mapsto> ''in.p1.ns.vertexdomain.local'']\<rparr>,
      pod_Containers = [],
      pod_ResourceClaimStatuses = [\<lparr>rcs_Name = ''nic'', rcs_ResourceClaimName = Some ''c''\<rparr>], pod_other = []\<rparr>"

definition address_claim :: ResourceClaim where
  "address_claim = \<lparr>rc_meta = empty_meta\<lparr>om_Name := ''c'', om_Namespace := ''ns''\<rparr>,
     rc_Devices = [\<lparr>NetworkData = Some [v4_String [10, 0, 0, 1]]\<rparr>]\<rparr>"

definition example_world :: "string list \<Rightarrow> nat option \<Rightarrow> dual" where
  "example_world fin del = (empty_cluster\<lparr>cl_pods := [((''ns'', ''p-0''), vertex_pod_example fin del)],
     cl_claims := [((''ns'', ''c''), address_claim)]\<rparr>, [])"

lemma example_world_good: "etcd_good dual_kv (example_world fin del)"
  by (simp add: example_world_def dual_empty_good)

lemma example_get_pod:
  "run_state (GetPod dual_client (''ns'', ''p-0'')) (example_world fin del) = (Inr (vertex_pod_example fin del), example_world fin del)"
  by (simp add: dual_client_def run_on_fst cluster_client_def api_get_def example_world_def)

lemma example_vertex_pod:
  "vertex_pod (vertex_pod_example fin del) ''in.p1.ns.vertexdomain.local''" "om_Name (pod_meta (vertex_pod_example fin del)) = ''p-0''"
  "om_DeletionTimestamp (pod_meta (vertex_pod_example fin del)) = del" "om_Finalizers (pod_meta (vertex_pod_example fin del)) = fin"
  by (simp_all add: vertex_pod_def vertex_pod_example_def)

lemma example_first_ip: "first_ip [v4_String [10, 0, 0, 1]] = Some (v4_String [10, 0, 0, 1])"
proof -
  have "CHR ''/'' \<notin> set (v4_String [10, 0, 0, 1])" by (rule v4_String_no_slash)
  then have "ParseCIDR (v4_String [10, 0, 0, 1]) = None" by (simp add: ParseCIDR_def)
  then show ?thesis by (simp add: ParseIP_v4_String IP_String_v4)
qed

lemma example_extract:
  "run_state (extractSecondaryNICIP dual_client (vertex_pod_example fin del)) (example_world fin' del') =
     (Inr (v4_String [10, 0, 0, 1]), example_world fin' del')"
proof -
  have "run_state (GetResourceClaim dual_client (''ns'', ''c'')) (example_world fin' del') = (Inr address_claim, example_world fin' del')"
    by (simp add: dual_client_def run_on_fst cluster_client_def api_get_def example_world_def)
  moreover have "device_ip (rc_Devices address_claim) = Some (v4_String [10, 0, 0, 1])"
    unfolding device_ip_eq by (simp add: address_claim_def example_first_ip del: first_ip.simps)
  ultimately show ?thesis by (simp add: extractSecondaryNICIP_def vertex_pod_example_def del: device_ip.simps)
qed

lemma v4_example_ne: "v4_String [10, 0, 0, 1] \<noteq> []"
  by (simp add: v4_String_def)

lemma example_put:
  "\<exists>w'. run_state (Store_Put (etcd_as_store \<lparr>client = dual_etcd\<rparr>) ''in.p1.ns.vertexdomain.local'' ''p-0'' ip) w = (Inr (), w')"
  by (simp add: etcd_as_store_def Put_runs example_fqdn) (simp add: dual_etcd_def run_on_snd mem_etcd_def)

lemma example_registered:
  "\<exists>w'. run_state (Reconcile dual_client ref_util (etcd_as_store \<lparr>client = dual_etcd\<rparr>) (''ns'', ''p-0''))
       (example_world [vertexDomainFinalizer] None) = (Inr \<lparr>RequeueAfter = 0\<rparr>, w') \<and>
     etcd_records dual_kv w' (''in.p1.ns.vertexdomain.local'', ''p-0'') = Some (v4_String [10, 0, 0, 1])"
proof -
  let ?w = "example_world [vertexDomainFinalizer] None" and ?pod = "vertex_pod_example [vertexDomainFinalizer] None"
  obtain w' where put: "run_state (Store_Put (etcd_as_store \<lparr>client = dual_etcd\<rparr>) ''in.p1.ns.vertexdomain.local'' ''p-0''
      (v4_String [10, 0, 0, 1])) ?w = (Inr (), w')"
    using example_put by blast
  have "run_state (ensurePodFinalizer dual_client ref_util ?pod) ?w = (Inr ?pod, ?w)"
    by (simp add: ensurePodFinalizer_def ref_util_def example_vertex_pod)
  then have "run_state (Reconcile dual_client ref_util (etcd_as_store \<lparr>client = dual_etcd\<rparr>) (''ns'', ''p-0'')) ?w =
      (Inr \<lparr>RequeueAfter = 0\<rparr>, w')"
    unfolding run_PodReconcile_pod [OF example_get_pod example_vertex_pod(1)]
    using put by (simp add: registerPod_def example_extract example_vertex_pod v4_example_ne)
  moreover have "etcd_records dual_kv w' (''in.p1.ns.vertexdomain.local'', ''p-0'') = Some (v4_String [10, 0, 0, 1])"
    using dns_store.put_ok [OF dns_store_etcd [OF dual_store] example_world_good example_fqdn(1,2) v4_String_ascii put] by simp
  ultimately show ?thesis by blast
qed

lemma example_extract_finalized:
  "run_state (ensurePodFinalizer dual_client ref_util (vertex_pod_example [vertexDomainFinalizer] None)) w =
     (Inr (vertex_pod_example [vertexDomainFinalizer] None), w)"
  by (simp add: ensurePodFinalizer_def ref_util_def example_vertex_pod)

theorem Reconcile_registers_address_witness:
  "\<exists>w'. run_state (Reconcile dual_client ref_util (etcd_as_store \<lparr>client = dual_etcd\<rparr>) (''ns'', ''p-0''))
       (example_world [vertexDomainFinalizer] None) = (Inr \<lparr>RequeueAfter = 0\<rparr>, w') \<and>
     etcd_records dual_kv w' = (etcd_records dual_kv (example_world [vertexDomainFinalizer] None))
       ((''in.p1.ns.vertexdomain.local'', ''p-0'') \<mapsto> v4_String [10, 0, 0, 1])"
proof -
  let ?w = "example_world [vertexDomainFinalizer] None"
  obtain r w' where run: "run_state (Reconcile dual_client ref_util (etcd_as_store \<lparr>client = dual_etcd\<rparr>) (''ns'', ''p-0'')) ?w = (r, w')"
    by (meson surj_pair)
  obtain w2 where put: "run_state (Put \<lparr>client = dual_etcd\<rparr> ''in.p1.ns.vertexdomain.local'' ''p-0'' (v4_String [10, 0, 0, 1])) ?w = (Inr (), w2)"
    using example_put [of "v4_String [10, 0, 0, 1]" ?w] unfolding etcd_as_store_def Store.simps by blast
  have "pod_id (om_Name (pod_meta (vertex_pod_example [vertexDomainFinalizer] None)))"
    by (simp add: example_vertex_pod(2) example_fqdn(2))
  from Reconcile_registers_address [OF ref_util_ok dual_store dual_api_ok example_world_good example_get_pod
      example_vertex_pod(1,3) example_fqdn(1) this run] run
  show ?thesis by (simp add: example_extract_finalized example_extract example_vertex_pod(2) v4_example_ne put)
qed

lemma keeps_on_snd: "(\<And>a b b'. P (a, b) \<longleftrightarrow> P (a, b')) \<Longrightarrow> keeps P (on_snd m)"
  unfolding keeps_def run_on_snd by (metis prod.collapse snd_conv)

lemma example_delete:
  "\<exists>b. run_state (Store_Delete (etcd_as_store \<lparr>client = dual_etcd\<rparr>) ''in.p1.ns.vertexdomain.local'' ''p-0'') (a, m) = (Inr (), (a, b))"
  by (simp add: etcd_as_store_def Delete_runs example_fqdn) (simp add: dual_etcd_def run_on_snd mem_etcd_def)

lemma example_finalized:
  "\<exists>w'. run_state (Reconcile dual_client ref_util (etcd_as_store \<lparr>client = dual_etcd\<rparr>) (''ns'', ''p-0''))
     (example_world [vertexDomainFinalizer] (Some 1)) = (Inr \<lparr>RequeueAfter = 0\<rparr>, w') \<and> cl_pods (fst w') = []"
proof -
  obtain b where d: "run_state (Store_Delete (etcd_as_store \<lparr>client = dual_etcd\<rparr>) ''in.p1.ns.vertexdomain.local'' ''p-0'')
      (example_world [vertexDomainFinalizer] (Some 1)) = (Inr (), (fst (example_world [vertexDomainFinalizer] (Some 1)), b))"
    using example_delete unfolding example_world_def by auto
  show ?thesis
    unfolding run_PodReconcile_pod [OF example_get_pod example_vertex_pod(1)]
    using d by (simp add: finalizePod_def example_vertex_pod ref_util_def run_call)
      (simp add: dual_client_def run_on_fst cluster_client_def api_defs example_world_def vertex_pod_example_def empty_meta_def)
qed

theorem Reconcile_removes_record_witness:
  "\<exists>w'. snd (run_state (Reconcile dual_client ref_util (etcd_as_store \<lparr>client = dual_etcd\<rparr>) (''ns'', ''p-0''))
       (example_world [vertexDomainFinalizer] (Some 1))) = w' \<and>
     etcd_records dual_kv w' (''in.p1.ns.vertexdomain.local'', ''p-0'') = None"
proof -
  obtain w' where w': "run_state (Reconcile dual_client ref_util (etcd_as_store \<lparr>client = dual_etcd\<rparr>) (''ns'', ''p-0''))
     (example_world [vertexDomainFinalizer] (Some 1)) = (Inr \<lparr>RequeueAfter = 0\<rparr>, w')"
    using example_finalized by blast
  from Reconcile_removes_record [OF ref_util_ok dual_store dual_api_ok example_world_good example_get_pod
      example_vertex_pod(1) _ _ example_fqdn(1) _ this] w'
  show ?thesis by (simp add: example_vertex_pod example_fqdn(2))
qed

theorem Reconcile_touches_own_record_witness:
  "etcd_good dual_kv (snd (run_state (Reconcile dual_client ref_util (etcd_as_store \<lparr>client = dual_etcd\<rparr>) (''ns'', ''p-0''))
     (example_world [vertexDomainFinalizer] (Some 1))))"
proof -
  have "pod_id (om_Name (pod_meta (vertex_pod_example [vertexDomainFinalizer] (Some 1))))"
    by (simp add: example_vertex_pod(2) example_fqdn(2))
  from Reconcile_touches_own_record [OF ref_util_ok dual_store dual_api_ok example_world_good example_get_pod
      example_vertex_pod(1) example_fqdn(1) this prod.collapse [symmetric]]
  show ?thesis by blast
qed

theorem pod_released_after_record_deleted_witness:
  "\<exists>fqdn w2. run_state (Store_Delete (etcd_as_store \<lparr>client = dual_etcd\<rparr>) fqdn ''p-0'')
     (example_world [vertexDomainFinalizer] (Some 1)) = (Inr (), w2)"
proof -
  let ?st = "etcd_as_store \<lparr>client = dual_etcd\<rparr>" and ?w = "example_world [vertexDomainFinalizer] (Some 1)"
  let ?P = "\<lambda>w :: dual. cl_pods (fst w) \<noteq> []"
  have u: "keeps ?P (UpdatePod dual_client x)" if "vertexDomainFinalizer \<in> set (om_Finalizers (pod_meta x))" for x
    using that by (auto simp: keeps_def dual_client_def run_on_fst cluster_client_def api_update_def api_put_def Let_def
        split: option.split)
  have s: "keeps ?P (Store_Put ?st f p ip)" "keeps ?P (Store_Delete ?st f p)" for f p ip
    unfolding etcd_as_store_def Put_def Delete_def Let_def Store.simps
    by (auto intro!: keeps_call keeps_on_snd simp: dual_etcd_def split: sum.split)
  have g: "keeps ?P (GetPod dual_client k)" "keeps ?P (GetResourceClaim dual_client k)" for k
    by (simp_all add: keeps_def dual_client_def run_on_fst cluster_client_def api_get_def)
  have "\<not> ?P (snd (run_state (Reconcile dual_client ref_util ?st (''ns'', ''p-0'')) ?w))" using example_finalized by auto
  moreover have "?P ?w" by (simp add: example_world_def)
  ultimately show ?thesis
    using pod_released_after_record_deleted [where P = ?P and c = dual_client and st = ?st and w = ?w and req = "(''ns'', ''p-0'')",
        OF ref_util_ok g(1) g(2) s(1) s(2) u]
    by (auto simp: example_get_pod example_vertex_pod)
qed

theorem Reconcile_skips_unmarked_witness:
  "run_state (Reconcile (stub_client\<lparr>GetPod := (\<lambda>_. ok (vertex_pod_example [vertexDomainFinalizer] (Some 1)
       \<lparr>pod_meta := empty_meta\<lparr>om_Finalizers := [vertexDomainFinalizer], om_DeletionTimestamp := Some 1\<rparr>\<rparr>))\<rparr>)
     ref_util \<lparr>Store_Put = (\<lambda>_ _ _. fail FqdnEmpty), Store_Delete = (\<lambda>_ _. fail FqdnEmpty), Store_Get = (\<lambda>_. fail FqdnEmpty)\<rparr>
     (''ns'', ''p-0'')) (5 :: nat) = (Inr \<lparr>RequeueAfter = 0\<rparr>, 5)"
  by (rule Reconcile_skips_unmarked) (auto simp: empty_meta_def)

theorem extractSecondaryNICIP_source_witness:
  "\<exists>cs \<in> set (pod_ResourceClaimStatuses (vertex_pod_example [] None)). rcs_ResourceClaimName cs \<noteq> None"
  using extractSecondaryNICIP_source [OF example_extract [of "[]" None "[]" None] v4_example_ne] by fastforce

end
