(* ===== verification/Cmd.thy ===== *)
theory Cmd
  imports GoFlag GoPath IpamHandler Dns NumaNetworkController PipelineWebhook PipelineMutator VertexDomainMutator VertexDomainController
begin

text \<open>
  The two binaries.  \<open>cmd/main.go\<close> parses its flags, builds the TLS, webhook and metrics options, creates
  the manager and sets up the controllers, the webhooks and the DNS store; the first step that fails ends the
  process with status 1.  \<open>cmd/webhook-whereabouts-numanetwork/main.go\<close> builds the IPAM handler and serves it
  until a signal arrives.

  controller-runtime, the etcd constructor and the HTTP server are parameters.  The flags that imported packages
  add (those of zap and of the client configuration) are a parameter as well, \<open>ext\<close>, with values of type \<open>'z\<close>.
\<close>

section \<open>The flags of the manager\<close>

record 'z ManagerFlags =
  metricsAddr :: string
  metricsCertPath :: string
  metricsCertName :: string
  metricsCertKey :: string
  webhookCertPath :: string
  webhookCertName :: string
  webhookCertKey :: string
  enableLeaderElection :: bool
  probeAddr :: string
  secureMetrics :: bool
  enableHTTP2 :: bool
  etcdEndpoints :: string
  extFlags :: 'z

definition default_flags :: "'z \<Rightarrow> 'z ManagerFlags" where
  "default_flags z =
     \<lparr>metricsAddr = ''0'', metricsCertPath = [], metricsCertName = ''tls.crt'', metricsCertKey = ''tls.key'',
      webhookCertPath = [], webhookCertName = ''tls.crt'', webhookCertKey = ''tls.key'',
      enableLeaderElection = False, probeAddr = '':8081'', secureMetrics = True, enableHTTP2 = False,
      etcdEndpoints = ''http://10.43.200.53:2379'', extFlags = z\<rparr>"

definition ext_flag :: "(('z \<Rightarrow> 'z) \<Rightarrow> 'c \<Rightarrow> 'c) \<Rightarrow> ('c \<Rightarrow> 'z) \<Rightarrow> 'z Flag \<Rightarrow> 'c Flag" where
  "ext_flag upd sel f = \<lparr>IsBool = IsBool f, Set = (\<lambda>v c. map_option (\<lambda>z. upd (\<lambda>_. z) c) (Set f v (sel c)))\<rparr>"

definition manager_flagset :: "'z FlagSet \<Rightarrow> 'z ManagerFlags FlagSet" where
  "manager_flagset ext =
     [(''metrics-bind-address'', StringVar (\<lambda>v f. f\<lparr>metricsAddr := v\<rparr>)),
      (''health-probe-bind-address'', StringVar (\<lambda>v f. f\<lparr>probeAddr := v\<rparr>)),
      (''leader-elect'', BoolVar (\<lambda>v f. f\<lparr>enableLeaderElection := v\<rparr>)),
      (''metrics-secure'', BoolVar (\<lambda>v f. f\<lparr>secureMetrics := v\<rparr>)),
      (''webhook-cert-path'', StringVar (\<lambda>v f. f\<lparr>webhookCertPath := v\<rparr>)),
      (''webhook-cert-name'', StringVar (\<lambda>v f. f\<lparr>webhookCertName := v\<rparr>)),
      (''webhook-cert-key'', StringVar (\<lambda>v f. f\<lparr>webhookCertKey := v\<rparr>)),
      (''metrics-cert-path'', StringVar (\<lambda>v f. f\<lparr>metricsCertPath := v\<rparr>)),
      (''metrics-cert-name'', StringVar (\<lambda>v f. f\<lparr>metricsCertName := v\<rparr>)),
      (''metrics-cert-key'', StringVar (\<lambda>v f. f\<lparr>metricsCertKey := v\<rparr>)),
      (''enable-http2'', BoolVar (\<lambda>v f. f\<lparr>enableHTTP2 := v\<rparr>)),
      (''etcd-endpoints'', StringVar (\<lambda>v f. f\<lparr>etcdEndpoints := v\<rparr>))] @
     map (apsnd (ext_flag extFlags_update extFlags)) ext"

section \<open>Options\<close>

text \<open>The part of \<open>tls.Config\<close> that the program sets.\<close>

record tlsConfig =
  NextProtos :: "string list"

type_synonym TLSOpt = "tlsConfig \<Rightarrow> tlsConfig"

definition disableHTTP2 :: TLSOpt where
  "disableHTTP2 c = c\<lparr>NextProtos := [''http/1.1'']\<rparr>"

definition tlsOpts :: "'z ManagerFlags \<Rightarrow> TLSOpt list" where
  "tlsOpts f = (if \<not> enableHTTP2 f then [disableHTTP2] else [])"

record WebhookOptions =
  wh_TLSOpts :: "TLSOpt list"
  wh_CertDir :: string
  wh_CertName :: string
  wh_KeyName :: string

definition webhookServerOptions :: "'z ManagerFlags \<Rightarrow> WebhookOptions" where
  "webhookServerOptions f =
     (let o' = \<lparr>wh_TLSOpts = tlsOpts f, wh_CertDir = [], wh_CertName = [], wh_KeyName = []\<rparr>
      in if length (webhookCertPath f) > 0
         then o'\<lparr>wh_CertDir := webhookCertPath f, wh_CertName := webhookCertName f, wh_KeyName := webhookCertKey f\<rparr>
         else o')"

datatype FilterProvider = WithAuthenticationAndAuthorization

record MetricsOptions =
  BindAddress :: string
  SecureServing :: bool
  m_TLSOpts :: "TLSOpt list"
  m_FilterProvider :: "FilterProvider option"
  m_CertDir :: string
  m_CertName :: string
  m_KeyName :: string

definition metricsServerOptions :: "'z ManagerFlags \<Rightarrow> MetricsOptions" where
  "metricsServerOptions f =
     (let o1 = \<lparr>BindAddress = metricsAddr f, SecureServing = secureMetrics f, m_TLSOpts = tlsOpts f,
                m_FilterProvider = None, m_CertDir = [], m_CertName = [], m_KeyName = []\<rparr>;
          o2 = (if secureMetrics f then o1\<lparr>m_FilterProvider := Some WithAuthenticationAndAuthorization\<rparr> else o1)
      in if length (metricsCertPath f) > 0
         then o2\<lparr>m_CertDir := metricsCertPath f, m_CertName := metricsCertName f, m_KeyName := metricsCertKey f\<rparr>
         else o2)"

record ManagerOptions =
  mo_Metrics :: MetricsOptions
  mo_WebhookServer :: WebhookOptions
  HealthProbeBindAddress :: string
  LeaderElection :: bool
  LeaderElectionID :: string

definition managerOptions :: "'z ManagerFlags \<Rightarrow> ManagerOptions" where
  "managerOptions f =
     \<lparr>mo_Metrics = metricsServerOptions f, mo_WebhookServer = webhookServerOptions f,
      HealthProbeBindAddress = probeAddr f, LeaderElection = enableLeaderElection f,
      LeaderElectionID = ''4dc6ec76.numaproj.io''\<rparr>"

section \<open>The manager\<close>

datatype Kind = KindNumaNetwork | KindResourceClaimTemplate | KindPod

datatype 'w Reconciler =
    NumaNetworkReconciler "NamespacedName \<Rightarrow> ('w, ReconcileError, Result) io"
  | VertexDomainReconciler "NamespacedName \<Rightarrow> ('w, VertexReconcileError, Result) io"

text \<open>What a controller builder has collected when \<open>Complete\<close> is called.\<close>

record 'w Controller =
  ForKind :: Kind
  OwnsKinds :: "Kind list"
  EventFilter :: "ObjectMeta \<Rightarrow> bool"
  Named :: string
  Reconciles :: "'w Reconciler"

record ('w, 'c) Runtime =
  GetConfigOrDie :: "('w, string, 'c) io"
  NewManager :: "'c \<Rightarrow> ManagerOptions \<Rightarrow> ('w, string, unit) io"
  GetClient :: "'w Client"
  Complete :: "'w Controller \<Rightarrow> ('w, string, unit) io"
  RegisterWebhook :: "string \<Rightarrow> (Request \<Rightarrow> ('w, Response) state) \<Rightarrow> ('w, unit) state"
  clientv3_New :: "string list \<Rightarrow> int \<Rightarrow> ('w, string, 'w EtcdClient) io"
  AddHealthzCheck :: "string \<Rightarrow> ('w, string, unit) io"
  AddReadyzCheck :: "string \<Rightarrow> ('w, string, unit) io"
  Start :: "('w, string, unit) io"

text \<open>The codecs, utilities and clock the handlers use.\<close>

record 'w Deps =
  dep_util :: ControllerUtil
  dep_unstructured :: UnstructuredLib
  dep_pods :: PodLib
  dep_select :: "'w SelectEnv"

definition SetupNumaNetwork :: "('w, 'c) Runtime \<Rightarrow> 'w Deps \<Rightarrow> ('w, string, unit) io" where
  "SetupNumaNetwork rt d =
     Complete rt \<lparr>ForKind = KindNumaNetwork, OwnsKinds = [KindResourceClaimTemplate], EventFilter = (\<lambda>_. True),
       Named = ''numanetwork'',
       Reconciles = NumaNetworkReconciler (NumaNetworkController.Reconcile (GetClient rt) (dep_util d))\<rparr>"

definition SetupVertexDomain :: "('w, 'c) Runtime \<Rightarrow> 'w Deps \<Rightarrow> 'w Store \<Rightarrow> ('w, string, unit) io" where
  "SetupVertexDomain rt d st =
     Complete rt \<lparr>ForKind = KindPod, OwnsKinds = [], EventFilter = labelExists, Named = ''vertexdomain'',
       Reconciles = VertexDomainReconciler (VertexDomainController.Reconcile (GetClient rt) (dep_util d) st)\<rparr>"

datatype SetupError =
    FlagsRefused FlagError
  | NoConfig string
  | StartManager string
  | CreateController string string
  | CreateDNSStore DnsError
  | HealthCheck string
  | ReadyCheck string
  | RunManager string

text \<open>The status the process exits with.\<close>

definition exit_status :: "SetupError + unit \<Rightarrow> nat" where
  "exit_status r = (case r of Inr _ \<Rightarrow> 0 | Inl (FlagsRefused e) \<Rightarrow> flag_exit e | Inl _ \<Rightarrow> 1)"

definition mutatePath :: string where
  "mutatePath = ''/mutate-numaflow-numaproj-io-v1alpha1-pipeline''"

definition validatePath :: string where
  "validatePath = ''/validate-numaflow-numaproj-io-v1alpha1-pipeline''"

definition podPath :: string where
  "podPath = ''/mutate-v1-pod-vertex-domain''"

definition register_webhooks :: "('w, 'c) Runtime \<Rightarrow> 'w Deps \<Rightarrow> ('w, unit) state" where
  "register_webhooks rt d =
     State_Monad.bind (RegisterWebhook rt mutatePath
         (PipelineMutator.Handle \<lparr>RCTResolveTimeout = 0, RCTResolveInterval = 0\<rparr> (GetClient rt) (dep_select d) (dep_unstructured d)))
       (\<lambda>_. State_Monad.bind (RegisterWebhook rt validatePath (PipelineWebhook.Handle (GetClient rt) (dep_unstructured d)))
         (\<lambda>_. RegisterWebhook rt podPath (VertexDomainMutator.Handle (GetClient rt) (dep_unstructured d) (dep_pods d))))"

definition run_manager :: "('w, 'c) Runtime \<Rightarrow> 'w Deps \<Rightarrow> 'z ManagerFlags \<Rightarrow> ('w, SetupError, unit) io" where
  "run_manager rt d f =
     call (GetConfigOrDie rt) (\<lambda>e. fail (NoConfig e)) (\<lambda>cfg.
     call (NewManager rt cfg (managerOptions f)) (\<lambda>e. fail (StartManager e)) (\<lambda>_.
     call (SetupNumaNetwork rt d) (\<lambda>e. fail (CreateController ''numanetwork'' e)) (\<lambda>_.
     State_Monad.bind (register_webhooks rt d) (\<lambda>_.
     call (NewEtcdStore (clientv3_New rt) (Split (CHR '','') (etcdEndpoints f)) []) (\<lambda>e. fail (CreateDNSStore e)) (\<lambda>dnsStore.
     call (SetupVertexDomain rt d (etcd_as_store dnsStore)) (\<lambda>e. fail (CreateController ''vertexdomain'' e)) (\<lambda>_.
     call (AddHealthzCheck rt ''healthz'') (\<lambda>e. fail (HealthCheck e)) (\<lambda>_.
     call (AddReadyzCheck rt ''readyz'') (\<lambda>e. fail (ReadyCheck e)) (\<lambda>_.
     call (Start rt) (\<lambda>e. fail (RunManager e)) ok))))))))"

definition main :: "('w, 'c) Runtime \<Rightarrow> 'w Deps \<Rightarrow> 'z FlagSet \<Rightarrow> 'z \<Rightarrow> string list \<Rightarrow> ('w, SetupError, unit) io" where
  "main rt d ext z args =
     (case Parse (manager_flagset ext) args (default_flags z) of
        Inl e \<Rightarrow> fail (FlagsRefused e)
      | Inr (f, _) \<Rightarrow> run_manager rt d f)"

section \<open>The IPAM webhook binary\<close>

record 'z IpamFlags =
  listenAddr :: string
  whereaboutsBin :: string
  ipamExtFlags :: 'z

definition default_ipam_flags :: "'z \<Rightarrow> 'z IpamFlags" where
  "default_ipam_flags z = \<lparr>listenAddr = '':8443'', whereaboutsBin = ''/opt/cni/bin/whereabouts'', ipamExtFlags = z\<rparr>"

definition ipam_flagset :: "'z FlagSet \<Rightarrow> 'z IpamFlags FlagSet" where
  "ipam_flagset ext =
     [(''listen-addr'', StringVar (\<lambda>v f. f\<lparr>listenAddr := v\<rparr>)),
      (''whereabouts-bin'', StringVar (\<lambda>v f. f\<lparr>whereaboutsBin := v\<rparr>))] @
     map (apsnd (ext_flag ipamExtFlags_update ipamExtFlags)) ext"

definition ipam_executor :: "'z IpamFlags \<Rightarrow> WhereaboutsExecutor" where
  "ipam_executor f = \<lparr>BinPath = whereaboutsBin f, CNIPath = Dir (whereaboutsBin f)\<rparr>"

definition ipam_handler :: "'w binary \<Rightarrow> 'w Client \<Rightarrow> 'z IpamFlags \<Rightarrow> 'w Handler" where
  "ipam_handler bin c f = \<lparr>Handler_Client = c, Handler_Executor = whereabouts_executor bin (ipam_executor f)\<rparr>"

record 'w Server =
  Addr :: string
  Routes :: "(string \<times> (HttpRequest \<Rightarrow> ('w, HttpResponse) state)) list"
  ReadHeaderTimeout :: int

definition ipam_server :: "'w binary \<Rightarrow> 'w Client \<Rightarrow> 'z IpamFlags \<Rightarrow> 'w Server" where
  "ipam_server bin c f =
     \<lparr>Addr = listenAddr f, Routes = RegisterRoutes (ipam_handler bin c f), ReadHeaderTimeout = 10 * 1000000000\<rparr>"

text \<open>
  What happens to the running process, up to the signal: \<open>ListenAndServe\<close> may return, and \<open>SIGTERM\<close> or \<open>SIGINT\<close>
  may arrive.  \<open>None\<close> is a process that still waits, \<open>Some n\<close> one that has exited with status \<open>n\<close>.
\<close>

datatype ListenError = ErrServerClosed | ListenFailed string

datatype ServerEvent = ListenReturned ListenError | SignalReceived

fun serve :: "('w, string, unit) io \<Rightarrow> ServerEvent list \<Rightarrow> ('w, nat option) state" where
  "serve shutdown [] = State_Monad.return None"
| "serve shutdown (ListenReturned ErrServerClosed # es) = serve shutdown es"
| "serve shutdown (ListenReturned (ListenFailed err) # es) = State_Monad.return (Some 1)"
| "serve shutdown (SignalReceived # es) =
     call shutdown (\<lambda>err. State_Monad.return (Some 0)) (\<lambda>_. State_Monad.return (Some 0))"

record ('w, 'c) IpamRuntime =
  ipam_Config :: "('w, string, 'c) io"
  client_New :: "'c \<Rightarrow> ('w, string, 'w Client) io"
  whereabouts :: "'w binary"
  Shutdown :: "'w Server \<Rightarrow> int \<Rightarrow> ('w, string, unit) io"

definition ipam_main ::
  "('w, 'c) IpamRuntime \<Rightarrow> 'z FlagSet \<Rightarrow> 'z \<Rightarrow> string list \<Rightarrow> ServerEvent list \<Rightarrow> ('w, nat option) state" where
  "ipam_main rt ext z args events =
     (case Parse (ipam_flagset ext) args (default_ipam_flags z) of
        Inl e \<Rightarrow> State_Monad.return (Some (flag_exit e))
      | Inr (f, _) \<Rightarrow>
          call (ipam_Config rt) (\<lambda>_. State_Monad.return (Some 1)) (\<lambda>cfg.
          call (client_New rt cfg) (\<lambda>_. State_Monad.return (Some 1)) (\<lambda>c.
            serve (Shutdown rt (ipam_server (whereabouts rt) c f) (5 * 1000000000)) events)))"


section \<open>Order of the setup\<close>

text \<open>A runtime that keeps a log of what it is asked to do and fails where \<open>fails\<close> says so.\<close>

datatype Action =
    DoConfig
  | DoManager ManagerOptions
  | DoController Kind "Kind list" string
  | DoWebhook string
  | DoEtcd "string list" int
  | DoHealthz string
  | DoReadyz string
  | DoStart

definition act :: "(Action \<Rightarrow> bool) \<Rightarrow> Action \<Rightarrow> 'a \<Rightarrow> (Action list, string, 'a) io" where
  "act fails a x = State (\<lambda>log. (if fails a then Inl ''failed'' else Inr x, log @ [a]))"

definition log_runtime ::
  "(Action \<Rightarrow> bool) \<Rightarrow> Action list Client \<Rightarrow> Action list EtcdClient \<Rightarrow> (Action list, unit) Runtime" where
  "log_runtime fails c ec =
     \<lparr>GetConfigOrDie = act fails DoConfig (), NewManager = (\<lambda>_ o'. act fails (DoManager o') ()), GetClient = c,
      Complete = (\<lambda>k. act fails (DoController (ForKind k) (OwnsKinds k) (Named k)) ()),
      RegisterWebhook = (\<lambda>p _. State (\<lambda>log. ((), log @ [DoWebhook p]))),
      clientv3_New = (\<lambda>es t. act fails (DoEtcd es t) ec),
      AddHealthzCheck = (\<lambda>n. act fails (DoHealthz n) ()), AddReadyzCheck = (\<lambda>n. act fails (DoReadyz n) ()),
      Start = act fails DoStart ()\<rparr>"

definition setup_plan :: "'z ManagerFlags \<Rightarrow> Action list" where
  "setup_plan f =
     [DoConfig, DoManager (managerOptions f), DoController KindNumaNetwork [KindResourceClaimTemplate] ''numanetwork'',
      DoWebhook mutatePath, DoWebhook validatePath, DoWebhook podPath,
      DoEtcd (Split (CHR '','') (etcdEndpoints f)) (5 * 1000000000), DoController KindPod [] ''vertexdomain'',
      DoHealthz ''healthz'', DoReadyz ''readyz'', DoStart]"

definition fallible :: "Action \<Rightarrow> bool" where
  "fallible a = (case a of DoWebhook _ \<Rightarrow> False | _ \<Rightarrow> True)"

fun up_to_failure :: "('a \<Rightarrow> bool) \<Rightarrow> 'a list \<Rightarrow> 'a list" where
  "up_to_failure p [] = []"
| "up_to_failure p (a # as) = a # (if p a then [] else up_to_failure p as)"

lemma run_act: "run_state (act fails a x) log = (if fails a then Inl ''failed'' else Inr x, log @ [a])"
  by (simp add: act_def)

lemma run_register_webhooks:
  "run_state (register_webhooks (log_runtime fails c ec) d) log = ((), log @ map DoWebhook [mutatePath, validatePath, podPath])"
  by (simp add: register_webhooks_def log_runtime_def)

text \<open>C29: the manager is set up in one fixed order, and a failure stops it: whatever fails, the process does exactly
  the steps of the plan up to and including the first one that fails, in particular it never starts the
  manager with a controller, a webhook or the DNS store missing; it exits with status 1 then and 0 otherwise.
  Refused flags end it before anything is done.\<close>

theorem manager_setup:
  "case run_state (main (log_runtime fails c ec) d ext z args) [] of (r, log) \<Rightarrow>
     (case Parse (manager_flagset ext) args (default_flags z) of
        Inl e \<Rightarrow> r = Inl (FlagsRefused e) \<and> log = []
      | Inr (f, _) \<Rightarrow> log = up_to_failure (\<lambda>a. fallible a \<and> fails a) (setup_plan f) \<and>
          exit_status r = (if list_ex (\<lambda>a. fallible a \<and> fails a) (setup_plan f) then 1 else 0))"
proof (cases "Parse (manager_flagset ext) args (default_flags z)")
  case (Inr p)
  obtain f rest where p: "p = (f, rest)" by fastforce
  let ?rt = "log_runtime fails c ec" and ?eps = "Split (CHR '','') (etcdEndpoints f)"
  have etcd: "run_state (NewEtcdStore (clientv3_New ?rt) ?eps []) log =
      (if fails (DoEtcd ?eps 5000000000) then Inl (CreateEtcdClient ''failed'') else Inr \<lparr>client = ec\<rparr>,
       log @ [DoEtcd ?eps 5000000000])" for log
    by (simp add: NewEtcdStore_def defaultDialTimeout_def run_call log_runtime_def run_act)
  have ctrl: "run_state (SetupNumaNetwork ?rt d) log = run_state (act fails (DoController KindNumaNetwork [KindResourceClaimTemplate] ''numanetwork'') ()) log"
    "run_state (SetupVertexDomain ?rt d st) log = run_state (act fails (DoController KindPod [] ''vertexdomain'') ()) log" for log st
    by (simp_all add: SetupNumaNetwork_def SetupVertexDomain_def log_runtime_def)
  have rt: "GetConfigOrDie ?rt = act fails DoConfig ()" "NewManager ?rt cfg o' = act fails (DoManager o') ()"
    "AddHealthzCheck ?rt n = act fails (DoHealthz n) ()" "AddReadyzCheck ?rt n = act fails (DoReadyz n) ()"
    "Start ?rt = act fails DoStart ()" for cfg o' n by (simp_all add: log_runtime_def)
  show ?thesis
    by (simp add: main_def Inr p run_manager_def run_call rt run_act ctrl etcd run_register_webhooks
        setup_plan_def fallible_def exit_status_def)
qed (simp add: main_def)

section \<open>Options\<close>

lemma manager_keeps_http2:
  assumes "Parse (manager_flagset ext) args (default_flags z) = Inr (f, rest)" "\<not> list_ex (names_flag ''enable-http2'') args"
  shows "\<not> enableHTTP2 f"
  using assms(1)
proof (rule Parse_keeps)
  show "\<not> enableHTTP2 (default_flags z)" by (simp add: default_flags_def)
  fix n g v c c'
  assume n: "list_ex (names_flag n) args" "(n, g) \<in> set (manager_flagset ext)" "Set g v c = Some c'" "\<not> enableHTTP2 c"
  with assms(2) have "n \<noteq> ''enable-http2''" by metis
  with n(2-4) show "\<not> enableHTTP2 c'"
    by (auto simp: manager_flagset_def StringVar_def BoolVar_def ext_flag_def)
qed

text \<open>C30: HTTP/2 is off unless asked for: for any command line that parses, as long as no argument of it is
  \<open>enable-http2\<close> with one or two dashes, alone or with a value after a sign of equality, both
  the webhook server and the metrics server end up offering HTTP/1.1 only, whatever their TLS configuration was;
  and the metrics are protected by authentication exactly when they are served securely.\<close>

theorem http2_off_by_default:
  assumes "Parse (manager_flagset ext) args (default_flags z) = Inr (f, rest)"
    and "\<not> list_ex (names_flag ''enable-http2'') args"
  shows "NextProtos (fold (\<lambda>o'. o') (wh_TLSOpts (mo_WebhookServer (managerOptions f))) cfg) = [''http/1.1''] \<and>
    NextProtos (fold (\<lambda>o'. o') (m_TLSOpts (mo_Metrics (managerOptions f))) cfg) = [''http/1.1''] \<and>
    (m_FilterProvider (mo_Metrics (managerOptions f)) = Some WithAuthenticationAndAuthorization \<longleftrightarrow>
     SecureServing (mo_Metrics (managerOptions f)))"
  using manager_keeps_http2 [OF assms]
  by (simp add: managerOptions_def webhookServerOptions_def metricsServerOptions_def tlsOpts_def disableHTTP2_def Let_def)

text \<open>The flags that \<open>config/manager/manager.yaml\<close> sets, one alone, one with its value, and one with the value as an
  argument of its own.\<close>

theorem http2_off_by_default_witness:
  "case Parse (manager_flagset []) [''--leader-elect'', ''--health-probe-bind-address=:9090'', ''--etcd-endpoints'', ''http://e:2379'']
       (default_flags ()) of
     Inl e \<Rightarrow> False
   | Inr (f, rest) \<Rightarrow> enableLeaderElection f \<and> probeAddr f = '':9090'' \<and> etcdEndpoints f = ''http://e:2379'' \<and> rest = [] \<and>
       NextProtos (fold (\<lambda>o'. o') (wh_TLSOpts (mo_WebhookServer (managerOptions f))) \<lparr>NextProtos = [''h2'']\<rparr>) = [''http/1.1'']"
proof -
  let ?args = "[''--leader-elect'', ''--health-probe-bind-address=:9090'', ''--etcd-endpoints'', ''http://e:2379'']"
  define f where "f = (default_flags ())\<lparr>enableLeaderElection := True, probeAddr := '':9090'', etcdEndpoints := ''http://e:2379''\<rparr>"
  have p: "Parse (manager_flagset []) ?args (default_flags ()) = Inr (f, [])"
    by (simp add: manager_flagset_def token_def split_flag_def set_flag_def StringVar_def BoolVar_def ParseBool_def f_def)
  have n: "\<not> list_ex (names_flag ''enable-http2'') ?args" by (simp add: names_flag_def)
  from http2_off_by_default [OF p n, of "\<lparr>NextProtos = [''h2'']\<rparr>"] show ?thesis unfolding p by (simp add: f_def)
qed

section \<open>The IPAM binary\<close>

text \<open>the whereabouts binary finds its plugins beside itself: started with an absolute path, the IPAM webhook runs
  exactly that binary and hands it, as \<open>CNI_PATH\<close>, the directory it lies in.\<close>

theorem ipam_cni_path:
  assumes "list_all path_element es" "path_element fname" "whereaboutsBin f = ''/'' @ Join (es @ [fname]) ''/''"
    and "validClaimUID uid"
  shows "run bin (ipam_executor f) command conf uid =
    call (bin (''/'' @ Join (es @ [fname]) ''/'')
        [''CNI_COMMAND='' @ command, ''CNI_CONTAINERID='' @ uid, ''CNI_NETNS=/dev/null'', ''CNI_IFNAME=eth0'',
         ''CNI_PATH=/'' @ Join es ''/'', ''CNI_ARGS='' @ cni_args uid] conf)
      (\<lambda>stderr. fail (CommandFailed command stderr)) ok"
  using Dir_file [OF assms(1,2)] assms(3,4) by (simp add: run_def cni_env_def ipam_executor_def)

theorem ipam_cni_path_witness:
  "run_state (run (\<lambda>path env conf. ok (env ! 4)) (ipam_executor (default_ipam_flags ())) ''ADD'' ''{}'' ''claim-1'') () =
     (Inr ''CNI_PATH=/opt/cni/bin'', ())"
proof -
  have "path_element e" if "e \<in> {''opt'', ''cni'', ''bin'', ''whereabouts''}" for e
    using that by (auto simp: path_element_def)
  moreover have "validClaimUID ''claim-1''" by (simp add: validClaimUID_iff in_class_def)
  moreover have "whereaboutsBin (default_ipam_flags ()) = ''/'' @ Join ([''opt'', ''cni'', ''bin''] @ [''whereabouts'']) ''/''"
    by (simp add: default_ipam_flags_def)
  ultimately have "(run (\<lambda>path env conf. ok (env ! 4)) (ipam_executor (default_ipam_flags ())) ''ADD'' ''{}'' ''claim-1'' :: (unit, ExecError, string) io) =
      call (ok (''CNI_PATH='' @ ''/'' @ Join [''opt'', ''cni'', ''bin''] ''/'')) (\<lambda>stderr. fail (CommandFailed ''ADD'' stderr)) ok"
    by (subst ipam_cni_path [where es = "[''opt'', ''cni'', ''bin'']" and fname = "''whereabouts''"]) simp_all
  then show ?thesis by simp
qed

text \<open>The life of the server process: it ends with status 1 when listening fails first, with status 0 when the signal comes
  first, however the shutdown goes, and not at all when neither happens.\<close>

lemma serve_outcome:
  "fst (run_state (serve shutdown es) w) =
     (case filter (\<lambda>e. e \<noteq> ListenReturned ErrServerClosed) es of
        [] \<Rightarrow> None | SignalReceived # _ \<Rightarrow> Some 0 | ListenReturned _ # _ \<Rightarrow> Some 1)"
  by (induction shutdown es rule: serve.induct) (auto simp: run_call split: prod.split sum.split)

end
