(* ===== verification/Faults.thy ===== *)
theory Faults
  imports Prelude
begin

text \<open>
  Calls that go wrong.  A call of the API server or of etcd works, or is refused, or takes effect and still reports
  an error because its answer is lost.  A program that crashes in the middle of an operation leaves the world that one
  with a refused call leaves.
\<close>

datatype fault = Works | Refused | Lost

definition faulty :: "fault \<Rightarrow> 'e \<Rightarrow> ('w, 'e, 'a) io \<Rightarrow> ('w, 'e, 'a) io" where
  "faulty f e m = (case f of
     Works \<Rightarrow> m
   | Refused \<Rightarrow> fail e
   | Lost \<Rightarrow> State (\<lambda>w. (Inl e, snd (run_state m w))))"

lemma faulty_Works [simp]: "faulty Works e m = m"
  by (simp add: faulty_def)

lemma run_faulty:
  "run_state (faulty f e m) w = (case f of Works \<Rightarrow> run_state m w | Refused \<Rightarrow> (Inl e, w) | Lost \<Rightarrow> (Inl e, snd (run_state m w)))"
  by (simp add: faulty_def split: fault.split)

lemma keeps_faulty [io_frame]: "keeps P m \<Longrightarrow> keeps P (faulty f e m)"
  by (simp add: keeps_def run_faulty split: fault.split)

text \<open>Only a call that was applied can succeed.\<close>

lemma faulty_cases:
  assumes "run_state (faulty f e m) w = (r, w')"
  obtains "run_state m w = (r, w')" | "r = Inl e" "w' = w" | "r = Inl e" "w' = snd (run_state m w)"
  using assms that by (cases f) (simp_all add: run_faulty)

end
