(* ===== verification/Lifecycle.thy ===== *)
theory Lifecycle
  imports NumaNetworkController Faults
begin

text \<open>
  The NumaNetwork controller running against an API server, as a state machine.

  The states are those of the reference API server of theory \<open>Cluster\<close>.  A step is one reconciliation of
  the controller, in which each call may work, be refused, or take effect and still report an error, or something
  its environment does: a user creates or deletes a NumaNetwork, a
  ResourceClaim is made from the template of a NumaNetwork that is not being deleted, or goes away, or a
  template is garbage collected.  The steps interleave in any order.  The invariant says that the
  finalizer does its work: every ResourceClaim made from a NumaNetwork finds that NumaNetwork, with its
  \<open>ipRange\<close>, still in the cluster.
\<close>

section \<open>Steps\<close>

definition related :: "string \<Rightarrow> string \<Rightarrow> ResourceClaim \<Rightarrow> bool" where
  "related ns name cl \<longleftrightarrow> om_Namespace (rc_meta cl) = ns \<and> om_Labels (rc_meta cl) LabelNumaNetworkName = Some name"

text \<open>A template that was made for a NumaNetwork: its namespace, its label and its owner.\<close>

definition template_of :: "NumaNetwork \<Rightarrow> ResourceClaimTemplate \<Rightarrow> bool" where
  "template_of nn t \<longleftrightarrow> om_Namespace (rct_meta t) = nn_Namespace nn \<and>
     rcts_Labels (rct_Spec t) LabelNumaNetworkName = Some (nn_Name nn) \<and>
     om_UID (nn_meta nn) \<in> or_UID ` set (om_OwnerReferences (rct_meta t))"

definition marked :: "NumaNetwork \<Rightarrow> nat \<Rightarrow> NumaNetwork" where
  "marked nn now = nn\<lparr>nn_meta := (nn_meta nn)\<lparr>om_DeletionTimestamp := Some now\<rparr>\<rparr>"

text \<open>What the API server checks before it stores a NumaNetwork: names, and the validation pattern of \<open>ipRange\<close>.\<close>

definition api_valid :: "NumaNetwork \<Rightarrow> bool" where
  "api_valid nn \<longleftrightarrow> nn_Namespace nn \<noteq> [] \<and> nn_Name nn \<noteq> [] \<and> is_ascii (nn_Namespace nn) \<and> is_ascii (nn_Name nn) \<and>
     CHR ''/'' \<notin> set (nn_Namespace nn) \<and> CHR ''/'' \<notin> set (nn_Name nn) \<and>
     ipRange_valid (IPRange (RefResourceClaimDranet (nn_Spec nn)))"

record network_faults =
  read_network :: fault
  write_network :: fault
  list_claims :: fault
  read_template :: fault
  create_template :: fault
  update_template :: fault

definition network_client :: "network_faults \<Rightarrow> cluster Client" where
  "network_client f = cluster_client\<lparr>
     GetNumaNetwork := (\<lambda>k. faulty (read_network f) (ErrApi ''timeout'') (GetNumaNetwork cluster_client k)),
     UpdateNumaNetwork := (\<lambda>x. faulty (write_network f) (ErrApi ''timeout'') (UpdateNumaNetwork cluster_client x)),
     ListResourceClaims := (\<lambda>ns l. faulty (list_claims f) (ErrApi ''timeout'') (ListResourceClaims cluster_client ns l)),
     GetRCT := (\<lambda>k. faulty (read_template f) (ErrApi ''timeout'') (GetRCT cluster_client k)),
     CreateRCT := (\<lambda>x. faulty (create_template f) (ErrApi ''timeout'') (CreateRCT cluster_client x)),
     UpdateRCT := (\<lambda>x. faulty (update_template f) (ErrApi ''timeout'') (UpdateRCT cluster_client x))\<rparr>"

inductive step :: "cluster \<Rightarrow> cluster \<Rightarrow> bool" where
  reconcile: "step w (snd (run_state (Reconcile (network_client f) ref_util key) w))"
| create_network: "api_valid nn \<Longrightarrow> map_of (cl_networks w) (meta_key (nn_meta nn)) = None \<Longrightarrow> om_DeletionTimestamp (nn_meta nn) = None \<Longrightarrow>
    \<not> list_ex (template_of nn) (map snd (cl_rcts w)) \<Longrightarrow>
    step w (w\<lparr>cl_networks := (meta_key (nn_meta nn), nn) # cl_networks w\<rparr>)"
| delete_network: "map_of (cl_networks w) key = Some nn \<Longrightarrow>
    step w (w\<lparr>cl_networks := api_put nn_meta (marked nn now) (cl_networks w)\<rparr>)"
| create_claim: "map_of (cl_networks w) key = Some nn \<Longrightarrow> om_DeletionTimestamp (nn_meta nn) = None \<Longrightarrow>
    t \<in> set (map snd (cl_rcts w)) \<Longrightarrow> template_of nn t \<Longrightarrow>
    om_Namespace (rc_meta cl) = om_Namespace (rct_meta t) \<Longrightarrow> om_Labels (rc_meta cl) = rcts_Labels (rct_Spec t) \<Longrightarrow>
    step w (w\<lparr>cl_claims := (meta_key (rc_meta cl), cl) # cl_claims w\<rparr>)"
| release_claim: "step w (w\<lparr>cl_claims := filter (\<lambda>p. fst p \<noteq> k) (cl_claims w)\<rparr>)"
| collect_template: "step w (w\<lparr>cl_rcts := filter (\<lambda>p. fst p \<noteq> k) (cl_rcts w)\<rparr>)"

inductive reachable :: "cluster \<Rightarrow> bool" where
  start: "reachable empty_cluster"
| more: "reachable w \<Longrightarrow> step w w' \<Longrightarrow> reachable w'"

section \<open>The invariant\<close>

definition has_finalizer :: "NumaNetwork \<Rightarrow> bool" where
  "has_finalizer nn \<longleftrightarrow> numaNetworkFinalizer \<in> set (om_Finalizers (nn_meta nn))"

definition keys_ok :: "cluster \<Rightarrow> bool" where
  "keys_ok w \<longleftrightarrow> (\<forall>key nn. map_of (cl_networks w) key = Some nn \<longrightarrow> key = meta_key (nn_meta nn)) \<and>
     (\<forall>key t. map_of (cl_rcts w) key = Some t \<longrightarrow> key = meta_key (rct_meta t))"

definition templates_ok :: "cluster \<Rightarrow> bool" where
  "templates_ok w \<longleftrightarrow> (\<forall>key nn t. map_of (cl_networks w) key = Some nn \<longrightarrow> om_DeletionTimestamp (nn_meta nn) = None \<longrightarrow>
     t \<in> set (map snd (cl_rcts w)) \<longrightarrow> template_of nn t \<longrightarrow> has_finalizer nn)"

definition claims_ok :: "cluster \<Rightarrow> bool" where
  "claims_ok w \<longleftrightarrow> (\<forall>cl ns name. cl \<in> set (map snd (cl_claims w)) \<longrightarrow> related ns name cl \<longrightarrow>
     (\<exists>nn. map_of (cl_networks w) (ns, name) = Some nn \<and> has_finalizer nn))"

definition safe :: "cluster \<Rightarrow> bool" where
  "safe w \<longleftrightarrow> keys_ok w \<and> templates_ok w \<and> claims_ok w"

section \<open>What a reconciliation does to a cluster\<close>

lemma cluster_put:
  "cl_networks_update (api_put nn_meta x) w = w\<lparr>cl_networks := api_put nn_meta x (cl_networks w)\<rparr>"
  "cl_rcts_update (api_put rct_meta y) w = w\<lparr>cl_rcts := api_put rct_meta y (cl_rcts w)\<rparr>"
  by (cases w; simp)+

text \<open>What the controller makes of a template: its name, its labels, its owner and its spec are those of the NumaNetwork.\<close>

definition built_from :: "NumaNetwork \<Rightarrow> ResourceClaimTemplate \<Rightarrow> bool" where
  "built_from nn t \<longleftrightarrow> meta_key (rct_meta t) = (nn_Namespace nn, nn_Name nn @ ''-rct'') \<and>
     om_Labels (rct_meta t) = [LabelNumaNetworkName \<mapsto> nn_Name nn] \<and>
     controller_ref nn \<in> set (om_OwnerReferences (rct_meta t)) \<and>
     rct_Spec t = rct_Spec (BuildResourceClaimTemplate nn)"

lemma built_from_template:
  assumes "built_from nn t"
  shows "rcts_Labels (rct_Spec t) = [LabelNumaNetworkName \<mapsto> nn_Name nn]" "om_Namespace (rct_meta t) = nn_Namespace nn"
    "om_UID (nn_meta nn) \<in> or_UID ` set (om_OwnerReferences (rct_meta t))"
proof -
  have "or_UID (controller_ref nn) \<in> or_UID ` set (om_OwnerReferences (rct_meta t))"
    using assms unfolding built_from_def by blast
  then show "om_UID (nn_meta nn) \<in> or_UID ` set (om_OwnerReferences (rct_meta t))" by (simp add: controller_ref_def)
qed (use assms in \<open>simp_all add: built_from_def BuildResourceClaimTemplate_def Let_def meta_key_def\<close>)

lemma owner_set:
  assumes "SetControllerReference ref_util nn m = Inr m'"
  shows "controller_ref nn \<in> set (om_OwnerReferences m')" "meta_key m' = meta_key m"
  using assms by (auto simp: ref_util_def meta_key_def split: if_splits)

text \<open>Templates: at most one is written, and it is built from the NumaNetwork.\<close>

definition writes_template :: "NumaNetwork \<Rightarrow> cluster \<Rightarrow> cluster \<Rightarrow> bool" where
  "writes_template nn w w' \<longleftrightarrow> w' = w \<or>
     (\<exists>t. w' = w\<lparr>cl_rcts := api_put rct_meta t (cl_rcts w)\<rparr> \<and> built_from nn t)"

lemma update_template_writes:
  assumes "built_from nn t"
  shows "writes_template nn w (snd (run_state (UpdateRCT (network_client f) t) w))"
proof -
  have "writes_template nn w (snd (run_state (UpdateRCT cluster_client t) w))"
    using assms by (auto simp: writes_template_def cluster_client_def api_update_def cluster_put split: option.split)
  then show ?thesis by (auto simp: network_client_def run_faulty writes_template_def split: fault.split)
qed

lemma sync_template_writes:
  assumes "meta_key (rct_meta existing) = (nn_Namespace nn, nn_Name nn @ ''-rct'')"
  shows "writes_template nn w (snd (sync_template (network_client f) ref_util nn existing w))"
proof (cases "synced_template ref_util nn existing")
  case (Inl e)
  then show ?thesis by (simp add: sync_template_def writes_template_def)
next
  case (Inr t)
  then have "built_from nn t"
    using assms owner_set by (fastforce simp: synced_template_def built_from_def meta_key_def split: sum.splits)
  from update_template_writes [OF this, of w f] Inr show ?thesis
    by (auto simp: sync_template_def writes_template_def split: prod.split sum.split)
qed

text \<open>A read of a template changes nothing and returns the template that is there, or an error.\<close>

lemma get_template:
  assumes "run_state (GetRCT (network_client f) key) w = (x, w')"
  shows "w' = w \<and> (\<forall>t. x = Inr t \<longrightarrow> map_of (cl_rcts w) key = Some t)"
  using assms by (auto simp: network_client_def run_faulty cluster_client_def api_get_def split: fault.splits option.splits)

lemma create_template_writes:
  assumes "SetControllerReference ref_util nn (rct_meta (BuildResourceClaimTemplate nn)) = Inr meta"
    and "run_state (CreateRCT (network_client f) ((BuildResourceClaimTemplate nn)\<lparr>rct_meta := meta\<rparr>)) w = (y, w')"
  shows "writes_template nn w w' \<and> (y = Inl ErrAlreadyExists \<longrightarrow> w' = w)"
proof -
  let ?d = "(BuildResourceClaimTemplate nn)\<lparr>rct_meta := meta\<rparr>"
  have built: "built_from nn ?d"
    using owner_set(1) [OF assms(1)] desired_key [OF ref_util_ok assms(1)] by (simp add: built_from_def meta_key_def)
  have real: "writes_template nn w (snd (run_state (CreateRCT cluster_client ?d) w)) \<and>
      (isl (fst (run_state (CreateRCT cluster_client ?d) w)) \<longrightarrow> snd (run_state (CreateRCT cluster_client ?d) w) = w)"
    using built by (auto simp: cluster_client_def api_create_def writes_template_def cluster_put split: option.splits)
  have "run_state (faulty (create_template f) (ErrApi ''timeout'') (CreateRCT cluster_client ?d)) w = (y, w')"
    using assms(2) by (simp add: network_client_def)
  then show ?thesis by (cases rule: faulty_cases) (use real in \<open>auto simp: writes_template_def\<close>)
qed

lemma reconcileRCT_writes:
  assumes "\<And>key t. map_of (cl_rcts w) key = Some t \<Longrightarrow> key = meta_key (rct_meta t)"
  shows "writes_template nn w (snd (run_state (reconcileRCT (network_client f) ref_util nn) w))"
proof (cases "SetControllerReference ref_util nn (rct_meta (BuildResourceClaimTemplate nn))")
  case (Inl e)
  then show ?thesis by (simp add: reconcileRCT_def writes_template_def)
next
  case (Inr meta)
  let ?key = "(nn_Namespace nn, nn_Name nn @ ''-rct'')" and ?d = "(BuildResourceClaimTemplate nn)\<lparr>rct_meta := meta\<rparr>"
  obtain x where get: "run_state (GetRCT (network_client f) ?key) w = (x, w)"
    using get_template [of f ?key w] by (metis surj_pair)
  have sync: "writes_template nn w (snd (sync_template (network_client f) ref_util nn t w))" if "x = Inr t" for t
    using get_template [OF get] that assms [of ?key t] by (intro sync_template_writes) simp
  obtain y w2 where c: "run_state (CreateRCT (network_client f) ?d) w = (y, w2)" by (meson surj_pair)
  note create = create_template_writes [OF Inr c]
  have same: "writes_template nn w w" by (simp add: writes_template_def)
  note run = run_reconcileRCT [OF ref_util_ok Inr, of "network_client f" w]
  show ?thesis
  proof (cases x)
    case (Inr existing)
    with get sync show ?thesis by (simp add: run)
  next
    case (Inl e)
    with get c create same show ?thesis by (cases y) (auto simp: run)
  qed
qed

text \<open>The three things a reconciliation can do: nothing; release a NumaNetwork without claims; make sure a
  live NumaNetwork has its finalizer and write its template.\<close>

definition released :: "NumaNetwork \<Rightarrow> NumaNetwork" where
  "released nn = nn\<lparr>nn_meta := (nn_meta nn)\<lparr>om_Finalizers := filter (\<lambda>g. g \<noteq> numaNetworkFinalizer) (om_Finalizers (nn_meta nn))\<rparr>\<rparr>"

definition guarded :: "NumaNetwork \<Rightarrow> NumaNetwork" where
  "guarded nn = (if has_finalizer nn then nn
     else nn\<lparr>nn_meta := (nn_meta nn)\<lparr>om_Finalizers := om_Finalizers (nn_meta nn) @ [numaNetworkFinalizer]\<rparr>\<rparr>)"

definition release_step :: "NumaNetwork \<Rightarrow> cluster \<Rightarrow> cluster \<Rightarrow> bool" where
  "release_step nn w w' \<longleftrightarrow> om_DeletionTimestamp (nn_meta nn) \<noteq> None \<and>
     \<not> list_ex (related (nn_Namespace nn) (nn_Name nn)) (map snd (cl_claims w)) \<and>
     w' = w\<lparr>cl_networks := api_put nn_meta (released nn) (cl_networks w)\<rparr>"

definition live_step :: "NumaNetwork \<Rightarrow> cluster \<Rightarrow> cluster \<Rightarrow> bool" where
  "live_step nn w w' \<longleftrightarrow> om_DeletionTimestamp (nn_meta nn) = None \<and>
     (\<exists>w1. (w1 = w \<and> has_finalizer nn \<or> w1 = w\<lparr>cl_networks := api_put nn_meta (guarded nn) (cl_networks w)\<rparr>) \<and>
        writes_template (guarded nn) w1 w')"

lemma cluster_update_network:
  assumes "map_of (cl_networks w) (meta_key (nn_meta x)) \<noteq> None"
  shows "run_state (UpdateNumaNetwork cluster_client x) w = (Inr x, w\<lparr>cl_networks := api_put nn_meta x (cl_networks w)\<rparr>)"
  using assms by (auto simp: cluster_client_def api_update_def cluster_put)

lemma cluster_list_claims:
  "run_state (ListResourceClaims cluster_client ns [(LabelNumaNetworkName, name)]) w =
     (Inr (filter (related ns name) (map snd (cl_claims w))), w)"
  by (simp add: cluster_client_def api_list_def related_def [abs_def])

text \<open>A write of a NumaNetwork that is there is applied or not; only an applied one can succeed.\<close>

lemma update_network:
  assumes "map_of (cl_networks w) (meta_key (nn_meta x)) \<noteq> None" "run_state (UpdateNumaNetwork (network_client f) x) w = (y, w')"
  shows "y = Inr x \<and> w' = w\<lparr>cl_networks := api_put nn_meta x (cl_networks w)\<rparr> \<or>
    (\<exists>e. y = Inl e) \<and> (w' = w \<or> w' = w\<lparr>cl_networks := api_put nn_meta x (cl_networks w)\<rparr>)"
  using assms(2) by (auto simp: network_client_def run_faulty cluster_update_network [OF assms(1)] split: fault.splits)

lemma get_network:
  assumes "run_state (GetNumaNetwork (network_client f) key) w = (x, w')"
  shows "w' = w \<and> (\<forall>nn. x = Inr nn \<longrightarrow> map_of (cl_networks w) key = Some nn)"
  using assms by (auto simp: network_client_def run_faulty cluster_client_def api_get_def split: fault.splits option.splits)

lemma list_claims_result:
  assumes "run_state (ListResourceClaims (network_client f) ns [(LabelNumaNetworkName, name)]) w = (z, w')"
  shows "w' = w \<and> (\<forall>cs. z = Inr cs \<longrightarrow> cs = filter (related ns name) (map snd (cl_claims w)))"
  using assms by (auto simp: network_client_def run_faulty cluster_list_claims split: fault.splits)

lemma Reconcile_live:
  assumes "keys_ok w" "map_of (cl_networks w) key = Some nn" "om_DeletionTimestamp (nn_meta nn) = None"
    and "run_state (GetNumaNetwork (network_client f) key) w = (Inr nn, w)"
    and w'_def: "w' = snd (run_state (Reconcile (network_client f) ref_util key) w)"
  shows "w' = w \<or> live_step nn w w'"
proof -
  let ?put = "w\<lparr>cl_networks := api_put nn_meta (guarded nn) (cl_networks w)\<rparr>"
  obtain x w1 where ens: "run_state (ensureNumaFinalizer (network_client f) ref_util nn) w = (x, w1)" by (meson surj_pair)
  have k: "map_of (cl_networks w) (meta_key (nn_meta nn)) = Some nn" using assms(1,2) unfolding keys_ok_def by metis
  have x: "(w1 = w \<or> w1 = ?put) \<and> (\<forall>nn'. x = Inr nn' \<longrightarrow> nn' = guarded nn \<and> (w1 = w \<and> has_finalizer nn \<or> w1 = ?put))"
  proof (cases "has_finalizer nn")
    case True
    then show ?thesis using ens by (auto simp: ensureNumaFinalizer_def util_finalizer [OF ref_util_ok] has_finalizer_def guarded_def)
  next
    case False
    obtain y w2 where upd: "run_state (UpdateNumaNetwork (network_client f) (guarded nn)) w = (y, w2)" by (meson surj_pair)
    have "ensureNumaFinalizer (network_client f) ref_util nn =
        call (UpdateNumaNetwork (network_client f) (guarded nn)) (\<lambda>err. fail (AddFinalizerFailed err)) ok"
      using False by (simp add: ensureNumaFinalizer_def util_finalizer [OF ref_util_ok] has_finalizer_def guarded_def)
    with ens upd update_network [OF _ upd] k show ?thesis by (cases y) (auto simp: guarded_def meta_key_def)
  qed
  show ?thesis
  proof (cases x)
    case (Inl e)
    then have "w' = w1" using assms(3,4) ens by (simp add: w'_def run_Reconcile)
    with x assms(3) show ?thesis by (auto simp: live_step_def writes_template_def)
  next
    case (Inr nn')
    then have "nn' = guarded nn" and w1: "w1 = w \<and> has_finalizer nn \<or> w1 = ?put" using x by blast+
    then have w': "w' = snd (run_state (reconcileRCT (network_client f) ref_util (guarded nn)) w1)"
      using assms(3,4) ens Inr by (simp add: w'_def run_Reconcile split: prod.split sum.split)
    have "cl_rcts w1 = cl_rcts w" using w1 by auto
    then have "writes_template (guarded nn) w1 w'"
      unfolding w' using assms(1) unfolding keys_ok_def by (intro reconcileRCT_writes) metis
    with w1 assms(3) show ?thesis unfolding live_step_def by blast
  qed
qed

lemma Reconcile_marked:
  assumes "keys_ok w" "map_of (cl_networks w) key = Some nn" "om_DeletionTimestamp (nn_meta nn) \<noteq> None"
    and "run_state (GetNumaNetwork (network_client f) key) w = (Inr nn, w)"
    and w'_def: "w' = snd (run_state (Reconcile (network_client f) ref_util key) w)"
  shows "w' = w \<or> release_step nn w w'"
proof -
  have k: "map_of (cl_networks w) (meta_key (nn_meta nn)) = Some nn" using assms(1,2) unfolding keys_ok_def by metis
  have w': "w' = snd (run_state (finalizeNumaNetwork (network_client f) ref_util nn) w)"
    using assms(3,4) by (simp add: w'_def run_Reconcile)
  obtain y w2 where upd: "run_state (UpdateNumaNetwork (network_client f) (released nn)) w = (y, w2)" by (meson surj_pair)
  have u: "w2 = w \<or> w2 = w\<lparr>cl_networks := api_put nn_meta (released nn) (cl_networks w)\<rparr>"
    using update_network [OF _ upd] k by (auto simp: released_def meta_key_def)
  obtain z w3 where l3: "run_state (ListResourceClaims (network_client f) (nn_Namespace nn) [(LabelNumaNetworkName, nn_Name nn)]) w = (z, w3)"
    by (meson surj_pair)
  then have l: "run_state (ListResourceClaims (network_client f) (nn_Namespace nn) [(LabelNumaNetworkName, nn_Name nn)]) w = (z, w)"
    and z: "\<And>cs. z = Inr cs \<Longrightarrow> cs = filter (related (nn_Namespace nn) (nn_Name nn)) (map snd (cl_claims w))"
    using list_claims_result [OF l3] by blast+
  have "w' = w \<or> w' = w2 \<and> z = Inr []"
    using l upd by (cases z; cases y) (auto simp: w' finalizeNumaNetwork_def countRelatedResourceClaims_def util_finalizer [OF ref_util_ok]
        has_finalizer_def released_def run_call)
  moreover have "\<not> list_ex (related (nn_Namespace nn) (nn_Name nn)) (map snd (cl_claims w))" if "z = Inr []"
    using z [OF that, symmetric] by (auto simp: filter_empty_conv list_ex_iff simp del: set_map)
  ultimately show ?thesis using u assms(3) unfolding release_step_def by blast
qed

text \<open>With a client that works the deletion is exact.\<close>

lemma Reconcile_deleted:
  assumes "keys_ok w" "map_of (cl_networks w) key = Some nn" "om_DeletionTimestamp (nn_meta nn) \<noteq> None" "has_finalizer nn"
  shows "run_state (Reconcile cluster_client ref_util key) w =
    (if list_ex (related (nn_Namespace nn) (nn_Name nn)) (map snd (cl_claims w)) then (Inr \<lparr>RequeueAfter = 5\<rparr>, w)
     else (Inr \<lparr>RequeueAfter = 0\<rparr>, w\<lparr>cl_networks := api_put nn_meta (released nn) (cl_networks w)\<rparr>))"
proof -
  define cs where "cs = filter (related (nn_Namespace nn) (nn_Name nn)) (map snd (cl_claims w))"
  have get: "run_state (GetNumaNetwork cluster_client key) w = (Inr nn, w)"
    using assms(2) by (simp add: cluster_client_def api_get_def)
  have k: "map_of (cl_networks w) (meta_key (nn_meta nn)) = Some nn" using assms(1,2) unfolding keys_ok_def by metis
  have lst: "run_state (ListResourceClaims cluster_client (nn_Namespace nn) [(LabelNumaNetworkName, nn_Name nn)]) w = (Inr cs, w)"
    by (simp only: cluster_list_claims cs_def)
  have "cs = [] \<longleftrightarrow> \<not> list_ex (related (nn_Namespace nn) (nn_Name nn)) (map snd (cl_claims w))"
    by (auto simp: cs_def filter_empty_conv list_ex_iff simp del: set_map)
  moreover have "run_state (Reconcile cluster_client ref_util key) w =
      (if cs = [] then (Inr \<lparr>RequeueAfter = 0\<rparr>, w\<lparr>cl_networks := api_put nn_meta (released nn) (cl_networks w)\<rparr>)
       else (Inr \<lparr>RequeueAfter = 5\<rparr>, w))"
    using get lst assms(3,4) k cluster_update_network [of w "released nn"]
    by (auto simp: run_Reconcile finalizeNumaNetwork_def countRelatedResourceClaims_def run_call finalizerRequeueDelay_def
        util_finalizer [OF ref_util_ok] has_finalizer_def released_def meta_key_def)
  ultimately show ?thesis by simp
qed

lemma Reconcile_cases:
  assumes "keys_ok w" and w'_def: "w' = snd (run_state (Reconcile (network_client f) ref_util key) w)"
  shows "w' = w \<or> (\<exists>nn. map_of (cl_networks w) key = Some nn \<and> (release_step nn w w' \<or> live_step nn w w'))"
proof -
  obtain x where get: "run_state (GetNumaNetwork (network_client f) key) w = (x, w)" using get_network [of f key w] by (metis surj_pair)
  show ?thesis
  proof (cases x)
    case (Inl e)
    with get show ?thesis by (simp add: w'_def run_Reconcile)
  next
    case (Inr nn)
    then have "map_of (cl_networks w) key = Some nn" using get_network [OF get] by blast
    then show ?thesis
      using Reconcile_live [OF assms(1) _ _ get [unfolded Inr] w'_def] Reconcile_marked [OF assms(1) _ _ get [unfolded Inr] w'_def] by blast
  qed
qed

section \<open>Every step keeps the invariant\<close>

lemma guarded_simps [simp]:
  "meta_key (nn_meta (guarded nn)) = meta_key (nn_meta nn)" "nn_Name (guarded nn) = nn_Name nn"
  "nn_Namespace (guarded nn) = nn_Namespace nn" "has_finalizer (guarded nn)"
  "om_DeletionTimestamp (nn_meta (guarded nn)) = om_DeletionTimestamp (nn_meta nn)"
  "om_UID (nn_meta (guarded nn)) = om_UID (nn_meta nn)"
  by (simp_all add: guarded_def has_finalizer_def meta_key_def)

lemma released_simps [simp]:
  "meta_key (nn_meta (released nn)) = meta_key (nn_meta nn)"
  "om_DeletionTimestamp (nn_meta (released nn)) = om_DeletionTimestamp (nn_meta nn)"
  by (simp_all add: released_def meta_key_def)

lemma marked_simps [simp]:
  "meta_key (nn_meta (marked nn now)) = meta_key (nn_meta nn)" "has_finalizer (marked nn now) = has_finalizer nn"
  "om_DeletionTimestamp (nn_meta (marked nn now)) = Some now" "om_Finalizers (nn_meta (marked nn now)) = om_Finalizers (nn_meta nn)"
  by (simp_all add: marked_def has_finalizer_def meta_key_def)

lemma template_of_guarded [simp]: "template_of (guarded nn) t = template_of nn t"
  by (simp add: template_of_def)

lemma meta_key_conv: "meta_key (nn_meta nn) = (nn_Namespace nn, nn_Name nn)"
  by (simp add: meta_key_def)

lemma safe_put_network:
  assumes "safe w" "map_of (cl_networks w) (meta_key (nn_meta nn)) = Some nn" "meta_key (nn_meta x) = meta_key (nn_meta nn)"
    and "om_DeletionTimestamp (nn_meta x) = None \<Longrightarrow> has_finalizer x"
    and "has_finalizer nn \<Longrightarrow> has_finalizer x \<or> \<not> list_ex (related (nn_Namespace nn) (nn_Name nn)) (map snd (cl_claims w))"
  shows "safe (w\<lparr>cl_networks := api_put nn_meta x (cl_networks w)\<rparr>)"
proof -
  have fin: "om_Finalizers (nn_meta x) \<noteq> []" if "has_finalizer x" using that by (auto simp: has_finalizer_def)
  have "keys_ok (w\<lparr>cl_networks := api_put nn_meta x (cl_networks w)\<rparr>)"
    using assms(1,3) by (auto simp: safe_def keys_ok_def map_of_api_put)
  moreover have "templates_ok (w\<lparr>cl_networks := api_put nn_meta x (cl_networks w)\<rparr>)"
    using assms(1,4) unfolding safe_def templates_ok_def by (auto simp: map_of_api_put split: if_splits)
  moreover have "claims_ok (w\<lparr>cl_networks := api_put nn_meta x (cl_networks w)\<rparr>)"
    unfolding claims_ok_def
  proof (intro allI impI)
    fix cl ns name
    assume cl: "cl \<in> set (map snd (cl_claims (w\<lparr>cl_networks := api_put nn_meta x (cl_networks w)\<rparr>)))" "related ns name cl"
    then obtain mm where mm: "map_of (cl_networks w) (ns, name) = Some mm" "has_finalizer mm"
      using assms(1) unfolding safe_def claims_ok_def by (simp del: set_map) blast
    show "\<exists>nn. map_of (cl_networks (w\<lparr>cl_networks := api_put nn_meta x (cl_networks w)\<rparr>)) (ns, name) = Some nn \<and> has_finalizer nn"
    proof (cases "(ns, name) = meta_key (nn_meta nn)")
      case False
      with mm assms(3) show ?thesis by (auto simp: map_of_api_put)
    next
      case True
      with mm assms(2) have "mm = nn" by simp
      have "list_ex (related (nn_Namespace nn) (nn_Name nn)) (map snd (cl_claims w))"
        using cl True by (auto simp: list_ex_iff meta_key_conv)
      with assms(5) mm \<open>mm = nn\<close> have "has_finalizer x" by blast
      with True fin assms(3) show ?thesis by (auto simp: map_of_api_put)
    qed
  qed
  ultimately show ?thesis by (simp add: safe_def)
qed

lemma safe_writes_template:
  assumes "safe w" "map_of (cl_networks w) (meta_key (nn_meta nn)) = Some nn" "has_finalizer nn" "writes_template nn w w'"
  shows "safe w'"
proof (cases "w' = w")
  case False
  with assms(4) obtain t where t: "w' = w\<lparr>cl_rcts := api_put rct_meta t (cl_rcts w)\<rparr>"
    "rcts_Labels (rct_Spec t) = [LabelNumaNetworkName \<mapsto> nn_Name nn]" "om_Namespace (rct_meta t) = nn_Namespace nn"
    using built_from_template by (auto simp: writes_template_def)
  have keys: "keys_ok w" and tm: "templates_ok w" and cl: "claims_ok w" using assms(1) by (simp_all add: safe_def)
  have new: "has_finalizer mm" if "map_of (cl_networks w) key = Some mm" "template_of mm t" for key mm
  proof -
    have "key = meta_key (nn_meta mm)" using that(1) keys unfolding keys_ok_def by blast
    then have "key = meta_key (nn_meta nn)" using that(2) t(2,3) by (simp add: template_of_def meta_key_conv)
    with that(1) assms(2,3) show ?thesis by simp
  qed
  have "templates_ok w'"
    unfolding templates_ok_def
  proof (intro allI impI)
    fix key mm s
    assume mm: "map_of (cl_networks w') key = Some mm" "om_DeletionTimestamp (nn_meta mm) = None"
      "s \<in> set (map snd (cl_rcts w'))" "template_of mm s"
    have "s \<in> snd ` set (api_put rct_meta t (cl_rcts w))" using mm(3) t(1) by simp
    then consider "s \<in> set (map snd (cl_rcts w))" | "s = t" by (auto dest!: api_put_set simp del: image_iff)
    moreover have "map_of (cl_networks w) key = Some mm" using mm(1) t(1) by simp
    ultimately show "has_finalizer mm"
      by cases (use mm(2,4) tm new in \<open>unfold templates_ok_def, blast+\<close>)
  qed
  moreover have "keys_ok w'" using keys t(1) by (auto simp: keys_ok_def map_of_api_put)
  moreover have "claims_ok w'" using cl t(1) by (simp add: claims_ok_def)
  ultimately show ?thesis by (simp add: safe_def)
qed (use assms in simp)

lemma safe_reconcile:
  assumes "safe w"
  shows "safe (snd (run_state (Reconcile (network_client f) ref_util key) w))"
proof -
  define w' where "w' = snd (run_state (Reconcile (network_client f) ref_util key) w)"
  have keys: "keys_ok w" using assms by (simp add: safe_def)
  consider "w' = w" | (release) nn where "map_of (cl_networks w) key = Some nn" "release_step nn w w'"
    | (live) nn where "map_of (cl_networks w) key = Some nn" "live_step nn w w'"
    using Reconcile_cases [OF keys w'_def] by blast
  then have "safe w'"
  proof cases
    case release
    then have "map_of (cl_networks w) (meta_key (nn_meta nn)) = Some nn" using keys unfolding keys_ok_def by metis
    with release(2) assms show ?thesis by (auto simp: release_step_def intro!: safe_put_network)
  next
    case live
    then have nn: "map_of (cl_networks w) (meta_key (nn_meta nn)) = Some nn" using keys unfolding keys_ok_def by metis
    obtain w1 where w1: "w1 = w \<and> has_finalizer nn \<or> w1 = w\<lparr>cl_networks := api_put nn_meta (guarded nn) (cl_networks w)\<rparr>"
      "writes_template (guarded nn) w1 w'" using live(2) unfolding live_step_def by blast
    have "safe w1" using w1(1) safe_put_network [OF assms nn, of "guarded nn"] assms by auto
    moreover have "map_of (cl_networks w1) (meta_key (nn_meta (guarded nn))) = Some (guarded nn)"
      using w1(1) nn live(2) by (auto simp: map_of_api_put live_step_def guarded_def)
    ultimately show ?thesis by (rule safe_writes_template [OF _ _ _ w1(2)]) simp
  qed (simp add: assms)
  then show ?thesis by (simp add: w'_def)
qed

lemma step_safe: "step w w' \<Longrightarrow> safe w \<Longrightarrow> safe w'"
proof (induction rule: step.induct)
  case (reconcile w f key)
  then show ?case by (rule safe_reconcile)
next
  case (create_network nn w)
  let ?w = "w\<lparr>cl_networks := (meta_key (nn_meta nn), nn) # cl_networks w\<rparr>"
  have new: "t \<notin> set (map snd (cl_rcts w))" if "template_of nn t" for t
    using create_network(4) that by (auto simp: list_ex_iff)
  have "keys_ok ?w" using create_network(5) by (simp add: safe_def keys_ok_def)
  moreover have "templates_ok ?w"
    using create_network(5) new unfolding safe_def templates_ok_def by (auto split: if_splits simp del: set_map)
  moreover have "claims_ok ?w"
    using create_network(2,5) unfolding safe_def claims_ok_def by (simp del: set_map) (metis option.distinct(1))
  ultimately show ?case by (simp add: safe_def)
next
  case (delete_network w key nn now)
  then have nn: "map_of (cl_networks w) (meta_key (nn_meta nn)) = Some nn" unfolding safe_def keys_ok_def by metis
  show ?case by (rule safe_put_network [OF delete_network(2) nn]) simp_all
next
  case (create_claim w key nn t cl)
  have "key = meta_key (nn_meta nn)" "has_finalizer nn"
    using create_claim unfolding safe_def keys_ok_def templates_ok_def by blast+
  then have "\<exists>nn. map_of (cl_networks w) (ns, name) = Some nn \<and> has_finalizer nn" if "related ns name cl" for ns name
    using that create_claim by (auto simp: related_def template_of_def meta_key_conv)
  with create_claim(7) show ?case
    unfolding safe_def keys_ok_def templates_ok_def claims_ok_def by (simp del: set_map)
next
  case (release_claim w k)
  have "set (map snd (filter (\<lambda>p. fst p \<noteq> k) (cl_claims w))) \<subseteq> set (map snd (cl_claims w))" by auto
  with release_claim show ?case
    unfolding safe_def keys_ok_def templates_ok_def claims_ok_def by (simp del: set_map) blast
next
  case (collect_template w k)
  have "set (map snd (filter (\<lambda>p. fst p \<noteq> k) (cl_rcts w))) \<subseteq> set (map snd (cl_rcts w))" by auto
  with collect_template show ?case
    unfolding safe_def keys_ok_def templates_ok_def claims_ok_def
    by (simp add: map_of_drop_key del: set_map) blast
qed

lemma reachable_safe: "reachable w \<Longrightarrow> safe w"
proof (induction rule: reachable.induct)
  case start
  show ?case by (simp add: safe_def keys_ok_def templates_ok_def claims_ok_def empty_cluster_def)
next
  case (more w w')
  then show ?case using step_safe by blast
qed


text \<open>What the API server has checked stays true: the controller never changes a name or a specification.\<close>

definition networks_valid :: "cluster \<Rightarrow> bool" where
  "networks_valid w \<longleftrightarrow> (\<forall>key nn. map_of (cl_networks w) key = Some nn \<longrightarrow> api_valid nn)"

lemma api_valid_simps [simp]:
  "api_valid (guarded nn) = api_valid nn" "api_valid (released nn) = api_valid nn" "api_valid (marked nn now) = api_valid nn"
  by (simp_all add: api_valid_def guarded_def released_def marked_def)

lemma networks_valid_put:
  "networks_valid w \<Longrightarrow> api_valid x \<Longrightarrow> networks_valid (w\<lparr>cl_networks := api_put nn_meta x (cl_networks w)\<rparr>)"
  by (simp add: networks_valid_def map_of_api_put)

lemma writes_template_networks: "writes_template nn w w' \<Longrightarrow> cl_networks w' = cl_networks w"
  by (auto simp: writes_template_def)

lemma Reconcile_valid:
  assumes "keys_ok w" "networks_valid w"
  shows "networks_valid (snd (run_state (Reconcile (network_client f) ref_util key) w))"
proof -
  let ?w' = "snd (run_state (Reconcile (network_client f) ref_util key) w)"
  consider "?w' = w" | (release) nn where "map_of (cl_networks w) key = Some nn" "release_step nn w ?w'"
    | (live) nn where "map_of (cl_networks w) key = Some nn" "live_step nn w ?w'"
    using Reconcile_cases [OF assms(1) refl] by blast
  then show ?thesis
  proof cases
    case release
    then have "api_valid nn" using assms(2) unfolding networks_valid_def by blast
    with release(2) assms(2) show ?thesis by (simp add: release_step_def networks_valid_put)
  next
    case live
    then have v: "api_valid nn" using assms(2) unfolding networks_valid_def by blast
    from live(2) obtain w1 where w1: "w1 = w \<or> w1 = w\<lparr>cl_networks := api_put nn_meta (guarded nn) (cl_networks w)\<rparr>"
      "writes_template (guarded nn) w1 ?w'" unfolding live_step_def by blast
    have "networks_valid w1" using w1(1) assms(2) v networks_valid_put [OF assms(2), of "guarded nn"] by auto
    with writes_template_networks [OF w1(2)] show ?thesis by (simp add: networks_valid_def)
  qed (use assms in simp)
qed

lemma reachable_valid: "reachable w \<Longrightarrow> networks_valid w"
proof (induction rule: reachable.induct)
  case start
  show ?case by (simp add: networks_valid_def empty_cluster_def)
next
  case (more w w')
  have keys: "keys_ok w" using reachable_safe [OF more(1)] by (simp add: safe_def)
  from more(2) show ?case
  proof cases
    case (delete_network key nn now)
    then have "api_valid nn" using more(3) unfolding networks_valid_def by blast
    with delete_network(1) more(3) show ?thesis by (simp add: networks_valid_put)
  qed (use more(3) Reconcile_valid [OF keys more(3)] in \<open>auto simp: networks_valid_def split: if_splits\<close>)
qed


lemma spec_simps [simp]:
  "nn_Spec (guarded nn) = nn_Spec nn" "nn_Spec (released nn) = nn_Spec nn" "nn_Spec (marked nn now) = nn_Spec nn"
  "om_UID (nn_meta (released nn)) = om_UID (nn_meta nn)" "om_UID (nn_meta (marked nn now)) = om_UID (nn_meta nn)"
  by (simp_all add: guarded_def released_def marked_def)






lemma claim_network:
  assumes "reachable w" "cl \<in> set (map snd (cl_claims w))" "related ns name cl"
  obtains nn where "run_state (GetNumaNetwork cluster_client (ns, name)) w = (Inr nn, w)" "has_finalizer nn"
    "nn_Namespace nn = ns" "nn_Name nn = name" "api_valid nn"
proof -
  have inv: "safe w" "networks_valid w" using reachable_safe reachable_valid assms(1) by blast+
  then obtain nn where nn: "map_of (cl_networks w) (ns, name) = Some nn" "has_finalizer nn"
    using assms(2,3) unfolding safe_def claims_ok_def by blast
  moreover have "(ns, name) = meta_key (nn_meta nn)" "api_valid nn"
    using nn(1) inv unfolding safe_def keys_ok_def networks_valid_def by blast+
  ultimately show ?thesis using that by (simp add: cluster_client_def api_get_def meta_key_conv)
qed

section \<open>Properties\<close>


text \<open>C1: the finalizer does its work.  In every cluster reached by reconciliations, with any of their calls failing or
  taking effect unreported, interleaved with what users and the scheduler do, each ResourceClaim made from the template of a NumaNetwork finds that NumaNetwork: the
  read the IPAM webhook does when it allocates or releases the claim's address succeeds.\<close>

theorem claims_find_their_network:
  assumes "reachable w" "cl \<in> set (map snd (cl_claims w))"
    and "om_Namespace (rc_meta cl) = ns" "om_Labels (rc_meta cl) LabelNumaNetworkName = Some name"
  shows "\<exists>nn. run_state (GetNumaNetwork cluster_client (ns, name)) w = (Inr nn, w) \<and> has_finalizer nn"
proof -
  have "related ns name cl" using assms(3,4) by (simp add: related_def)
  from claim_network [OF assms(1,2) this] show ?thesis by metis
qed

text \<open>C25: deletion completes.  In every reachable cluster, take a NumaNetwork that is marked for deletion and carries this
  controller's finalizer, with no ResourceClaim left.  One reconciliation whose calls all work succeeds, is not to be
  repeated, and takes the finalizer off: the NumaNetwork is gone when that was the last finalizer, and otherwise stays
  with the finalizers of others and every other field as they were.  Nothing else in the cluster changes.\<close>

theorem deletion_completes:
  assumes "reachable w" "map_of (cl_networks w) (ns, name) = Some nn" "om_DeletionTimestamp (nn_meta nn) \<noteq> None"
    and "numaNetworkFinalizer \<in> set (om_Finalizers (nn_meta nn))" "\<not> list_ex (related ns name) (map snd (cl_claims w))"
    and "others = filter (\<lambda>f. f \<noteq> numaNetworkFinalizer) (om_Finalizers (nn_meta nn))"
    and "run_state (Reconcile cluster_client ref_util (ns, name)) w = (r, w')"
  shows "r = Inr \<lparr>RequeueAfter = 0\<rparr> \<and>
    map_of (cl_networks w') = (map_of (cl_networks w))((ns, name) :=
      (if others = [] then None else Some (nn\<lparr>nn_meta := (nn_meta nn)\<lparr>om_Finalizers := others\<rparr>\<rparr>))) \<and>
    w'\<lparr>cl_networks := cl_networks w\<rparr> = w"
proof -
  have keys: "keys_ok w" using reachable_safe [OF assms(1)] by (simp add: safe_def)
  then have k: "meta_key (nn_meta nn) = (ns, name)" using assms(2) unfolding keys_ok_def by metis
  have "run_state (Reconcile cluster_client ref_util (ns, name)) w =
      (Inr \<lparr>RequeueAfter = 0\<rparr>, w\<lparr>cl_networks := api_put nn_meta (released nn) (cl_networks w)\<rparr>)"
    using Reconcile_deleted [OF keys assms(2,3)] assms(4,5) k by (simp add: has_finalizer_def meta_key_conv)
  with assms(3,6,7) k show ?thesis by (auto simp: map_of_api_put released_def meta_key_def)
qed

section \<open>A run\<close>

text \<open>A NumaNetwork is created and reconciled, a claim is made from its template and goes away, the
  NumaNetwork is deleted.\<close>

definition run_created :: cluster where
  "run_created = empty_cluster\<lparr>cl_networks := [((''ns'', ''a''), fresh_network)]\<rparr>"

definition run_reconciled :: cluster where
  "run_reconciled = run_created\<lparr>cl_networks := [((''ns'', ''a''), guarded fresh_network)],
     cl_rcts := [((''ns'', ''a-rct''), fresh_template)]\<rparr>"

definition run_claimed :: cluster where
  "run_claimed = run_reconciled\<lparr>cl_claims := [((''ns'', ''c''), example_claim)]\<rparr>"

definition run_deleted :: cluster where
  "run_deleted = run_reconciled\<lparr>cl_networks := [((''ns'', ''a''), marked (guarded fresh_network) 1)]\<rparr>"

lemmas run_defs = run_created_def run_reconciled_def run_claimed_def run_deleted_def fresh_network_def empty_cluster_def
  mk_network_def empty_meta_def

lemma example_range: "ipRange_valid ''10.0.0.0/24''"
  by code_simp

lemma fresh_network_valid: "api_valid fresh_network"
  using example_range by (simp add: api_valid_def fresh_network_def mk_network_def empty_meta_def)

lemma run_created_reachable: "reachable run_created"
  using reachable.more [OF reachable.start step.create_network [OF fresh_network_valid, of empty_cluster]]
  by (simp add: run_defs meta_key_def)

definition no_network_faults :: network_faults where
  "no_network_faults = \<lparr>read_network = Works, write_network = Works, list_claims = Works,
     read_template = Works, create_template = Works, update_template = Works\<rparr>"

lemma network_client_works: "network_client no_network_faults = cluster_client"
  by (simp add: network_client_def no_network_faults_def)

lemma run_reconciled_reachable: "reachable run_reconciled"
proof -
  have "snd (run_state (Reconcile cluster_client ref_util (''ns'', ''a'')) run_created) = run_reconciled"
    by (simp add: Reconcile_def ensureNumaFinalizer_def reconcileRCT_def BuildResourceClaimTemplate_def run_call
        run_defs example_defs api_defs ref_util_def IsNotFound_def Let_def guarded_def has_finalizer_def fresh_template_def fresh_owner_def
        controller_ref_def)
  with reachable.more [OF run_created_reachable step.reconcile [of _ no_network_faults "(''ns'', ''a'')"]] show ?thesis
    by (simp add: network_client_works)
qed

lemma run_claimed_reachable: "reachable run_claimed"
  using reachable.more [OF run_reconciled_reachable step.create_claim
      [of _ "(''ns'', ''a'')" "guarded fresh_network" fresh_template example_claim]]
  by (simp add: run_claimed_def)
    (simp add: run_defs template_of_def fresh_template_def fresh_owner_def BuildResourceClaimTemplate_def controller_ref_def example_defs meta_key_def)

lemma run_deleted_reachable: "reachable run_deleted"
  using reachable.more [OF run_reconciled_reachable step.delete_network [of _ "(''ns'', ''a'')" "guarded fresh_network" 1]]
  by (simp add: run_deleted_def) (simp add: run_defs api_put_def meta_key_def guarded_def has_finalizer_def marked_def)

theorem claims_find_their_network_witness:
  "\<exists>nn. run_state (GetNumaNetwork cluster_client (''ns'', ''a'')) run_claimed = (Inr nn, run_claimed) \<and> has_finalizer nn"
  by (rule claims_find_their_network [OF run_claimed_reachable, of example_claim])
    (simp_all add: run_claimed_def example_defs)

theorem deletion_completes_witness:
  "\<exists>w'. run_state (Reconcile cluster_client ref_util (''ns'', ''a'')) run_deleted = (Inr \<lparr>RequeueAfter = 0\<rparr>, w') \<and>
     map_of (cl_networks w') (''ns'', ''a'') = None"
proof -
  obtain r w' where run: "run_state (Reconcile cluster_client ref_util (''ns'', ''a'')) run_deleted = (r, w')" by (meson surj_pair)
  have "map_of (cl_networks run_deleted) (''ns'', ''a'') = Some (marked (guarded fresh_network) 1)"
    "\<not> list_ex (related ''ns'' ''a'') (map snd (cl_claims run_deleted))"
    by (simp_all add: run_deleted_def run_reconciled_def run_created_def empty_cluster_def)
  moreover have "om_Finalizers (nn_meta (marked (guarded fresh_network) 1)) = [numaNetworkFinalizer]"
    by (simp add: run_defs guarded_def has_finalizer_def)
  ultimately show ?thesis using deletion_completes [OF run_deleted_reachable _ _ _ _ refl run] run by fastforce
qed


end
