(* ===== verification/PodLifecycle.thy ===== *)
theory PodLifecycle
  imports VertexDomainController VertexDomain Faults
begin

text \<open>
  The vertex domain controller running against an API server and etcd that may both fail, as a state machine.

  The states are those of the reference API server beside those of the reference etcd.  A step is one
  reconciliation, in which each call may work, be refused, or take effect and still report an error; or it is
  something the environment does: a Pod the webhook has admitted is created, a Pod is marked for deletion, its
  status changes, the ResourceClaims change.  The invariant is that DNS never names a Pod that is gone: each record belongs to
  a Pod in the cluster that carries that FQDN and still holds the finalizer.
\<close>

section \<open>Faults\<close>

record faults =
  read_pod :: fault
  read_claim :: fault
  write_pod :: fault
  write_etcd :: fault

definition faulty_client :: "faults \<Rightarrow> dual Client" where
  "faulty_client f = dual_client\<lparr>
     GetPod := (\<lambda>k. faulty (read_pod f) (ErrApi ''timeout'') (GetPod dual_client k)),
     UpdatePod := (\<lambda>x. faulty (write_pod f) (ErrApi ''timeout'') (UpdatePod dual_client x)),
     GetResourceClaim := (\<lambda>k. faulty (read_claim f) (ErrApi ''timeout'') (GetResourceClaim dual_client k))\<rparr>"

definition faulty_etcd :: "faults \<Rightarrow> dual EtcdClient" where
  "faulty_etcd f = dual_etcd\<lparr>
     etcd_Put := (\<lambda>k v. faulty (write_etcd f) ''timeout'' (etcd_Put dual_etcd k v)),
     etcd_Delete := (\<lambda>k. faulty (write_etcd f) ''timeout'' (etcd_Delete dual_etcd k))\<rparr>"

abbreviation faulty_store :: "faults \<Rightarrow> dual Store" where
  "faulty_store f \<equiv> etcd_as_store \<lparr>client = faulty_etcd f\<rparr>"

abbreviation dns_records :: "dual \<Rightarrow> records" where
  "dns_records \<equiv> etcd_records dual_kv"

section \<open>Steps\<close>

text \<open>A Pod as the API server stores it after the webhook: a name that can be part of a key, and an FQDN built for
  the Pod's own namespace, if it has one.\<close>

definition pod_admitted :: "Pod \<Rightarrow> bool" where
  "pod_admitted pod \<longleftrightarrow> pod_id (om_Name (pod_meta pod)) \<and>
     (\<forall>f. vertex_pod pod f \<longrightarrow> (\<exists>v p. BuildVertexDomain v p (om_Namespace (pod_meta pod)) = Inr f))"

definition put_pod :: "Pod \<Rightarrow> dual \<Rightarrow> dual" where
  "put_pod x w = ((fst w)\<lparr>cl_pods := api_put pod_meta x (cl_pods (fst w))\<rparr>, snd w)"

abbreviation pod_of :: "dual \<Rightarrow> NamespacedName \<rightharpoonup> Pod" where
  "pod_of w \<equiv> map_of (cl_pods (fst w))"

inductive pod_step :: "dual \<Rightarrow> dual \<Rightarrow> bool" where
  reconcile: "pod_step w (snd (run_state (Reconcile (faulty_client f) ref_util (faulty_store f) key) w))"
| create: "pod_of w (meta_key (pod_meta pod)) = None \<Longrightarrow> pod_admitted pod \<Longrightarrow> om_DeletionTimestamp (pod_meta pod) = None \<Longrightarrow>
    pod_step w (put_pod pod w)"
| delete: "pod_of w key = Some pod \<Longrightarrow>
    pod_step w (put_pod (pod\<lparr>pod_meta := (pod_meta pod)\<lparr>om_DeletionTimestamp := Some now\<rparr>\<rparr>) w)"
| status: "pod_of w key = Some pod \<Longrightarrow> pod_step w (put_pod (pod\<lparr>pod_ResourceClaimStatuses := css\<rparr>) w)"
| claims: "pod_step w ((fst w)\<lparr>cl_claims := cs\<rparr>, snd w)"

inductive pod_reachable :: "dual \<Rightarrow> bool" where
  start: "pod_reachable (empty_cluster, [])"
| more: "pod_reachable w \<Longrightarrow> pod_step w w' \<Longrightarrow> pod_reachable w'"

section \<open>The invariant\<close>

definition holds_finalizer :: "Pod \<Rightarrow> bool" where
  "holds_finalizer pod \<longleftrightarrow> vertexDomainFinalizer \<in> set (om_Finalizers (pod_meta pod))"

definition pods_ok :: "dual \<Rightarrow> bool" where
  "pods_ok w \<longleftrightarrow> (\<forall>key pod. pod_of w key = Some pod \<longrightarrow> key = meta_key (pod_meta pod) \<and> pod_admitted pod)"

definition records_ok :: "dual \<Rightarrow> bool" where
  "records_ok w \<longleftrightarrow> (\<forall>f p ip. dns_records w (f, p) = Some ip \<longrightarrow>
     (\<exists>ns pod. pod_of w (ns, p) = Some pod \<and> vertex_pod pod f \<and> holds_finalizer pod))"

definition dns_safe :: "dual \<Rightarrow> bool" where
  "dns_safe w \<longleftrightarrow> etcd_good dual_kv w \<and> pods_ok w \<and> records_ok w"

section \<open>Faulty calls\<close>

lemma faulty_etcd_ok: "etcd_ok (faulty_etcd f) dual_kv"
proof -
  have put: "dual_kv w' = (dual_kv w)(k \<mapsto> v)" if "run_state (etcd_Put dual_etcd k v) w = (r, w')" for k v w r w'
    using that by (auto simp: dual_etcd_def run_on_snd mem_etcd_def dual_kv_def map_of_filter_neq)
  have del: "dual_kv w' = (dual_kv w)(k := None)" if "run_state (etcd_Delete dual_etcd k) w = (r, w')" for k w r w'
    using that by (auto simp: dual_etcd_def run_on_snd mem_etcd_def dual_kv_def map_of_filter_neq)
  have "dual_kv w' = (dual_kv w)(k \<mapsto> v) \<or> (\<exists>e. r = Inl e) \<and> dual_kv w' = dual_kv w"
    if "run_state (etcd_Put (faulty_etcd f) k v) w = (r, w')" for k v w r w'
    using that put [of k v w] by (cases "run_state (etcd_Put dual_etcd k v) w") (auto simp: faulty_etcd_def run_faulty split: fault.splits)
  moreover have "dual_kv w' = (dual_kv w)(k := None) \<or> (\<exists>e. r = Inl e) \<and> dual_kv w' = dual_kv w"
    if "run_state (etcd_Delete (faulty_etcd f) k) w = (r, w')" for k w r w'
    using that del [of k w] by (cases "run_state (etcd_Delete dual_etcd k) w") (auto simp: faulty_etcd_def run_faulty split: fault.splits)
  moreover have "dual_kv w' = dual_kv w \<and> (\<forall>kvs. r = Inr kvs \<longrightarrow> distinct (map fst kvs) \<and>
      set kvs = {(k', v). dual_kv w k' = Some v \<and> prefix k k'})"
    if "run_state (etcd_GetPrefix (faulty_etcd f) k) w = (r, w')" for k w r w'
  proof -
    have "run_state (etcd_GetPrefix dual_etcd k) w = (r, w')" using that by (simp add: faulty_etcd_def)
    from etcd_ok_get [OF dual_etcd_ok this] show ?thesis by blast
  qed
  ultimately show ?thesis unfolding etcd_ok_def by blast
qed

lemma faulty_dns_store: "dns_store (faulty_store f) dns_records (etcd_good dual_kv)"
  by (rule dns_store_etcd) (simp add: faulty_etcd_ok)

text \<open>The store leaves the cluster alone.\<close>

lemma store_fst:
  "fst (snd (run_state (Store_Put (faulty_store f) d p ip) w)) = fst w"
  "fst (snd (run_state (Store_Delete (faulty_store f) d p) w)) = fst w"
proof -
  have "keeps (\<lambda>w'. fst w' = c) (Store_Put (faulty_store f) d p ip)" "keeps (\<lambda>w'. fst w' = c) (Store_Delete (faulty_store f) d p)" for c
    unfolding etcd_as_store_def Put_def Delete_def Let_def Store.simps
    by (auto intro!: keeps_call keeps_faulty keeps_on_snd simp: dual_etcd_def faulty_etcd_def split: sum.split)
  then show "fst (snd (run_state (Store_Put (faulty_store f) d p ip) w)) = fst w"
    "fst (snd (run_state (Store_Delete (faulty_store f) d p) w)) = fst w" unfolding keeps_def by blast+
qed

lemma records_fst: "dns_records (a, b) = dns_records (a', b)" "etcd_good dual_kv (a, b) = etcd_good dual_kv (a', b)"
  using dual_frame [of a b "dns_records (a, b)" a'] dual_frame [of a b "dns_records (a', b)" a'] etcd_same [of dual_kv "(a, b)" "(a', b)"]
  by (simp_all add: dual_kv_def)

text \<open>A write of a Pod that is there is applied or not; only an applied one can succeed.\<close>

lemma update_pod:
  assumes "pod_of w (meta_key (pod_meta x)) \<noteq> None" "run_state (UpdatePod (faulty_client f) x) w = (r, w')"
  shows "r = Inr x \<and> w' = put_pod x w \<or> (\<exists>e. r = Inl e) \<and> (w' = w \<or> w' = put_pod x w)"
  using assms by (cases w; cases "write_pod f")
    (auto simp: faulty_client_def run_faulty dual_client_def run_on_fst cluster_client_def api_update_def put_pod_def split: option.splits)

lemma get_claim_keeps: "keeps (\<lambda>w'. w' = w) (GetResourceClaim (faulty_client f) k)"
  by (auto simp: faulty_client_def dual_client_def keeps_def run_faulty run_on_fst cluster_client_def api_get_def split: fault.split)

lemma extract_pure: "snd (run_state (extractSecondaryNICIP (faulty_client f) pod) w) = w"
  using claims_ip_keeps [of "\<lambda>w'. w' = w" "faulty_client f"] get_claim_keeps unfolding extractSecondaryNICIP_def keeps_def by blast

lemma get_pod:
  "run_state (GetPod (faulty_client f) key) w = (r, w') \<Longrightarrow> w' = w \<and> (\<forall>pod. r = Inr pod \<longrightarrow> pod_of w key = Some pod)"
  by (cases w) (auto simp: faulty_client_def run_faulty dual_client_def run_on_fst cluster_client_def api_get_def
      split: fault.splits option.splits)


section \<open>What a reconciliation does\<close>

definition released_pod :: "Pod \<Rightarrow> Pod" where
  "released_pod pod = pod\<lparr>pod_meta := (pod_meta pod)\<lparr>om_Finalizers := filter (\<lambda>g. g \<noteq> vertexDomainFinalizer) (om_Finalizers (pod_meta pod))\<rparr>\<rparr>"

definition guarded_pod :: "Pod \<Rightarrow> Pod" where
  "guarded_pod pod = (if holds_finalizer pod then pod
     else pod\<lparr>pod_meta := (pod_meta pod)\<lparr>om_Finalizers := om_Finalizers (pod_meta pod) @ [vertexDomainFinalizer]\<rparr>\<rparr>)"

lemma released_pod_simps [simp]:
  "meta_key (pod_meta (released_pod pod)) = meta_key (pod_meta pod)" "om_Name (pod_meta (released_pod pod)) = om_Name (pod_meta pod)"
  "vertex_pod (released_pod pod) f = vertex_pod pod f" "pod_admitted (released_pod pod) = pod_admitted pod"
  by (simp_all add: released_pod_def meta_key_def vertex_pod_def pod_admitted_def)

lemma guarded_pod_simps [simp]:
  "meta_key (pod_meta (guarded_pod pod)) = meta_key (pod_meta pod)" "om_Name (pod_meta (guarded_pod pod)) = om_Name (pod_meta pod)"
  "vertex_pod (guarded_pod pod) f = vertex_pod pod f" "pod_admitted (guarded_pod pod) = pod_admitted pod" "holds_finalizer (guarded_pod pod)"
  "om_DeletionTimestamp (pod_meta (guarded_pod pod)) = om_DeletionTimestamp (pod_meta pod)"
  by (simp_all add: guarded_pod_def meta_key_def vertex_pod_def pod_admitted_def holds_finalizer_def)

lemma put_pod_simps [simp]:
  "snd (put_pod x w) = snd w"
  "pod_of (put_pod x w) = (pod_of w)(meta_key (pod_meta x) :=
     (if om_DeletionTimestamp (pod_meta x) \<noteq> None \<and> om_Finalizers (pod_meta x) = [] then None else Some x))"
  by (simp_all add: put_pod_def map_of_api_put)

lemma dns_snd: "snd w' = snd w \<Longrightarrow> dns_records w' = dns_records w \<and> etcd_good dual_kv w' = etcd_good dual_kv w"
  using records_fst [of "fst w'" "snd w" "fst w"] by (cases w; cases w') simp

lemma finalize_step:
  assumes "etcd_good dual_kv w" "vertex_fqdn d" "pod_id (om_Name (pod_meta pod))" "pod_of w (meta_key (pod_meta pod)) = Some pod"
    and "run_state (finalizePod (faulty_client f) ref_util (faulty_store f) pod d) w = (r, w')"
  shows "etcd_good dual_kv w' \<and>
    (dns_records w' = dns_records w \<and> fst w' = fst w \<or>
     dns_records w' = (dns_records w)((d, om_Name (pod_meta pod)) := None) \<and> (fst w' = fst w \<or> fst w' = fst (put_pod (released_pod pod) w)))"
proof (cases "holds_finalizer pod")
  case False
  then show ?thesis using assms(1,5) by (simp add: finalizePod_def ref_util_def holds_finalizer_def)
next
  case True
  obtain x w1 where del: "run_state (Store_Delete (faulty_store f) d (om_Name (pod_meta pod))) w = (x, w1)" by (meson surj_pair)
  have fst1: "fst w1 = fst w" using store_fst(2) [of f d "om_Name (pod_meta pod)" w] del by simp
  obtain y w2 where upd: "run_state (UpdatePod (faulty_client f) (released_pod pod)) w1 = (y, w2)" by (meson surj_pair)
  have run: "(r, w') = (case x of Inl e \<Rightarrow> (Inl (DeleteDNSRecordFailed d e), w1)
      | Inr _ \<Rightarrow> (case y of Inl e \<Rightarrow> Inl (RemovePodFinalizerFailed e) | Inr _ \<Rightarrow> Inr \<lparr>RequeueAfter = 0\<rparr>, w2))"
    using assms(5) True del upd
    by (cases x; cases y) (simp_all add: finalizePod_def ref_util_def holds_finalizer_def released_pod_def)
  show ?thesis
  proof (cases x)
    case (Inl e)
    then show ?thesis using dns_store.delete_err [OF faulty_dns_store assms(1-3)] del run fst1 by fastforce
  next
    case (Inr un)
    then have "etcd_good dual_kv w1 \<and> dns_records w1 = (dns_records w)((d, om_Name (pod_meta pod)) := None)"
      using dns_store.delete_ok [OF faulty_dns_store assms(1-3)] del by fastforce
    moreover have "w2 = w1 \<or> w2 = put_pod (released_pod pod) w1"
      using update_pod [of w1 "released_pod pod" f y w2] upd assms(4) fst1 by auto
    moreover have "w' = w2" using run Inr by simp
    ultimately show ?thesis using dns_snd [of "put_pod (released_pod pod) w1" w1] fst1 by (auto simp: put_pod_def)
  qed
qed

lemma ensure_step:
  assumes "pod_of w (meta_key (pod_meta pod)) = Some pod" "om_DeletionTimestamp (pod_meta pod) = None"
    and "run_state (ensurePodFinalizer (faulty_client f) ref_util pod) w = (x, w1)"
  shows "(w1 = w \<or> w1 = put_pod (guarded_pod pod) w) \<and>
    (\<forall>pod'. x = Inr pod' \<longrightarrow> pod' = guarded_pod pod \<and> pod_of w1 (meta_key (pod_meta pod)) = Some (guarded_pod pod))"
proof (cases "holds_finalizer pod")
  case True
  then show ?thesis using assms(1,3) by (auto simp: ensurePodFinalizer_def ref_util_def holds_finalizer_def guarded_pod_def)
next
  case False
  obtain y w2 where upd: "run_state (UpdatePod (faulty_client f) (guarded_pod pod)) w = (y, w2)" by (meson surj_pair)
  have "ensurePodFinalizer (faulty_client f) ref_util pod =
      call (UpdatePod (faulty_client f) (guarded_pod pod)) (\<lambda>err. fail (AddPodFinalizerFailed err)) ok"
    using False by (simp add: ensurePodFinalizer_def ref_util_def holds_finalizer_def guarded_pod_def)
  then have "(x, w1) = (case y of Inl e \<Rightarrow> Inl (AddPodFinalizerFailed e) | Inr p \<Rightarrow> Inr p, w2)"
    using assms(3) upd by (cases y) simp_all
  moreover have "y = Inr (guarded_pod pod) \<and> w2 = put_pod (guarded_pod pod) w \<or> (\<exists>e. y = Inl e) \<and> (w2 = w \<or> w2 = put_pod (guarded_pod pod) w)"
    by (rule update_pod [OF _ upd]) (simp add: assms(1))
  ultimately show ?thesis using assms(2) by (elim disjE conjE exE) simp_all
qed

lemma put_step:
  assumes "etcd_good dual_kv w" "vertex_fqdn d" "pod_id p" "is_ascii ip"
    and "run_state (Store_Put (faulty_store f) d p ip) w = (z, w')"
  shows "fst w' = fst w \<and> etcd_good dual_kv w' \<and> (dns_records w' = dns_records w \<or> dns_records w' = (dns_records w)((d, p) \<mapsto> ip))"
proof -
  have "fst w' = fst w" using store_fst(1) [of f d p ip w] assms(5) by simp
  then show ?thesis
    using dns_store.put_err [OF faulty_dns_store assms(1-4), of f] dns_store.put_ok [OF faulty_dns_store assms(1-4), of f w'] assms(5)
    by (cases z) auto
qed

lemma register_step:
  assumes "etcd_good dual_kv w" "vertex_fqdn d" "pod_id (om_Name (pod_meta pod))" "pod_of w (meta_key (pod_meta pod)) = Some pod"
    and "om_DeletionTimestamp (pod_meta pod) = None"
    and "run_state (registerPod (faulty_client f) ref_util (faulty_store f) pod d) w = (r, w')"
  shows "etcd_good dual_kv w' \<and> (fst w' = fst w \<or> fst w' = fst (put_pod (guarded_pod pod) w)) \<and>
    (dns_records w' = dns_records w \<or>
     (\<exists>ip. dns_records w' = (dns_records w)((d, om_Name (pod_meta pod)) \<mapsto> ip)) \<and> pod_of w' (meta_key (pod_meta pod)) = Some (guarded_pod pod))"
proof -
  obtain x w1 where ens: "run_state (ensurePodFinalizer (faulty_client f) ref_util pod) w = (x, w1)" by (meson surj_pair)
  note x = ensure_step [OF assms(4,5) ens]
  have g1: "etcd_good dual_kv w1" "dns_records w1 = dns_records w" using x assms(1) dns_snd [of w1 w] by auto
  have f1: "fst w1 = fst w \<or> fst w1 = fst (put_pod (guarded_pod pod) w)" using x by auto
  obtain y where ext: "run_state (extractSecondaryNICIP (faulty_client f) (guarded_pod pod)) w1 = (y, w1)"
    using extract_pure [of f "guarded_pod pod" w1] by (metis prod.collapse)
  show ?thesis
  proof (cases "x = Inr (guarded_pod pod) \<and> (\<exists>ip. y = Inr ip \<and> ip \<noteq> [])")
    case False
    have "w' = w1"
    proof (cases x)
      case (Inl e)
      then show ?thesis using ens assms(6) by (simp add: registerPod_def)
    next
      case (Inr pod')
      then have "x = Inr (guarded_pod pod)" using x by blast
      then show ?thesis using False ens ext assms(6) by (cases y) (simp_all add: registerPod_def)
    qed
    with g1 f1 show ?thesis by auto
  next
    case True
    then obtain ip where ip: "x = Inr (guarded_pod pod)" "y = Inr ip" "ip \<noteq> []" by blast
    have a: "is_ascii ip" using ext ip(2,3) unfolding extractSecondaryNICIP_def by (auto dest: claims_ip_ascii)
    obtain z w2 where put: "run_state (Store_Put (faulty_store f) d (om_Name (pod_meta pod)) ip) w1 = (z, w2)" by (meson surj_pair)
    have "w' = w2" using ens ext ip put assms(6) by (cases z) (simp_all add: registerPod_def)
    moreover have "pod_of w1 (meta_key (pod_meta pod)) = Some (guarded_pod pod)" using x ip(1) by blast
    ultimately show ?thesis using put_step [OF g1(1) assms(2,3) a put] g1(2) f1 by auto
  qed
qed

section \<open>Every step keeps the invariant\<close>

lemma vertex_pod_unique: "vertex_pod pod f \<Longrightarrow> vertex_pod pod g \<Longrightarrow> f = g"
  by (simp add: vertex_pod_def)

text \<open>A change at one Pod: the Pod is rewritten or not, and its own record changes or not.\<close>

lemma dns_safe_change:
  assumes "dns_safe w" "pod_of w (meta_key (pod_meta pod)) = Some pod"
    and "meta_key (pod_meta x) = meta_key (pod_meta pod)" "pod_admitted x"
    and "fst w' = fst w \<or> fst w' = fst (put_pod x w)" "etcd_good dual_kv w'"
    and "vertex_pod pod d" "\<And>k. k \<noteq> (d, om_Name (pod_meta pod)) \<Longrightarrow> dns_records w' k = dns_records w k"
    and "dns_records w' (d, om_Name (pod_meta pod)) \<noteq> None \<Longrightarrow>
      \<exists>y. pod_of w' (meta_key (pod_meta pod)) = Some y \<and> vertex_pod y d \<and> holds_finalizer y"
  shows "dns_safe w'"
proof -
  have old: "pods_ok w" "records_ok w" using assms(1) by (simp_all add: dns_safe_def)
  have pods: "pod_of w' = pod_of w \<or> pod_of w' = pod_of (put_pod x w)" using assms(5) by auto
  have other: "pod_of w' key = pod_of w key" if "key \<noteq> meta_key (pod_meta pod)" for key
    using pods that assms(3) by auto
  have "pods_ok w'"
    using pods old(1) assms(3,4) unfolding pods_ok_def by (auto split: if_splits)
  moreover have "records_ok w'"
    unfolding records_ok_def
  proof (intro allI impI)
    fix f p ip
    assume r: "dns_records w' (f, p) = Some ip"
    show "\<exists>ns pod. pod_of w' (ns, p) = Some pod \<and> vertex_pod pod f \<and> holds_finalizer pod"
    proof (cases "(f, p) = (d, om_Name (pod_meta pod))")
      case True
      with r assms(9) show ?thesis by (auto simp: meta_key_def)
    next
      case False
      with assms(8) r have "dns_records w (f, p) = Some ip" by metis
      then obtain ns q where q: "pod_of w (ns, p) = Some q" "vertex_pod q f" "holds_finalizer q"
        using old(2) unfolding records_ok_def by blast
      have "(ns, p) \<noteq> meta_key (pod_meta pod)"
        using q(1,2) assms(2,7) False vertex_pod_unique by (auto simp: meta_key_def)
      with other q show ?thesis by metis
    qed
  qed
  ultimately show ?thesis using assms(6) by (simp add: dns_safe_def)
qed

text \<open>A rewrite of a Pod that keeps its FQDN and its finalizer.\<close>

lemma dns_safe_put:
  assumes "dns_safe w" "pod_of w (meta_key (pod_meta pod)) = Some pod" "meta_key (pod_meta x) = meta_key (pod_meta pod)" "pod_admitted x"
    and "\<And>f. vertex_pod x f = vertex_pod pod f" "holds_finalizer x = holds_finalizer pod"
  shows "dns_safe (put_pod x w)"
proof -
  have old: "etcd_good dual_kv w" "pods_ok w" "records_ok w" using assms(1) by (simp_all add: dns_safe_def)
  have dns: "dns_records (put_pod x w) = dns_records w" "etcd_good dual_kv (put_pod x w)" using dns_snd [of "put_pod x w" w] old(1) by simp_all
  have "pods_ok (put_pod x w)" using old(2) assms(3,4) unfolding pods_ok_def by (auto split: if_splits)
  moreover have "records_ok (put_pod x w)"
    unfolding records_ok_def dns(1)
  proof (intro allI impI)
    fix f p ip
    assume "dns_records w (f, p) = Some ip"
    then obtain ns q where q: "pod_of w (ns, p) = Some q" "vertex_pod q f" "holds_finalizer q" using old(3) unfolding records_ok_def by blast
    show "\<exists>ns pod. pod_of (put_pod x w) (ns, p) = Some pod \<and> vertex_pod pod f \<and> holds_finalizer pod"
    proof (cases "(ns, p) = meta_key (pod_meta pod)")
      case False
      then show ?thesis using q assms(3) by (intro exI [of _ ns] exI [of _ q]) simp
    next
      case True
      then have "q = pod" using q(1) assms(2) by simp
      moreover have "om_Finalizers (pod_meta x) \<noteq> []" using q(3) assms(6) \<open>q = pod\<close> by (auto simp: holds_finalizer_def)
      ultimately show ?thesis using True q assms(3,5,6) by (intro exI [of _ ns] exI [of _ x]) simp
    qed
  qed
  ultimately show ?thesis using dns(2) by (simp add: dns_safe_def)
qed

text \<open>The record of a Pod in the cluster is held by that Pod: its FQDN determines its namespace.\<close>

lemma record_owner:
  assumes "dns_safe w" "pod_of w (meta_key (pod_meta pod)) = Some pod" "vertex_pod pod d"
    and "dns_records w (d, om_Name (pod_meta pod)) \<noteq> None"
  shows "holds_finalizer pod"
proof -
  have ok: "pods_ok w" "records_ok w" using assms(1) by (simp_all add: dns_safe_def)
  obtain ns q where q: "pod_of w (ns, om_Name (pod_meta pod)) = Some q" "vertex_pod q d" "holds_finalizer q"
    using ok(2) assms(4) unfolding records_ok_def by blast
  have "pod_admitted pod" "pod_admitted q" "(ns, om_Name (pod_meta pod)) = meta_key (pod_meta q)"
    using ok(1) assms(2) q(1) unfolding pods_ok_def by blast+
  then have "pod_admitted pod" "pod_admitted q" "ns = om_Namespace (pod_meta q)" by (simp_all add: meta_key_def)
  then have "ns = om_Namespace (pod_meta pod)"
    using assms(3) q(2) BuildVertexDomain_inj unfolding pod_admitted_def by blast
  with q assms(2) show ?thesis by (simp add: meta_key_def)
qed

lemma dns_safe_register:
  assumes "dns_safe w" "pod_of w (meta_key (pod_meta pod)) = Some pod" "pod_admitted pod" "vertex_pod pod d"
    and "vertex_fqdn d" "pod_id (om_Name (pod_meta pod))" "om_DeletionTimestamp (pod_meta pod) = None"
    and "run_state (registerPod (faulty_client f) ref_util (faulty_store f) pod d) w = (r, w')"
  shows "dns_safe w'"
proof -
  have "etcd_good dual_kv w" using assms(1) by (simp add: dns_safe_def)
  note st = register_step [OF this assms(5,6,2,7,8)] and owner = record_owner [OF assms(1,2,4)]
  have "\<exists>y. pod_of w' (meta_key (pod_meta pod)) = Some y \<and> vertex_pod y d \<and> holds_finalizer y"
    if "dns_records w' (d, om_Name (pod_meta pod)) \<noteq> None"
  proof (cases "dns_records w' = dns_records w")
    case eq: True
    then have "guarded_pod pod = pod" using owner that by (simp add: guarded_pod_def)
    then show ?thesis using st assms(2,4,7) owner that eq by auto
  qed (use st assms(4) in auto)
  moreover have "dns_records w' k = dns_records w k" if "k \<noteq> (d, om_Name (pod_meta pod))" for k
    using st that by (metis fun_upd_other)
  ultimately show ?thesis
    using dns_safe_change [OF assms(1,2) guarded_pod_simps(1), of w' d] st assms(3,4) by simp
qed

lemma dns_safe_finalize:
  assumes "dns_safe w" "pod_of w (meta_key (pod_meta pod)) = Some pod" "pod_admitted pod" "vertex_pod pod d"
    and "vertex_fqdn d" "pod_id (om_Name (pod_meta pod))"
    and "run_state (finalizePod (faulty_client f) ref_util (faulty_store f) pod d) w = (r, w')"
  shows "dns_safe w'"
proof -
  have "etcd_good dual_kv w" using assms(1) by (simp add: dns_safe_def)
  note st = finalize_step [OF this assms(5,6,2,7)]
  have "\<exists>y. pod_of w' (meta_key (pod_meta pod)) = Some y \<and> vertex_pod y d \<and> holds_finalizer y"
    if "dns_records w' (d, om_Name (pod_meta pod)) \<noteq> None"
    using that st assms(2,4) record_owner [OF assms(1,2,4)] by auto
  moreover have "dns_records w' k = dns_records w k" if "k \<noteq> (d, om_Name (pod_meta pod))" for k
    using st that by (metis fun_upd_other)
  moreover have "etcd_good dual_kv w'" "fst w' = fst w \<or> fst w' = fst (put_pod (released_pod pod) w)" using st by blast+
  ultimately show ?thesis
    using dns_safe_change [OF assms(1,2) released_pod_simps(1), of w' d] assms(3,4) by simp
qed

lemma dns_safe_reconcile:
  assumes "dns_safe w"
  shows "dns_safe (snd (run_state (Reconcile (faulty_client f) ref_util (faulty_store f) key) w))"
proof -
  obtain g w1 where g: "run_state (GetPod (faulty_client f) key) w = (g, w1)" by (meson surj_pair)
  have w1: "w1 = w" using get_pod [OF g] by simp
  have old: "pods_ok w" using assms by (simp add: dns_safe_def)
  show ?thesis
  proof (cases "\<exists>pod d. g = Inr pod \<and> vertex_pod pod d")
    case False
    then show ?thesis using g w1 assms by (cases g) (auto simp: run_PodReconcile Let_def)
  next
    case True
    then obtain pod d where pod: "g = Inr pod" "vertex_pod pod d" by blast
    have key: "pod_of w key = Some pod" using get_pod [OF g] pod(1) by simp
    have at: "pod_of w (meta_key (pod_meta pod)) = Some pod" "pod_admitted pod" using key old unfolding pods_ok_def by metis+
    then have ids: "vertex_fqdn d" "pod_id (om_Name (pod_meta pod))"
      using pod(2) BuildVertexDomain_vertex_fqdn unfolding pod_admitted_def by blast+
    obtain r w' where run: "run_state (Reconcile (faulty_client f) ref_util (faulty_store f) key) w = (r, w')" by (meson surj_pair)
    note rp = run_PodReconcile_pod [OF g [unfolded pod(1) w1] pod(2), of ref_util "faulty_store f", unfolded run]
    have "dns_safe w'"
      using rp dns_safe_register [OF assms at pod(2) ids, of f r w'] dns_safe_finalize [OF assms at pod(2) ids, of f r w']
      by (cases "om_DeletionTimestamp (pod_meta pod)") simp_all
    then show ?thesis by (simp add: run)
  qed
qed

lemma dns_safe_create:
  assumes "dns_safe w" "pod_of w (meta_key (pod_meta pod)) = None" "pod_admitted pod" "om_DeletionTimestamp (pod_meta pod) = None"
  shows "dns_safe (put_pod pod w)"
proof -
  have old: "etcd_good dual_kv w" "pods_ok w" "records_ok w" using assms(1) by (simp_all add: dns_safe_def)
  have dns: "dns_records (put_pod pod w) = dns_records w" "etcd_good dual_kv (put_pod pod w)"
    using dns_snd [of "put_pod pod w" w] old(1) by simp_all
  have "pods_ok (put_pod pod w)" using old(2) assms(3) unfolding pods_ok_def by (auto split: if_splits)
  moreover have "records_ok (put_pod pod w)"
    using old(3) assms(2) unfolding records_ok_def dns(1) by (simp add: assms(4)) (metis option.distinct(1))
  ultimately show ?thesis using dns(2) by (simp add: dns_safe_def)
qed

lemma pod_step_safe:
  assumes "pod_step w w'" "dns_safe w"
  shows "dns_safe w'"
  using assms(1)
proof cases
  case (reconcile f key)
  then show ?thesis using dns_safe_reconcile [OF assms(2)] by simp
next
  case (create pod)
  then show ?thesis using dns_safe_create [OF assms(2)] by simp
next
  case (delete key pod now)
  have at: "pod_of w (meta_key (pod_meta pod)) = Some pod" "pod_admitted pod"
    using delete(2) assms(2) unfolding dns_safe_def pods_ok_def by metis+
  show ?thesis unfolding delete(1)
    by (rule dns_safe_put [OF assms(2) at(1)])
      (use at(2) in \<open>simp_all add: meta_key_def pod_admitted_def vertex_pod_def holds_finalizer_def\<close>)
next
  case (status key pod css)
  have at: "pod_of w (meta_key (pod_meta pod)) = Some pod" "pod_admitted pod"
    using status(2) assms(2) unfolding dns_safe_def pods_ok_def by metis+
  show ?thesis unfolding status(1)
    by (rule dns_safe_put [OF assms(2) at(1)])
      (use at(2) in \<open>simp_all add: pod_admitted_def vertex_pod_def holds_finalizer_def\<close>)
next
  case (claims cs)
  have "dns_records w' = dns_records w" "etcd_good dual_kv w' = etcd_good dual_kv w" using dns_snd [of w' w] claims by simp_all
  then show ?thesis using assms(2) claims by (simp add: dns_safe_def pods_ok_def records_ok_def)
qed

lemma pod_reachable_safe: "pod_reachable w \<Longrightarrow> dns_safe w"
proof (induction rule: pod_reachable.induct)
  case start
  have "dns_records (empty_cluster, []) k = None" for k by (cases k) (simp add: etcd_records_def dual_kv_def)
  then show ?case by (simp add: dns_safe_def pods_ok_def records_ok_def empty_cluster_def dual_empty_good)
next
  case (more w w')
  then show ?case by (simp add: pod_step_safe)
qed

section \<open>Properties\<close>

text \<open>C2: DNS never names a Pod that is gone.  In every state reached by reconciliations, with any of their calls failing
  or taking effect unreported, interleaved with the life of the Pods: each DNS record belongs to a Pod of that
  name in the cluster, which carries the record's FQDN and still holds the finalizer.\<close>

theorem records_belong_to_pods:
  assumes "pod_reachable w" "dns_records w (f, p) = Some ip"
  shows "\<exists>ns pod. pod_of w (ns, p) = Some pod \<and> vertex_pod pod f \<and> vertexDomainFinalizer \<in> set (om_Finalizers (pod_meta pod))"
  using pod_reachable_safe [OF assms(1)] assms(2) unfolding dns_safe_def records_ok_def holds_finalizer_def by blast

definition no_faults :: faults where
  "no_faults = \<lparr>read_pod = Works, read_claim = Works, write_pod = Works, write_etcd = Works\<rparr>"

lemma no_faults_dual: "faulty_client no_faults = dual_client" "faulty_etcd no_faults = dual_etcd"
  by (simp_all add: faulty_client_def faulty_etcd_def no_faults_def faulty_def)

lemma no_faults_delete:
  assumes "vertex_fqdn d" "pod_id p"
  shows "\<exists>w1. run_state (Store_Delete (etcd_as_store \<lparr>client = dual_etcd\<rparr>) d p) w = (Inr (), w1)"
  using assms by (simp add: etcd_as_store_def Delete_runs) (simp add: dual_etcd_def run_on_snd mem_etcd_def)

text \<open>C18: deletion of a Pod completes.  In every reachable state, a vertex Pod that is marked for deletion and held by this
  finalizer only is gone after one reconciliation in which the calls work, and so is its DNS record, while every
  other record stays.\<close>

theorem pod_deletion_completes:
  assumes "pod_reachable w" "pod_of w key = Some pod" "vertex_pod pod d" "om_DeletionTimestamp (pod_meta pod) \<noteq> None"
    and "om_Finalizers (pod_meta pod) = [vertexDomainFinalizer]"
    and "run_state (Reconcile dual_client ref_util (etcd_as_store \<lparr>client = dual_etcd\<rparr>) key) w = (r, w')"
  shows "r = Inr \<lparr>RequeueAfter = 0\<rparr> \<and> pod_of w' = (pod_of w)(key := None) \<and>
    dns_records w' = (dns_records w)((d, om_Name (pod_meta pod)) := None)"
proof -
  let ?st = "etcd_as_store \<lparr>client = dual_etcd\<rparr>" and ?p = "om_Name (pod_meta pod)"
  have ok: "etcd_good dual_kv w" "pods_ok w" using pod_reachable_safe [OF assms(1)] by (simp_all add: dns_safe_def)
  then have key: "key = meta_key (pod_meta pod)" "pod_admitted pod" using assms(2) unfolding pods_ok_def by blast+
  then have ids: "vertex_fqdn d" "pod_id ?p"
    using assms(3) BuildVertexDomain_vertex_fqdn unfolding pod_admitted_def by blast+
  obtain w1 where del: "run_state (Store_Delete ?st d ?p) w = (Inr (), w1)" using no_faults_delete [OF ids] by blast
  have d1: "dns_records w1 = (dns_records w)((d, ?p) := None)" "fst w1 = fst w"
    using dns_store.delete_ok [OF dns_store_etcd [OF dual_store] ok(1) ids del] store_fst(2) [of no_faults d ?p w] del
    by (simp_all add: no_faults_dual)
  have upd: "run_state (UpdatePod dual_client (released_pod pod)) w1 = (Inr (released_pod pod), put_pod (released_pod pod) w1)"
    using assms(2) key(1) d1(2)
    by (cases w1) (simp add: dual_client_def run_on_fst cluster_client_def api_update_def put_pod_def)
  have get: "run_state (GetPod dual_client key) w = (Inr pod, w)"
    using assms(2) by (cases w) (simp add: dual_client_def run_on_fst cluster_client_def api_get_def)
  have "run_state (finalizePod dual_client ref_util ?st pod d) w = (Inr \<lparr>RequeueAfter = 0\<rparr>, put_pod (released_pod pod) w1)"
    using del upd assms(5) by (simp add: finalizePod_def ref_util_def released_pod_def)
  then have "r = Inr \<lparr>RequeueAfter = 0\<rparr>" "w' = put_pod (released_pod pod) w1"
    using run_PodReconcile_pod [OF get assms(3), of ref_util ?st] assms(4,6) by simp_all
  then show ?thesis
    using dns_snd [of w' w1] d1 key(1) assms(4,5) by (simp add: released_pod_def meta_key_def)
qed

text \<open>The address of a Pod depends on the claims alone.\<close>

lemma claims_ip_same:
  assumes "cl_claims (fst w) = cl_claims (fst w')"
  shows "fst (run_state (claims_ip dual_client ns css) w) = fst (run_state (claims_ip dual_client ns css) w')"
proof (induction css)
  case (Cons cs css)
  have "run_state (GetResourceClaim dual_client k) v = (case map_of (cl_claims (fst v)) k of None \<Rightarrow> Inl ErrNotFound | Some x \<Rightarrow> Inr x, v)" for k v
    by (cases v) (simp add: dual_client_def run_on_fst cluster_client_def api_get_def split: option.split)
  with Cons assms show ?case by (auto simp: run_call split: option.split)
qed simp

lemma extract_guarded:
  assumes "fst (run_state (extractSecondaryNICIP dual_client pod) w) = Inr ip"
    and "w1 = w \<or> w1 = put_pod (guarded_pod pod) w"
  shows "run_state (extractSecondaryNICIP dual_client (guarded_pod pod)) w1 = (Inr ip, w1)"
proof -
  have "extractSecondaryNICIP dual_client (guarded_pod pod) = extractSecondaryNICIP dual_client pod"
    by (simp add: extractSecondaryNICIP_def guarded_pod_def)
  moreover have "cl_claims (fst w1) = cl_claims (fst w)" using assms(2) by (auto simp: put_pod_def)
  ultimately show ?thesis
    using extract_pure [of no_faults pod w1] assms(1) claims_ip_same [of w1 w]
    by (simp add: no_faults_dual extractSecondaryNICIP_def prod_eq_iff)
qed

lemma no_faults_put:
  assumes "vertex_fqdn d" "pod_id p"
  shows "\<exists>w1. run_state (Store_Put (etcd_as_store \<lparr>client = dual_etcd\<rparr>) d p ip) w = (Inr (), w1)"
  using assms by (simp add: etcd_as_store_def Put_runs) (simp add: dual_etcd_def run_on_snd mem_etcd_def)

lemma no_faults_ensure:
  assumes "pod_of w (meta_key (pod_meta pod)) = Some pod"
  shows "run_state (ensurePodFinalizer dual_client ref_util pod) w =
    (Inr (guarded_pod pod), if holds_finalizer pod then w else put_pod (guarded_pod pod) w)"
proof (cases "holds_finalizer pod")
  case True
  then show ?thesis by (simp add: ensurePodFinalizer_def ref_util_def holds_finalizer_def guarded_pod_def)
next
  case False
  have "run_state (UpdatePod dual_client (guarded_pod pod)) w = (Inr (guarded_pod pod), put_pod (guarded_pod pod) w)"
    using assms by (cases w) (simp add: dual_client_def run_on_fst cluster_client_def api_update_def put_pod_def)
  then show ?thesis using False by (simp add: ensurePodFinalizer_def ref_util_def holds_finalizer_def guarded_pod_def)
qed

text \<open>C17: registration recovers.  In every reachable state, whatever calls failed on the way to it, one reconciliation in
  which the calls work publishes the address of a live vertex Pod: it asks for no retry, the Pod holds the finalizer,
  its record is the address its claims show at that moment, and every other record stays.\<close>

theorem pod_registration_recovers:
  assumes "pod_reachable w" "pod_of w key = Some pod" "vertex_pod pod d" "om_DeletionTimestamp (pod_meta pod) = None"
    and "fst (run_state (extractSecondaryNICIP dual_client pod) w) = Inr ip" "ip \<noteq> []"
    and "run_state (Reconcile dual_client ref_util (etcd_as_store \<lparr>client = dual_etcd\<rparr>) key) w = (r, w')"
  shows "r = Inr \<lparr>RequeueAfter = 0\<rparr> \<and> (\<exists>pod'. pod_of w' key = Some pod' \<and> holds_finalizer pod') \<and>
    dns_records w' = (dns_records w)((d, om_Name (pod_meta pod)) \<mapsto> ip)"
proof -
  let ?st = "etcd_as_store \<lparr>client = dual_etcd\<rparr>" and ?p = "om_Name (pod_meta pod)"
  have ok: "etcd_good dual_kv w" "pods_ok w" using pod_reachable_safe [OF assms(1)] by (simp_all add: dns_safe_def)
  then have key: "key = meta_key (pod_meta pod)" "pod_admitted pod" using assms(2) unfolding pods_ok_def by blast+
  then have ids: "vertex_fqdn d" "pod_id ?p"
    using assms(3) BuildVertexDomain_vertex_fqdn unfolding pod_admitted_def by blast+
  define w1 where "w1 = (if holds_finalizer pod then w else put_pod (guarded_pod pod) w)"
  have ens: "run_state (ensurePodFinalizer dual_client ref_util pod) w = (Inr (guarded_pod pod), w1)"
    using no_faults_ensure assms(2) key(1) by (simp add: w1_def)
  have w1: "w1 = w \<or> w1 = put_pod (guarded_pod pod) w" "pod_of w1 key = Some (guarded_pod pod)"
    using ensure_step [of w pod no_faults "Inr (guarded_pod pod)" w1] ens assms(2,4) key(1) by (simp_all add: no_faults_dual)
  have d1: "dns_records w1 = dns_records w" "etcd_good dual_kv w1" using w1(1) ok(1) dns_snd [of w1 w] by auto
  note ext = extract_guarded [OF assms(5) w1(1)]
  have a: "is_ascii ip" using ext assms(6) unfolding extractSecondaryNICIP_def by (auto dest: claims_ip_ascii)
  obtain w2 where put: "run_state (Store_Put ?st d ?p ip) w1 = (Inr (), w2)" using no_faults_put [OF ids] by blast
  have d2: "dns_records w2 = (dns_records w1)((d, ?p) \<mapsto> ip)" "fst w2 = fst w1"
    using dns_store.put_ok [OF dns_store_etcd [OF dual_store] d1(2) ids a put] store_fst(1) [of no_faults d ?p ip w1] put
    by (simp_all add: no_faults_dual)
  have get: "run_state (GetPod dual_client key) w = (Inr pod, w)"
    using assms(2) by (cases w) (simp add: dual_client_def run_on_fst cluster_client_def api_get_def)
  have "run_state (registerPod dual_client ref_util ?st pod d) w = (Inr \<lparr>RequeueAfter = 0\<rparr>, w2)"
    using ens ext put assms(6) by (simp add: registerPod_def)
  then have "r = Inr \<lparr>RequeueAfter = 0\<rparr>" "w' = w2"
    using run_PodReconcile_pod [OF get assms(3), of ref_util ?st] assms(4,7) by simp_all
  then show ?thesis using d2 d1(1) w1(2) by (simp add: holds_finalizer_def guarded_pod_def)
qed

section \<open>A run\<close>

lemma example_pod_admitted: "pod_admitted (vertex_pod_example fin del)"
proof -
  have "BuildVertexDomain ''in'' ''p1'' ''ns'' = Inr ''in.p1.ns.vertexdomain.local''" by code_simp
  moreover have "vertex_pod (vertex_pod_example fin del) f \<Longrightarrow> f = ''in.p1.ns.vertexdomain.local''" for f
    using vertex_pod_unique example_vertex_pod(1) by blast
  ultimately show ?thesis using example_fqdn(2) example_vertex_pod(2)
    unfolding pod_admitted_def by (fastforce simp: vertex_pod_example_def)
qed

text \<open>A Pod is created with the finalizer, its claim gets an address.\<close>

lemma example_world_reachable: "pod_reachable (example_world [vertexDomainFinalizer] None)"
proof -
  let ?w0 = "(empty_cluster, []) :: dual" and ?pod = "vertex_pod_example [vertexDomainFinalizer] None"
  have "pod_reachable (put_pod ?pod ?w0)"
    by (rule pod_reachable.more [OF pod_reachable.start], rule pod_step.create)
      (simp_all add: example_pod_admitted example_vertex_pod empty_cluster_def)
  from pod_reachable.more [OF this pod_step.claims [of _ "[((''ns'', ''c''), address_claim)]"]]
  show ?thesis
    by (simp add: put_pod_def api_put_def Let_def example_world_def empty_cluster_def meta_key_def example_vertex_pod)
      (simp add: vertex_pod_example_def)
qed

lemma example_registered_reachable:
  "\<exists>w. pod_reachable w \<and> dns_records w (''in.p1.ns.vertexdomain.local'', ''p-0'') = Some (v4_String [10, 0, 0, 1])"
proof -
  obtain w' where w': "run_state (Reconcile dual_client ref_util (etcd_as_store \<lparr>client = dual_etcd\<rparr>) (''ns'', ''p-0''))
      (example_world [vertexDomainFinalizer] None) = (Inr \<lparr>RequeueAfter = 0\<rparr>, w')"
    "dns_records w' (''in.p1.ns.vertexdomain.local'', ''p-0'') = Some (v4_String [10, 0, 0, 1])"
    using example_registered by blast
  have "pod_reachable w'"
    using pod_reachable.more [OF example_world_reachable pod_step.reconcile [of _ no_faults "(''ns'', ''p-0'')"]] w'(1)
    by (simp add: no_faults_dual)
  with w'(2) show ?thesis by blast
qed

theorem records_belong_to_pods_witness:
  "\<exists>w ns pod. dns_records w (''in.p1.ns.vertexdomain.local'', ''p-0'') = Some (v4_String [10, 0, 0, 1]) \<and>
    pod_of w (ns, ''p-0'') = Some pod \<and> vertex_pod pod ''in.p1.ns.vertexdomain.local''"
  using example_registered_reachable records_belong_to_pods by blast

theorem pod_deletion_completes_witness:
  "\<exists>w key r w'. pod_of w key \<noteq> None \<and> run_state (Reconcile dual_client ref_util (etcd_as_store \<lparr>client = dual_etcd\<rparr>) key) w = (r, w') \<and>
    pod_of w' key = None"
proof -
  let ?w = "example_world [vertexDomainFinalizer] None" and ?key = "(''ns'', ''p-0'')" and ?st = "etcd_as_store \<lparr>client = dual_etcd\<rparr>"
  let ?pod = "vertex_pod_example [vertexDomainFinalizer] None"
  let ?gone = "?pod\<lparr>pod_meta := (pod_meta ?pod)\<lparr>om_DeletionTimestamp := Some 1\<rparr>\<rparr>"
  have at: "pod_of ?w ?key = Some ?pod" by (simp add: example_world_def)
  have mk: "meta_key (pod_meta ?pod) = ?key" by (simp add: meta_key_def vertex_pod_example_def)
  have del: "pod_reachable (put_pod ?gone ?w)"
    by (rule pod_reachable.more [OF example_world_reachable], rule pod_step.delete [OF at])
  have here: "pod_of (put_pod ?gone ?w) ?key = Some ?gone"
    using mk by (simp add: meta_key_def example_vertex_pod)
  obtain r w' where run: "run_state (Reconcile dual_client ref_util ?st ?key) (put_pod ?gone ?w) = (r, w')" by (meson surj_pair)
  have vp: "vertex_pod ?gone ''in.p1.ns.vertexdomain.local''" using example_vertex_pod(1) by (simp add: vertex_pod_def)
  have marked: "om_DeletionTimestamp (pod_meta ?gone) \<noteq> None" by simp
  have fin: "om_Finalizers (pod_meta ?gone) = [vertexDomainFinalizer]" by (simp add: vertex_pod_example_def)
  have "pod_of w' ?key = None"
    using pod_deletion_completes [OF del here vp marked fin run] by (simp only: fun_upd_same)
  moreover have "pod_of (put_pod ?gone ?w) ?key \<noteq> None" by (simp only: here option.simps) simp
  ultimately show ?thesis using run by (intro exI conjI)
qed

theorem pod_registration_recovers_witness:
  "\<exists>w w'. run_state (Reconcile dual_client ref_util (etcd_as_store \<lparr>client = dual_etcd\<rparr>) (''ns'', ''p-0'')) w = (Inr \<lparr>RequeueAfter = 0\<rparr>, w') \<and>
    dns_records w' (''in.p1.ns.vertexdomain.local'', ''p-0'') = Some (v4_String [10, 0, 0, 1])"
proof -
  let ?w = "example_world [vertexDomainFinalizer] None" and ?pod = "vertex_pod_example [vertexDomainFinalizer] None"
  obtain r w' where run: "run_state (Reconcile dual_client ref_util (etcd_as_store \<lparr>client = dual_etcd\<rparr>) (''ns'', ''p-0'')) ?w = (r, w')" by (meson surj_pair)
  have "pod_of ?w (''ns'', ''p-0'') = Some ?pod" by (simp add: example_world_def)
  from pod_registration_recovers [OF example_world_reachable this example_vertex_pod(1) _ _ v4_example_ne run]
  have "r = Inr \<lparr>RequeueAfter = 0\<rparr>" "dns_records w' (''in.p1.ns.vertexdomain.local'', ''p-0'') = Some (v4_String [10, 0, 0, 1])"
    by (simp_all add: example_vertex_pod example_extract)
  with run show ?thesis by blast
qed

end
