(* ===== verification/Resolver.thy ===== *)
theory Resolver
  imports Dns GoNet "HOL-Library.AList"
begin

text \<open>
  \<open>sdk/python/vertexdomain/resolver.py\<close>: how a vertex finds the Pods it sends to.  \<open>resolve_targets\<close> reads
  the environment variable that the Pod webhook has set and asks DNS for the addresses behind each name.

  \<open>socket.getaddrinfo\<close> is a parameter; a raised exception is the error of the call.  Python's \<open>split(",")\<close> is
  \<open>Split\<close>, a dict is an association list in insertion order.  The locale \<open>name_service\<close> is what a vertex relies
  on: DNS answers with the IPv4 addresses of the records of the store.
\<close>

section \<open>The resolver\<close>

record addrinfo =
  ai_family :: nat
  ai_type :: nat
  ai_proto :: nat
  ai_canonname :: string
  ai_sockaddr :: "string \<times> nat"

type_synonym 'w getaddrinfo = "string \<Rightarrow> ('w, string, addrinfo list) io"

fun unique_ips :: "addrinfo list \<Rightarrow> string set \<Rightarrow> string list \<Rightarrow> string list" where
  "unique_ips [] seen ips = ips"
| "unique_ips (r # rs) seen ips =
     (let ip = fst (ai_sockaddr r)
      in if ip \<notin> seen then unique_ips rs (insert ip seen) (ips @ [ip]) else unique_ips rs seen ips)"

definition resolve :: "'w getaddrinfo \<Rightarrow> string \<Rightarrow> ('w, string, string list) io" where
  "resolve getaddrinfo fqdn = call (getaddrinfo fqdn) fail (\<lambda>results. ok (unique_ips results {} []))"

fun resolve_each :: "'w getaddrinfo \<Rightarrow> string list \<Rightarrow> (string \<times> string list) list \<Rightarrow> ('w, string, (string \<times> string list) list) io" where
  "resolve_each getaddrinfo [] targets = ok targets"
| "resolve_each getaddrinfo (fqdn # fqdns) targets =
     call (resolve getaddrinfo fqdn) fail (\<lambda>ips. resolve_each getaddrinfo fqdns (AList.update fqdn ips targets))"

definition resolve_targets :: "(string \<rightharpoonup> string) \<Rightarrow> 'w getaddrinfo \<Rightarrow> string \<Rightarrow> ('w, string, (string \<times> string list) list) io" where
  "resolve_targets environ getaddrinfo env_var =
     (let raw = (case environ env_var of None \<Rightarrow> [] | Some v \<Rightarrow> v)
      in if raw = [] then ok [] else resolve_each getaddrinfo (Split CHR '','' raw) [])"

section \<open>Unique addresses\<close>

lemma unique_ips_spec:
  "set ips = seen \<Longrightarrow> distinct ips \<Longrightarrow>
     set (unique_ips rs seen ips) = seen \<union> (fst \<circ> ai_sockaddr) ` set rs \<and> distinct (unique_ips rs seen ips)"
  by (induction rs seen ips rule: unique_ips.induct) (auto simp: Let_def)

lemma set_unique_ips: "set (unique_ips rs {} []) = (fst \<circ> ai_sockaddr) ` set rs"
  and distinct_unique_ips: "distinct (unique_ips rs {} [])"
  using unique_ips_spec [of "[]" "{}" rs] by simp_all

lemma update_member: "p \<in> set (AList.update k v al) \<Longrightarrow> p = (k, v) \<or> p \<in> set al"
  by (induction al) (auto split: if_splits)

section \<open>What a vertex relies on\<close>

definition is_v4 :: "string \<Rightarrow> bool" where
  "is_v4 ip \<longleftrightarrow> (case ParseAddr ip of Some (Addr4 _) \<Rightarrow> True | _ \<Rightarrow> False)"

definition addresses_of :: "records \<Rightarrow> string \<Rightarrow> string set" where
  "addresses_of recs f = {ip. is_v4 ip \<and> (\<exists>p. recs (f, p) = Some ip)}"

text \<open>A dict of names with all their addresses.\<close>

definition resolved :: "records \<Rightarrow> (string \<times> string list) list \<Rightarrow> bool" where
  "resolved recs targets \<longleftrightarrow> distinct (map fst targets) \<and>
     (\<forall>(f, ips)\<in>set targets. set ips = addresses_of recs f \<and> distinct ips)"

locale name_service =
  fixes getaddrinfo :: "'w getaddrinfo"
    and recs :: "'w \<Rightarrow> records"
    and good :: "'w \<Rightarrow> bool"
  assumes keeps_world: "good w \<Longrightarrow> vertex_fqdn f \<Longrightarrow> run_state (getaddrinfo f) w = (r, w') \<Longrightarrow> w' = w"
    and answers: "good w \<Longrightarrow> vertex_fqdn f \<Longrightarrow> run_state (getaddrinfo f) w = (Inr rs, w') \<Longrightarrow>
      (fst \<circ> ai_sockaddr) ` set rs = addresses_of (recs w) f"
begin

lemma run_resolve:
  assumes "good w" "vertex_fqdn f"
  obtains e where "run_state (resolve getaddrinfo f) w = (Inl e, w)" "run_state (getaddrinfo f) w = (Inl e, w)"
  | rs ips where "run_state (resolve getaddrinfo f) w = (Inr ips, w)" "run_state (getaddrinfo f) w = (Inr rs, w)"
      "set ips = addresses_of (recs w) f" "distinct ips"
proof (cases "fst (run_state (getaddrinfo f) w)")
  case (Inl e)
  then have "run_state (getaddrinfo f) w = (Inl e, w)" using keeps_world [OF assms] by (metis prod.collapse)
  then show ?thesis using that(1) by (simp add: resolve_def)
next
  case (Inr rs)
  then have "run_state (getaddrinfo f) w = (Inr rs, w)" using keeps_world [OF assms] by (metis prod.collapse)
  then show ?thesis
    using that(2) answers [OF assms] by (simp add: resolve_def set_unique_ips distinct_unique_ips)
qed

text \<open>The loop over the names: it fails exactly when a lookup does, and else adds each name with its addresses.\<close>

lemma resolve_each_result:
  assumes "good w" "\<forall>f\<in>set fs. vertex_fqdn f" "resolved (recs w) acc"
  shows "(\<exists>targets. run_state (resolve_each getaddrinfo fs acc) w = (Inr targets, w) \<and> resolved (recs w) targets \<and>
      fst ` set targets = fst ` set acc \<union> set fs \<and> (\<forall>f\<in>set fs. \<not> isl (fst (run_state (getaddrinfo f) w)))) \<or>
    (\<exists>f\<in>set fs. \<exists>e. run_state (resolve_each getaddrinfo fs acc) w = (Inl e, w) \<and> run_state (getaddrinfo f) w = (Inl e, w))"
  using assms(2,3)
proof (induction fs arbitrary: acc)
  case (Cons f fs)
  then have f: "vertex_fqdn f" by simp
  from assms(1) f show ?case
  proof (cases rule: run_resolve)
    case (1 e)
    then show ?thesis by auto
  next
    case (2 rs ips)
    have "resolved (recs w) (AList.update f ips acc)"
      using Cons.prems(2) 2(3,4) by (auto simp: resolved_def distinct_update dest!: update_member)
    moreover have "fst ` set (AList.update f ips acc) = insert f (fst ` set acc)" by (simp add: dom_update)
    ultimately show ?thesis using Cons.IH [of "AList.update f ips acc"] Cons.prems(1) 2(1,2) by auto
  qed
qed simp

lemma resolve_targets_result:
  assumes "good w" "environ env_var = Some (Join fs '','')" "fs \<noteq> []" "\<forall>f\<in>set fs. vertex_fqdn f \<and> CHR '','' \<notin> set f"
  shows "(\<exists>targets. run_state (resolve_targets environ getaddrinfo env_var) w = (Inr targets, w) \<and> resolved (recs w) targets \<and>
      fst ` set targets = set fs \<and> (\<forall>f\<in>set fs. \<not> isl (fst (run_state (getaddrinfo f) w)))) \<or>
    (\<exists>f\<in>set fs. \<exists>e. run_state (resolve_targets environ getaddrinfo env_var) w = (Inl e, w) \<and> run_state (getaddrinfo f) w = (Inl e, w))"
proof -
  have split: "Split CHR '','' (Join fs '','') = fs" using assms(3,4) by (intro Split_Join) auto
  have "Join fs '','' \<noteq> []"
  proof
    assume "Join fs '','' = []"
    then have "fs = [[]]" using split by simp
    then show False using assms(4) by (simp add: vertex_fqdn_def dns_name_def)
  qed
  then have "resolve_targets environ getaddrinfo env_var = resolve_each getaddrinfo fs []"
    using assms(2) split by (simp add: resolve_targets_def)
  moreover have "resolved (recs w) []" by (simp add: resolved_def)
  ultimately show ?thesis using resolve_each_result [OF assms(1), of fs "[]"] assms(4) by auto
qed

end

end
