(* ===== verification/Discovery.thy ===== *)
theory Discovery
  imports PodLifecycle VertexDomainMutator Resolver
begin

text \<open>
  How a vertex finds the vertices it sends to, from the webhook that admits its Pods, through the records the
  vertex domain controller keeps, to the resolver that runs inside its containers.
\<close>

section \<open>The admitted Pod\<close>

text \<open>A Pod that was decoded and got ASCII values is read back as it was written.\<close>

definition pod_codec_ok :: "PodLib \<Rightarrow> bool" where
  "pod_codec_ok plib \<longleftrightarrow> (\<forall>raw pod f ts bs. pod_Unmarshal plib raw = Inr pod \<longrightarrow> is_ascii f \<longrightarrow> list_all is_ascii ts \<longrightarrow>
     pod_Marshal plib (marked_pod pod f ts) = Inr bs \<longrightarrow> pod_Unmarshal plib bs = Inr (marked_pod pod f ts))"

text \<open>The environment of a container: of two entries for a name the later one counts.\<close>

definition container_environ :: "Container \<Rightarrow> string \<rightharpoonup> string" where
  "container_environ k = map_of (rev (map (\<lambda>e. (ev_Name e, ev_Value e)) (co_Env k)))"

lemma alnum_ascii: "alnum c \<Longrightarrow> byte c < 0x80"
  by (auto simp: alnum_def in_class_def byte_def)

lemma dns_label_chars: "dns_label s \<Longrightarrow> is_ascii s \<and> CHR '','' \<notin> set s"
  by (auto simp: dns_label_def list_all_iff is_ascii_def alnum_ascii byte_def alnum_def in_class_def)

lemma BuildVertexDomain_chars: "BuildVertexDomain v p n = Inr f \<Longrightarrow> is_ascii f \<and> CHR '','' \<notin> set f"
  using dns_label_chars [of v] dns_label_chars [of p] dns_label_chars [of n]
  by (auto simp: BuildVertexDomain_Inr_iff byte_def)

lemma marked_pod_simps [simp]:
  "om_Name (pod_meta (marked_pod pod f ts)) = om_Name (pod_meta pod)"
  "om_Namespace (pod_meta (marked_pod pod f ts)) = om_Namespace (pod_meta pod)"
  by (simp_all add: marked_pod_eq)

lemma marked_vertex_pod: "f \<noteq> [] \<Longrightarrow> vertex_pod (marked_pod pod f ts) f"
  by (simp add: vertex_pod_def marked_pod_eq)

lemma marked_environ:
  assumes "k \<in> set (pod_Containers (marked_pod pod f ts))" "ts \<noteq> []"
  shows "container_environ k ''VERTEX_DOMAIN_TARGETS'' = Some (Join ts '','')"
  using assms by (auto simp: marked_pod_eq container_environ_def)

lemma targets_eq:
  assumes "map (\<lambda>t. BuildVertexDomain t p n) ds = map Inr ts"
  shows "set ts = {f. \<exists>t\<in>set ds. BuildVertexDomain t p n = Inr f}"
proof -
  have "(\<lambda>t. BuildVertexDomain t p n) ` set ds = Inr ` set ts" using arg_cong [OF assms, of set] by simp
  then have "f \<in> set ts \<longleftrightarrow> Inr f \<in> (\<lambda>t. BuildVertexDomain t p n) ` set ds" for f by (simp add: inj_image_mem_iff)
  then show ?thesis by (simp add: set_eq_iff image_iff) metis
qed

text \<open>What the webhook's patch means for the Pod that is stored.\<close>

lemma admitted_pod:
  assumes "pod_codec_ok plib" "run_state (Handle c ulib plib req) w = (PatchResponseFromRaw raw patched, w')"
  obtains pod pname vname ns pipeline val bindings f ts where
    "pod_Unmarshal plib (Object_Raw req) = Inr pod" "pod_Unmarshal plib patched = Inr (marked_pod pod f ts)"
    "om_Labels (pod_meta pod) numaflowLabelPipelineName = Some pname" "om_Labels (pod_meta pod) numaflowLabelVertexName = Some vname"
    "ns = (if req_Namespace req = [] then om_Namespace (pod_meta pod) else req_Namespace req)"
    "run_state (GetPipeline c (ns, pname)) w = (Inr pipeline, w')"
    "GetAnnotations ulib pipeline AnnotationNumaNetworkEdges = Some val" "ParseBindings val = Inr bindings"
    "BuildVertexDomain vname pname ns = Inr f" "map (\<lambda>t. BuildVertexDomain t pname ns) (destinations vname bindings) = map Inr ts"
proof -
  obtain pod pname vname ns pipeline val bindings f ts where
    h: "pod_Unmarshal plib (Object_Raw req) = Inr pod" 
    "om_Labels (pod_meta pod) numaflowLabelPipelineName = Some pname" "om_Labels (pod_meta pod) numaflowLabelVertexName = Some vname"
    "ns = (if req_Namespace req = [] then om_Namespace (pod_meta pod) else req_Namespace req)"
    "run_state (GetPipeline c (ns, pname)) w = (Inr pipeline, w')"
    "GetAnnotations ulib pipeline AnnotationNumaNetworkEdges = Some val" "ParseBindings val = Inr bindings"
    "BuildVertexDomain vname pname ns = Inr f" "map (\<lambda>t. BuildVertexDomain t pname ns) (destinations vname bindings) = map Inr ts"
    and m: "pod_Marshal plib (marked_pod pod f ts) = Inr patched"
    using Handle_patched [OF assms(2)] unfolding marked_pod_eq by blast
  have "list_all is_ascii ts" using targets_eq [OF h(9)] BuildVertexDomain_chars by (fastforce simp: list_all_iff)
  then have "pod_Unmarshal plib patched = Inr (marked_pod pod f ts)"
    using assms(1) h(1) m BuildVertexDomain_chars [OF h(8)] unfolding pod_codec_ok_def by blast
  with h that show ?thesis by blast
qed

text \<open>A patched Pod is one that may be created in the state machine of \<open>PodLifecycle\<close>: the FQDN it carries is that of
  its own namespace.\<close>

lemma patched_pod_admitted:
  assumes "pod_codec_ok plib" "run_state (Handle c ulib plib req) w = (PatchResponseFromRaw raw patched, w')"
    and "pod_Unmarshal plib patched = Inr pod" "pod_id (om_Name (pod_meta pod))"
    and "req_Namespace req = [] \<or> req_Namespace req = om_Namespace (pod_meta pod)"
  shows "pod_admitted pod"
proof -
  obtain pod0 pname vname ns f ts where h: "pod_Unmarshal plib patched = Inr (marked_pod pod0 f ts)"
    "ns = (if req_Namespace req = [] then om_Namespace (pod_meta pod0) else req_Namespace req)" "BuildVertexDomain vname pname ns = Inr f"
    by (rule admitted_pod [OF assms(1,2)])
  then have pod: "pod = marked_pod pod0 f ts" "om_Namespace (pod_meta pod) = ns" using assms(3,5) by auto
  have "f \<noteq> []" using h(3) by (auto simp: BuildVertexDomain_Inr_iff)
  from marked_vertex_pod [OF this] have "g = f" if "vertex_pod pod g" for g using that pod(1) vertex_pod_unique by blast
  with h(3) pod(2) assms(4) show ?thesis unfolding pod_admitted_def by blast
qed

section \<open>The name service\<close>

text \<open>A Pod that a record belongs to is a Pod of that vertex, in the namespace of the FQDN.\<close>

lemma record_pod:
  assumes "pod_reachable w" "BuildVertexDomain t pname ns = Inr f" "dns_records w (f, q) = Some ip"
  shows "\<exists>y. pod_of w (ns, q) = Some y \<and> vertex_pod y f"
proof -
  have safe: "records_ok w" "pods_ok w" using pod_reachable_safe [OF assms(1)] by (simp_all add: dns_safe_def)
  obtain ns' y where y: "pod_of w (ns', q) = Some y" "vertex_pod y f" using safe(1) assms(3) unfolding records_ok_def by blast
  then have "ns' = om_Namespace (pod_meta y)" "pod_admitted y" using safe(2) unfolding pods_ok_def meta_key_def by blast+
  then obtain v p where "BuildVertexDomain v p ns' = Inr f" using y(2) unfolding pod_admitted_def by blast
  with BuildVertexDomain_inj [OF assms(2)] y show ?thesis by blast
qed

text \<open>CoreDNS over the records of the store.\<close>

definition core_dns :: "dual getaddrinfo" where
  "core_dns f = call (Store_Get (etcd_as_store \<lparr>client = dual_etcd\<rparr>) f) (\<lambda>_. fail ''EAI_AGAIN'')
     (\<lambda>ips. let v4s = filter is_v4 ips
        in if v4s = [] then fail ''EAI_NONAME''
           else ok (map (\<lambda>ip. \<lparr>ai_family = 2, ai_type = 1, ai_proto = 6, ai_canonname = [], ai_sockaddr = (ip, 0)\<rparr>) v4s))"

lemma dual_get_world: "snd (run_state (Store_Get (etcd_as_store \<lparr>client = dual_etcd\<rparr>) f) w) = w"
proof -
  have "keeps (\<lambda>w'. w' = w) (Store_Get (etcd_as_store \<lparr>client = dual_etcd\<rparr>) f)"
    unfolding etcd_as_store_def Get_def Let_def Store.simps
    by (auto intro!: keeps_call split: sum.split) (simp add: keeps_def dual_etcd_def run_on_snd mem_etcd_def)
  then show ?thesis by (simp add: keeps_def)
qed

interpretation core: name_service core_dns dns_records "etcd_good dual_kv"
proof
  fix w f
  assume w: "etcd_good dual_kv w" "vertex_fqdn f"
  obtain x where get: "run_state (Store_Get (etcd_as_store \<lparr>client = dual_etcd\<rparr>) f) w = (x, w)"
    using dual_get_world [of f w] by (metis prod.collapse)
  show "w' = w" if "run_state (core_dns f) w = (r, w')" for r w'
    using that get by (cases x) (auto simp: core_dns_def Let_def split: if_splits)
  show "(fst \<circ> ai_sockaddr) ` set rs = addresses_of (dns_records w) f" if run: "run_state (core_dns f) w = (Inr rs, w')" for rs w'
  proof -
    obtain ips where x: "x = Inr ips" using run get by (cases x) (auto simp: core_dns_def)
    have "ip \<in> set ips \<longleftrightarrow> (\<exists>p. dns_records w (f, p) = Some ip)" for ip
      using dns_store.get_set [OF dns_store_etcd [OF dual_store] w get [unfolded x]] .
    moreover have "rs = map (\<lambda>ip. \<lparr>ai_family = 2, ai_type = 1, ai_proto = 6, ai_canonname = [], ai_sockaddr = (ip, 0)\<rparr>) (filter is_v4 ips)"
      using run get x by (auto simp: core_dns_def Let_def split: if_splits)
    ultimately show ?thesis by (auto simp: addresses_of_def image_image)
  qed
qed

text \<open>The addresses behind an FQDN, and the Pods they belong to.\<close>

lemma addresses_of_pods:
  assumes "pod_reachable w" "BuildVertexDomain t pname ns = Inr f"
  shows "addresses_of (dns_records w) f =
    {ip. is_v4 ip \<and> (\<exists>q y. dns_records w (f, q) = Some ip \<and> pod_of w (ns, q) = Some y \<and> vertex_pod y f)}"
  unfolding addresses_of_def using record_pod [OF assms] by blast

lemma resolver_finds_pods:
  assumes "name_service getaddrinfo dns_records (etcd_good dual_kv)" "pod_reachable w"
    and "set ts = {f. \<exists>t\<in>D. BuildVertexDomain t pname ns = Inr f}" "ts \<noteq> []" "environ env_var = Some (Join ts '','')"
    and "run_state (resolve_targets environ getaddrinfo env_var) w = (r, w')"
  shows "w' = w \<and> (case r of
      Inl e \<Rightarrow> \<exists>t\<in>D. \<exists>f. BuildVertexDomain t pname ns = Inr f \<and> run_state (getaddrinfo f) w = (Inl e, w)
    | Inr targets \<Rightarrow> fst ` set targets = {f. \<exists>t\<in>D. BuildVertexDomain t pname ns = Inr f} \<and>
        (\<forall>(f, ips)\<in>set targets. distinct ips \<and>
           set ips = {ip. is_v4 ip \<and> (\<exists>q y. dns_records w (f, q) = Some ip \<and> pod_of w (ns, q) = Some y \<and> vertex_pod y f)}))"
proof -
  have good: "etcd_good dual_kv w" using pod_reachable_safe [OF assms(2)] by (simp add: dns_safe_def)
  have fs: "\<forall>f\<in>set ts. vertex_fqdn f \<and> CHR '','' \<notin> set f"
    using assms(3) BuildVertexDomain_vertex_fqdn BuildVertexDomain_chars by blast
  from name_service.resolve_targets_result [where environ = environ and env_var = env_var, OF assms(1) good assms(5,4) fs]
  consider (found) targets where "w' = w" "r = Inr targets" "resolved (dns_records w) targets" "fst ` set targets = set ts"
    | (failed) f e where "w' = w" "r = Inl e" "f \<in> set ts" "run_state (getaddrinfo f) w = (Inl e, w)"
    unfolding assms(6) by blast
  then show ?thesis
  proof cases
    case found
    have "distinct ips \<and> set ips = {ip. is_v4 ip \<and> (\<exists>q y. dns_records w (f, q) = Some ip \<and> pod_of w (ns, q) = Some y \<and> vertex_pod y f)}"
      if m: "(f, ips) \<in> set targets" for f ips
    proof -
      have "f \<in> set ts" using m found(4) by force
      then obtain t where "BuildVertexDomain t pname ns = Inr f" using assms(3) by blast
      from addresses_of_pods [OF assms(2) this] found(3) m show ?thesis unfolding resolved_def by blast
    qed
    then show ?thesis using found(1,2,4) assms(3) by (simp add: case_prod_unfold) (metis prod.collapse)
  next
    case failed
    then show ?thesis using assms(3) by auto
  qed
qed

section \<open>Properties\<close>

text \<open>C3: a vertex finds exactly the Pods it sends to.  Take a Pod that the webhook has patched and a container of it, and
  any reachable state of the cluster and of DNS.  If the vertex sends to others, \<open>resolve_targets\<close> in that container
  returns a dict unless a lookup raises; its names are the FQDNs of the destinations of the vertex, and under each
  name are, once each, the IPv4 addresses recorded for it, every one of a Pod of that vertex in the same namespace.\<close>

theorem targets_reach_pods:
  assumes "pod_codec_ok plib" "run_state (Handle c ulib plib req) w0 = (PatchResponseFromRaw raw patched, w1)"
    and "pod_Unmarshal plib patched = Inr pod" "k \<in> set (pod_Containers pod)"
    and "name_service getaddrinfo dns_records (etcd_good dual_kv)" "pod_reachable w"
    and "run_state (resolve_targets (container_environ k) getaddrinfo ''VERTEX_DOMAIN_TARGETS'') w = (r, w')"
  shows "\<exists>vname pname ns own pipeline val bindings. BuildVertexDomain vname pname ns = Inr own \<and> vertex_pod pod own \<and>
    run_state (GetPipeline c (ns, pname)) w0 = (Inr pipeline, w1) \<and>
    GetAnnotations ulib pipeline AnnotationNumaNetworkEdges = Some val \<and> ParseBindings val = Inr bindings \<and>
    (destinations vname bindings \<noteq> [] \<longrightarrow> w' = w \<and>
       (case r of
          Inl e \<Rightarrow> \<exists>t\<in>set (destinations vname bindings). \<exists>f. BuildVertexDomain t pname ns = Inr f \<and> run_state (getaddrinfo f) w = (Inl e, w)
        | Inr targets \<Rightarrow> fst ` set targets = {f. \<exists>t\<in>set (destinations vname bindings). BuildVertexDomain t pname ns = Inr f} \<and>
            (\<forall>(f, ips)\<in>set targets. distinct ips \<and>
               set ips = {ip. is_v4 ip \<and> (\<exists>q y. dns_records w (f, q) = Some ip \<and> pod_of w (ns, q) = Some y \<and> vertex_pod y f)})))"
proof -
  obtain pod0 pname vname ns pipeline val bindings f ts where
    h: "pod_Unmarshal plib patched = Inr (marked_pod pod0 f ts)" "run_state (GetPipeline c (ns, pname)) w0 = (Inr pipeline, w1)"
    "GetAnnotations ulib pipeline AnnotationNumaNetworkEdges = Some val" "ParseBindings val = Inr bindings"
    "BuildVertexDomain vname pname ns = Inr f" and ts: "map (\<lambda>t. BuildVertexDomain t pname ns) (destinations vname bindings) = map Inr ts"
    by (rule admitted_pod [OF assms(1,2)])
  have pod: "pod = marked_pod pod0 f ts" using assms(3) h(1) by simp
  have "f \<noteq> []" using h(5) by (auto simp: BuildVertexDomain_Inr_iff)
  then have vp: "vertex_pod pod f" by (simp add: pod marked_vertex_pod)
  have found: "w' = w \<and> (case r of
      Inl e \<Rightarrow> \<exists>t\<in>set (destinations vname bindings). \<exists>f. BuildVertexDomain t pname ns = Inr f \<and> run_state (getaddrinfo f) w = (Inl e, w)
    | Inr targets \<Rightarrow> fst ` set targets = {f. \<exists>t\<in>set (destinations vname bindings). BuildVertexDomain t pname ns = Inr f} \<and>
        (\<forall>(f, ips)\<in>set targets. distinct ips \<and>
           set ips = {ip. is_v4 ip \<and> (\<exists>q y. dns_records w (f, q) = Some ip \<and> pod_of w (ns, q) = Some y \<and> vertex_pod y f)}))"
    if "destinations vname bindings \<noteq> []"
  proof -
    have "ts \<noteq> []" using that ts by auto
    from resolver_finds_pods [OF assms(5,6) targets_eq [OF ts] this marked_environ [OF assms(4) [unfolded pod] this] assms(7)]
    show ?thesis .
  qed
  show ?thesis
    by (rule exI [of _ vname], rule exI [of _ pname], rule exI [of _ ns], rule exI [of _ f], rule exI [of _ pipeline],
        rule exI [of _ val], rule exI [of _ bindings])
      (use vp h(2-5) found in blast)
qed

section \<open>A vertex that sends to another\<close>

definition sender_pod :: Pod where
  "sender_pod = \<lparr>pod_meta = empty_meta\<lparr>om_Name := ''s-0'', om_Namespace := ''ns'',
       om_Labels := [numaflowLabelPipelineName \<mapsto> ''p1'', numaflowLabelVertexName \<mapsto> ''src'']\<rparr>,
     pod_Containers = [\<lparr>co_Env = [], co_other = []\<rparr>], pod_ResourceClaimStatuses = [], pod_other = []\<rparr>"

definition sender_binding :: EdgeNumaNetworkBinding where
  "sender_binding = \<lparr>From = ''src'', To = ''in'', NumaNetworkName = ''n'', ConnectionType = ''direct''\<rparr>"

definition sender_ulib :: UnstructuredLib where
  "sender_ulib = example_lib [] [AnnotationNumaNetworkEdges \<mapsto> Marshal (JArr (map binding_json [sender_binding]))] None"

abbreviation sender_marked :: Pod where
  "sender_marked \<equiv> marked_pod sender_pod ''src.p1.ns.vertexdomain.local'' [''in.p1.ns.vertexdomain.local'']"

definition sender_plib :: PodLib where
  "sender_plib = \<lparr>pod_Unmarshal = (\<lambda>s. if s = ''doc'' then Inr sender_pod else if s = ''patched'' then Inr sender_marked else Inl ''bad document''),
     pod_Marshal = (\<lambda>p. if p = sender_marked then Inr ''patched'' else Inl ''unused'')\<rparr>"

lemma sender_codec: "pod_codec_ok sender_plib"
  by (auto simp: pod_codec_ok_def sender_plib_def)

lemma sender_domains:
  "BuildVertexDomain ''src'' ''p1'' ''ns'' = Inr ''src.p1.ns.vertexdomain.local''"
  "BuildVertexDomain ''in'' ''p1'' ''ns'' = Inr ''in.p1.ns.vertexdomain.local''"
  by code_simp+

lemma sender_parse: "ParseBindings (Marshal (JArr (map binding_json [sender_binding]))) = Inr [sender_binding]"
  by (rule ParseBindings_Marshal) (simp add: sender_binding_def ascii_binding_def)

lemma sender_handled:
  "run_state (Handle cluster_client sender_ulib sender_plib \<lparr>Object_Raw = ''doc'', req_Namespace = ''ns''\<rparr>) pipeline_cluster =
     (PatchResponseFromRaw ''doc'' ''patched'', pipeline_cluster)"
proof -
  have g: "run_state (GetPipeline cluster_client (''ns'', ''p1'')) pipeline_cluster = (Inr [], pipeline_cluster)"
    by (simp add: cluster_client_def api_get_def pipeline_cluster_def)
  have l: "lookup_str (om_Labels (pod_meta sender_pod)) numaflowLabelPipelineName = ''p1''"
    "lookup_str (om_Labels (pod_meta sender_pod)) numaflowLabelVertexName = ''src''"
    by (simp_all add: lookup_str_def sender_pod_def numaflowLabelPipelineName_def numaflowLabelVertexName_def)
  have t: "vertexInDirectBindings ''src'' [sender_binding]"
    "collectTargetFQDNs ''src'' [sender_binding] ''p1'' ''ns'' = Inr [''in.p1.ns.vertexdomain.local'']"
    by (simp_all add: sender_binding_def ConnectionTypeDirect_def sender_domains)
  have "pod_Marshal sender_plib sender_marked = Inr ''patched''" by (simp add: sender_plib_def)
  then have "run_state (patch_pod sender_ulib sender_plib \<lparr>Object_Raw = ''doc'', req_Namespace = ''ns''\<rparr> sender_pod ''p1'' ''src'' ''ns'' []) w =
      (PatchResponseFromRaw ''doc'' ''patched'', w)" for w :: cluster
    unfolding patch_pod_def marked_pod_eq using sender_parse t
    by (simp add: sender_ulib_def example_lib_def sender_domains add_targets_def EnvVertexDomainTargets_def del: Marshal.simps)
  with g l show ?thesis unfolding Handle_patch Let_def by (simp add: sender_plib_def)
qed

text \<open>The reference name service answers for a name with an address.\<close>

lemma core_dns_answers:
  assumes "etcd_good dual_kv w" "vertex_fqdn f" "dns_records w (f, q) = Some ip" "is_v4 ip"
  shows "\<exists>rs. run_state (core_dns f) w = (Inr rs, w)"
proof -
  obtain x where get: "run_state (Get \<lparr>client = dual_etcd\<rparr> f) w = (x, w)"
    using dual_get_world [of f w] by (simp add: etcd_as_store_def) (metis prod.collapse)
  have "\<exists>ips. x = Inr ips"
    using Get_Inl [OF dual_store assms(1,2)] get by (cases x) (auto simp: dual_etcd_def run_on_snd mem_etcd_def)
  then obtain ips where x: "x = Inr ips" ..
  have get': "run_state (Store_Get (etcd_as_store \<lparr>client = dual_etcd\<rparr>) f) w = (Inr ips, w)" using get x by (simp add: etcd_as_store_def)
  have "ip \<in> set (filter is_v4 ips)"
    using dns_store.get_set [OF dns_store_etcd [OF dual_store] assms(1,2) get'] assms(3,4) by auto
  then show ?thesis using get' by (auto simp: core_dns_def Let_def filter_empty_conv)
qed

lemma sender_destinations:
  assumes "BuildVertexDomain vname pname ns = Inr own" "vertex_pod sender_marked own"
    and "GetAnnotations sender_ulib pipeline AnnotationNumaNetworkEdges = Some val" "ParseBindings val = Inr bindings"
  shows "vname = ''src''" "pname = ''p1''" "ns = ''ns''" "destinations vname bindings = [''in'']"
proof -
  have "own = ''src.p1.ns.vertexdomain.local''" using assms(2) by (simp add: vertex_pod_def marked_pod_eq)
  then show names: "vname = ''src''" "pname = ''p1''" "ns = ''ns''"
    using BuildVertexDomain_inj [OF assms(1), of "''src''" "''p1''" "''ns''"] sender_domains(1) by simp_all
  have "bindings = [sender_binding]" using assms(3,4) sender_parse by (auto simp: sender_ulib_def example_lib_def simp del: Marshal.simps)
  then show "destinations vname bindings = [''in'']" by (simp add: names destinations_def sender_binding_def)
qed

theorem targets_reach_pods_witness:
  "\<exists>w targets. run_state (resolve_targets (container_environ (hd (pod_Containers sender_marked))) core_dns ''VERTEX_DOMAIN_TARGETS'') w = (Inr targets, w) \<and>
    fst ` set targets = {''in.p1.ns.vertexdomain.local''} \<and> (\<forall>(f, ips)\<in>set targets. v4_String [10, 0, 0, 1] \<in> set ips)"
proof -
  let ?f = "''in.p1.ns.vertexdomain.local''" and ?k = "hd (pod_Containers sender_marked)"
  obtain w where w: "pod_reachable w" "dns_records w (?f, ''p-0'') = Some (v4_String [10, 0, 0, 1])"
    using example_registered_reachable by blast
  have good: "etcd_good dual_kv w" using pod_reachable_safe [OF w(1)] by (simp add: dns_safe_def)
  have v4: "is_v4 (v4_String [10, 0, 0, 1])" by (simp add: is_v4_def ParseAddr_v4_String)
  have dec: "pod_Unmarshal sender_plib ''patched'' = Inr sender_marked" by (simp add: sender_plib_def)
  have k: "?k \<in> set (pod_Containers sender_marked)" by (simp add: marked_pod_eq sender_pod_def)
  obtain r w' where run: "run_state (resolve_targets (container_environ ?k) core_dns ''VERTEX_DOMAIN_TARGETS'') w = (r, w')" by (meson surj_pair)
  obtain vname pname ns own pipeline val bindings where
    t: "BuildVertexDomain vname pname ns = Inr own" "vertex_pod sender_marked own"
    "GetAnnotations sender_ulib pipeline AnnotationNumaNetworkEdges = Some val" "ParseBindings val = Inr bindings"
    and res: "destinations vname bindings \<noteq> [] \<longrightarrow> w' = w \<and> (case r of
          Inl e \<Rightarrow> \<exists>t\<in>set (destinations vname bindings). \<exists>f. BuildVertexDomain t pname ns = Inr f \<and> run_state (core_dns f) w = (Inl e, w)
        | Inr targets \<Rightarrow> fst ` set targets = {f. \<exists>t\<in>set (destinations vname bindings). BuildVertexDomain t pname ns = Inr f} \<and>
            (\<forall>(f, ips)\<in>set targets. distinct ips \<and>
               set ips = {ip. is_v4 ip \<and> (\<exists>q y. dns_records w (f, q) = Some ip \<and> pod_of w (ns, q) = Some y \<and> vertex_pod y f)}))"
    using targets_reach_pods [OF sender_codec sender_handled dec k core.name_service_axioms w(1) run] by blast
  note names = sender_destinations(1-3) [OF t] and dest = sender_destinations(4) [OF t]
  have "vertex_fqdn ?f" by (rule BuildVertexDomain_vertex_fqdn [OF sender_domains(2)])
  obtain rs where "run_state (core_dns ?f) w = (Inr rs, w)" using core_dns_answers [OF good \<open>vertex_fqdn ?f\<close> w(2) v4] by blast
  then have no: "run_state (core_dns f) w \<noteq> (Inl e, w)" if "BuildVertexDomain ''in'' ''p1'' ''ns'' = Inr f" for f e
    using that sender_domains(2) by simp
  have one: "{f. \<exists>t\<in>set [''in'']. BuildVertexDomain t ''p1'' ''ns'' = Inr f} = {?f}" using sender_domains(2) by (simp add: set_eq_iff)
  note res' = res [unfolded dest, unfolded names, unfolded one, THEN mp, OF list.distinct(2)]
  obtain targets where r: "r = Inr targets"
  proof (cases r)
    case (Inl e)
    then show ?thesis using res' no by (simp only: sum.case list.set empty_iff insert_iff) blast
  qed (use that in blast)
  note tg = res' [unfolded r sum.case]
  have name: "fst ` set targets = {?f}" using tg by (elim conjE)
  have ips: "set ips = addresses_of (dns_records w) ?f" if "(?f, ips) \<in> set targets" for ips
  proof -
    have "case (?f, ips) of (f, ips) \<Rightarrow> distinct ips \<and>
        set ips = {ip. is_v4 ip \<and> (\<exists>q y. dns_records w (f, q) = Some ip \<and> pod_of w (''ns'', q) = Some y \<and> vertex_pod y f)}"
      using tg that by (elim conjE) (erule bspec)
    then show ?thesis unfolding addresses_of_pods [OF w(1) sender_domains(2)] by (simp only: prod.case)
  qed
  have "v4_String [10, 0, 0, 1] \<in> addresses_of (dns_records w) ?f" unfolding addresses_of_def using v4 w(2) by blast
  then have "v4_String [10, 0, 0, 1] \<in> set (snd p)" if "p \<in> set targets" for p
  proof -
    have "fst p \<in> {?f}" unfolding name [symmetric] using that by (rule imageI)
    then have "(?f, snd p) \<in> set targets" using that by (metis prod.collapse singletonD)
    from ips [OF this] \<open>_ \<in> addresses_of _ _\<close> show ?thesis by simp
  qed
  then have "\<forall>(f, ips)\<in>set targets. v4_String [10, 0, 0, 1] \<in> set ips" by (simp only: case_prod_unfold) blast
  moreover have "w' = w" using tg by (elim conjE)
  ultimately show ?thesis using run [unfolded r] name by (intro exI [of _ w] exI [of _ targets] conjI) (simp_all only:)
qed

end
