(* ===== verification/AdmissionChain.thy ===== *)
theory AdmissionChain
  imports PipelineWebhook PipelineMutator
begin

text \<open>
  The two Pipeline webhooks one after the other, as the API server calls them: the validating webhook sees the
  Pipeline the mutating one has patched, after a trip through JSON.

  What the trip keeps is \<open>json_same\<close>: the order of the keys of a map is lost and a nil slice comes back as null.
  \<open>unstructured_ok\<close> is what the two webhooks rely on of the unstructured package.
\<close>

section \<open>The trip through JSON\<close>

inductive json_same :: "any \<Rightarrow> any \<Rightarrow> bool" where
  same_nil: "json_same ANil ANil"
| same_bool: "json_same (ABool b) (ABool b)"
| same_num: "json_same (ANum n) (ANum n)"
| same_str: "json_same (AStr s) (AStr s)"
| same_arr: "list_all2 json_same xs ys \<Longrightarrow> json_same (AArr xs) (AArr ys)"
| same_null: "json_same ANilArr ANil"
| same_map: "(\<And>k. rel_option json_same (map_of m k) (map_of m' k)) \<Longrightarrow> json_same (AMap m) (AMap m')"

inductive_simps json_same_map: "json_same (AMap m) y"

primrec no_nil_slice :: "any \<Rightarrow> bool" where
  "no_nil_slice ANil \<longleftrightarrow> True"
| "no_nil_slice (ABool b) \<longleftrightarrow> True"
| "no_nil_slice (ANum n) \<longleftrightarrow> True"
| "no_nil_slice (AStr s) \<longleftrightarrow> True"
| "no_nil_slice (AArr xs) \<longleftrightarrow> list_all id (map no_nil_slice xs)"
| "no_nil_slice ANilArr \<longleftrightarrow> False"
| "no_nil_slice (AMap m) \<longleftrightarrow> list_all (\<lambda>p. snd p) (map (map_prod id no_nil_slice) m)"

lemma json_same_refl: "no_nil_slice x \<Longrightarrow> json_same x x"
proof (induction x)
  case (AArr xs)
  then show ?case by (auto intro!: same_arr simp: list_all_iff list_all2_same)
next
  case (AMap m)
  have "rel_option json_same (map_of m k) (map_of m k)" for k
  proof (cases "map_of m k")
    case (Some v)
    then have "(k, v) \<in> set m" by (rule map_of_SomeD)
    then show ?thesis using AMap Some by (fastforce simp: list_all_iff)
  qed simp
  then show ?case by (rule same_map)
qed (simp_all add: json_same.intros)

section \<open>Reading a Pipeline before and after\<close>

lemma as_map_same:
  assumes "rel_option json_same x y"
  shows "rel_option (\<lambda>m m'. \<forall>k. rel_option json_same (map_of m k) (map_of m' k)) (as_map x) (as_map y)"
  using assms by (cases rule: option.rel_cases) (auto elim: json_same.cases)

lemma str_field_same:
  assumes "\<forall>k. rel_option json_same (map_of m k) (map_of m' k)"
  shows "str_field k m = str_field k m'"
proof -
  have "rel_option json_same (map_of m k) (map_of m' k)" using assms by blast
  then show ?thesis unfolding str_field_def by (cases rule: option.rel_cases) (auto elim: json_same.cases)
qed

abbreviation edge_of :: "any \<Rightarrow> PipelineEdge option" where
  "edge_of e \<equiv> map_option (\<lambda>edge. \<lparr>pe_From = str_field ''from'' edge, pe_To = str_field ''to'' edge\<rparr>) (as_map (Some e))"

lemma edge_same: "json_same e e' \<Longrightarrow> edge_of e = edge_of e'"
  using as_map_same [of "Some e" "Some e'"] by (auto elim!: option.rel_cases simp: str_field_same)

lemma map_filter_pointwise: "list_all2 (\<lambda>x y. f x = f y) xs ys \<Longrightarrow> List.map_filter f xs = List.map_filter f ys"
  by (induction rule: list_all2_induct) (simp_all add: List.map_filter_simps split: option.split)

lemma edges_same: "list_all2 json_same xs ys \<Longrightarrow> List.map_filter edge_of xs = List.map_filter edge_of ys"
  by (rule map_filter_pointwise) (erule list_all2_mono, rule edge_same)

text \<open>A nil slice of edges and null are both no edges.\<close>

lemma extractEdges_same:
  assumes "rel_option json_same (map_of obj ''spec'') (map_of obj' ''spec'')"
  shows "extractEdges obj = extractEdges obj'"
proof -
  have "(case as_arr x of None \<Rightarrow> [] | Some es \<Rightarrow> List.map_filter edge_of es) = (case as_arr y of None \<Rightarrow> [] | Some es \<Rightarrow> List.map_filter edge_of es)"
    if "rel_option json_same x y" for x y
    using that by (cases rule: option.rel_cases) (auto elim!: json_same.cases simp: edges_same List.map_filter_simps)
  then show ?thesis
    using as_map_same [OF assms] unfolding extractEdges_def by (auto elim!: option.rel_cases)
qed

section \<open>The unstructured package\<close>

text \<open>What was decoded once and still has its kind can be decoded again after it was encoded; the accessors read
  nothing but the metadata.\<close>

definition unstructured_ok :: "UnstructuredLib \<Rightarrow> bool" where
  "unstructured_ok lib \<longleftrightarrow>
     (\<forall>raw obj0 obj bs. us_Unmarshal lib raw = Inr obj0 \<longrightarrow> map_of obj ''kind'' = map_of obj0 ''kind'' \<longrightarrow> us_Marshal lib obj = Inr bs \<longrightarrow>
        (\<exists>obj'. us_Unmarshal lib bs = Inr obj' \<and> json_same (AMap obj) (AMap obj'))) \<and>
     (\<forall>obj obj'. rel_option json_same (map_of obj ''metadata'') (map_of obj' ''metadata'') \<longrightarrow>
        GetAnnotations lib obj = GetAnnotations lib obj' \<and> GetNamespace lib obj = GetNamespace lib obj' \<and>
        GetDeletionTimestamp lib obj = GetDeletionTimestamp lib obj')"

lemma unstructured_trip:
  assumes "unstructured_ok lib" "us_Unmarshal lib raw = Inr obj0" "map_of obj ''kind'' = map_of obj0 ''kind''" "us_Marshal lib obj = Inr bs"
  obtains obj' where "us_Unmarshal lib bs = Inr obj'" "\<And>k. rel_option json_same (map_of obj k) (map_of obj' k)"
  using assms unfolding unstructured_ok_def json_same_map by blast

lemma unstructured_metadata:
  assumes "unstructured_ok lib" "rel_option json_same (map_of obj ''metadata'') (map_of obj' ''metadata'')"
  shows "GetAnnotations lib obj = GetAnnotations lib obj'" "GetNamespace lib obj = GetNamespace lib obj'"
    "GetDeletionTimestamp lib obj = GetDeletionTimestamp lib obj'"
  using assms unfolding unstructured_ok_def by blast+

section \<open>One after the other\<close>

lemma injectResourceClaims_keeps:
  assumes "injectResourceClaims obj toInject = Inr obj'"
  shows "k \<noteq> ''spec'' \<Longrightarrow> map_of obj' k = map_of obj k" "extractEdges obj' = extractEdges obj"
  using assms by (auto simp: injectResourceClaims_def extractEdges_def Let_def split: option.splits)

lemma mutator_patched_object:
  assumes "run_state (PipelineMutator.Handle m c env lib req) w = (PatchResponseFromRaw raw patched, w')"
  obtains obj toInject obj' where "us_Unmarshal lib (Object_Raw req) = Inr obj"
    "injectResourceClaims obj toInject = Inr obj'" "us_Marshal lib obj' = Inr patched"
  using assms unfolding PipelineMutator.Handle_def run_call
  by (auto simp: run_call split: sum.splits option.splits prod.splits if_splits)

text \<open>C14: the webhooks work in order.  Whatever the mutating webhook patches into a Pipeline, the validating webhook
  comes to the same verdict, with the same calls, on the patched Pipeline as on the one the user sent: an injection
  neither lets a bad binding through nor gets a good one refused.\<close>

theorem mutation_keeps_verdict:
  assumes "unstructured_ok lib"
    and "run_state (PipelineMutator.Handle m c env lib req) w = (PatchResponseFromRaw raw patched, w')"
  shows "run_state (PipelineWebhook.Handle c' lib (req\<lparr>Object_Raw := patched\<rparr>)) v = run_state (PipelineWebhook.Handle c' lib req) v"
proof -
  obtain obj toInject obj1 where o: "us_Unmarshal lib (Object_Raw req) = Inr obj"
    "injectResourceClaims obj toInject = Inr obj1" "us_Marshal lib obj1 = Inr patched"
    by (rule mutator_patched_object [OF assms(2)])
  have keep: "map_of obj1 k = map_of obj k" if "k \<noteq> ''spec''" for k by (rule injectResourceClaims_keeps(1) [OF o(2) that])
  obtain obj2 where t: "us_Unmarshal lib patched = Inr obj2" "\<And>k. rel_option json_same (map_of obj1 k) (map_of obj2 k)"
    by (rule unstructured_trip [OF assms(1) o(1) _ o(3)]) (simp_all add: keep)
  have "rel_option json_same (map_of obj ''metadata'') (map_of obj2 ''metadata'')"
    using t(2) [of "''metadata''"] by (simp add: keep)
  note meta = unstructured_metadata [OF assms(1) this]
  have "extractEdges obj2 = extractEdges obj"
    using extractEdges_same [OF t(2)] injectResourceClaims_keeps(2) [OF o(2)] by simp
  then show ?thesis by (simp add: PipelineWebhook.Handle_def o(1) t(1) meta split: option.split sum.split)
qed

section \<open>A Pipeline that is patched\<close>

definition chain_pipeline :: "(string \<times> any) list \<Rightarrow> Unstructured" where
  "chain_pipeline claims = [(''kind'', AStr ''Pipeline''), (''spec'', AMap
     [(''edges'', AArr [AMap [(''from'', AStr ''a''), (''to'', AStr ''b'')]]),
      (''vertices'', AArr [AMap ((''name'', AStr ''a'') # claims), AMap ((''name'', AStr ''b'') # claims)])])]"

definition chain_lib :: UnstructuredLib where
  "chain_lib = (example_lib [(''doc'', chain_pipeline []), (''patched'', chain_pipeline [(''resourceClaims'', AArr [claim_any ''n-rct''])])]
       [AnnotationNumaNetworkEdges \<mapsto> Marshal (JArr (map binding_json example_bindings))] None)
     \<lparr>us_Marshal := (\<lambda>obj. if obj = chain_pipeline [(''resourceClaims'', AArr [claim_any ''n-rct''])] then Inr ''patched'' else Inl ''unused'')\<rparr>"

lemma chain_lib_ok: "unstructured_ok chain_lib"
proof -
  have "no_nil_slice (AMap (chain_pipeline [(''resourceClaims'', AArr [claim_any ''n-rct''])]))" by code_simp
  then show ?thesis by (auto simp: unstructured_ok_def chain_lib_def example_lib_def intro: json_same_refl)
qed

lemma chain_handle:
  "run_state (PipelineMutator.Handle default_mutator cluster_client idle_env chain_lib \<lparr>Object_Raw = ''doc'', req_Namespace = ''ns''\<rparr>)
     late_cluster = (PatchResponseFromRaw ''doc'' ''patched'', late_cluster)"
proof -
  have "injectResourceClaims (chain_pipeline []) [(''a'', [''n-rct'']), (''b'', [''n-rct''])] =
      Inr (chain_pipeline [(''resourceClaims'', AArr [claim_any ''n-rct''])])" by code_simp
  then show ?thesis
    unfolding PipelineMutator.Handle_def
    by (simp add: chain_lib_def example_lib_def example_parse example_collect del: Marshal.simps)
qed

theorem mutation_keeps_verdict_witness:
  "run_state (PipelineWebhook.Handle cluster_client chain_lib \<lparr>Object_Raw = ''patched'', req_Namespace = ''ns''\<rparr>) late_cluster =
   run_state (PipelineWebhook.Handle cluster_client chain_lib \<lparr>Object_Raw = ''doc'', req_Namespace = ''ns''\<rparr>) late_cluster"
  using mutation_keeps_verdict [OF chain_lib_ok chain_handle, of cluster_client late_cluster] by simp

end
