(* ===== verification/DeepCopy.thy ===== *)
theory DeepCopy
  imports ApiTypes
begin

text \<open>
  \<open>api/v1alpha1/zz_generated.deepcopy.go\<close>: the deep copies of the resource types, on an explicit heap.

  Elsewhere in the development an object is a value.  Here it is what it is in Go's memory: a struct at an address,
  whose metadata hold maps, slices and pointers.  The point of a deep copy is that nothing done to the copy
  shows through in the original, which is a statement about addresses.  \<open>ObjectMeta.DeepCopyInto\<close> and
  \<open>ListMeta.DeepCopyInto\<close> belong to apimachinery and are parameters; \<open>meta_copier\<close> states what they
  promise, and \<open>ref_copiers\<close> is an instance.
\<close>

section \<open>Memory\<close>

type_synonym addr = nat

datatype NumaNetworkStatus = NumaNetworkStatus

record TypeMeta =
  tm_Kind :: string
  tm_APIVersion :: string

text \<open>A struct in memory.  A pointer, a map or a slice is an address, \<open>None\<close> when it is nil.\<close>

record go_meta =
  gm_Name :: string
  gm_Namespace :: string
  gm_UID :: string
  gm_ResourceVersion :: string
  gm_Labels :: "addr option"
  gm_Annotations :: "addr option"
  gm_Finalizers :: "addr option"
  gm_OwnerReferences :: "addr option"
  gm_DeletionTimestamp :: "addr option"

record go_listmeta =
  gl_ResourceVersion :: string
  gl_Continue :: string
  gl_RemainingItemCount :: "addr option"

record go_network =
  gn_TypeMeta :: TypeMeta
  gn_ObjectMeta :: go_meta
  gn_Spec :: NumaNetworkSpec
  gn_Status :: NumaNetworkStatus

record go_networklist =
  gnl_TypeMeta :: TypeMeta
  gnl_ListMeta :: go_listmeta
  gnl_Items :: "addr option"

datatype cell =
    StringMapCell "string \<rightharpoonup> string"
  | StringsCell "string list"
  | OwnersCell "OwnerReference list"
  | TimeCell nat
  | Int64Cell int
  | NetworkCell go_network
  | NetworksCell "go_network list"
  | ListCell go_networklist
  | SpecCell NumaNetworkSpec
  | StatusCell NumaNetworkStatus
  | DeviceClassCell RefDeviceClass
  | DranetCell RefResourceClaimDranet

record heap =
  cells :: "addr \<rightharpoonup> cell"
  lim :: addr

datatype panic = NilDereference | OutOfRange

type_synonym 'a mem = "(heap, panic, 'a) io"

definition alloc :: "cell \<Rightarrow> addr mem" where
  "alloc c = State (\<lambda>h. (Inr (lim h), h\<lparr>cells := (cells h)(lim h \<mapsto> c), lim := Suc (lim h)\<rparr>))"

definition put_cell :: "addr \<Rightarrow> cell \<Rightarrow> unit mem" where
  "put_cell a c = State (\<lambda>h. (Inr (), h\<lparr>cells := (cells h)(a \<mapsto> c)\<rparr>))"

text \<open>Reading at a type: Go's type system rules out a cell of another type, so that case is a nil dereference.\<close>

definition get_cell :: "(cell \<Rightarrow> 'a option) \<Rightarrow> addr \<Rightarrow> 'a mem" where
  "get_cell sel a = State (\<lambda>h. (case Option.bind (cells h a) sel of None \<Rightarrow> Inl NilDereference | Some x \<Rightarrow> Inr x, h))"

fun as_network :: "cell \<Rightarrow> go_network option" where
  "as_network (NetworkCell n) = Some n" | "as_network _ = None"

fun as_networks :: "cell \<Rightarrow> go_network list option" where
  "as_networks (NetworksCell ns) = Some ns" | "as_networks _ = None"

fun as_list :: "cell \<Rightarrow> go_networklist option" where
  "as_list (ListCell l) = Some l" | "as_list _ = None"

fun as_spec :: "cell \<Rightarrow> NumaNetworkSpec option" where
  "as_spec (SpecCell x) = Some x" | "as_spec _ = None"

fun as_status :: "cell \<Rightarrow> NumaNetworkStatus option" where
  "as_status (StatusCell x) = Some x" | "as_status _ = None"

fun as_deviceclass :: "cell \<Rightarrow> RefDeviceClass option" where
  "as_deviceclass (DeviceClassCell x) = Some x" | "as_deviceclass _ = None"

fun as_dranet :: "cell \<Rightarrow> RefResourceClaimDranet option" where
  "as_dranet (DranetCell x) = Some x" | "as_dranet _ = None"

text \<open>A pointer to a \<open>NumaNetwork\<close> points to a struct of its own or to an element of a slice.\<close>

datatype network_ptr = Whole addr | Elem addr nat

fun load_network :: "network_ptr \<Rightarrow> go_network mem" where
  "load_network (Whole a) = get_cell as_network a"
| "load_network (Elem a i) = call (get_cell as_networks a) fail (\<lambda>ns. if i < length ns then ok (ns ! i) else fail OutOfRange)"

fun store_network :: "network_ptr \<Rightarrow> go_network \<Rightarrow> unit mem" where
  "store_network (Whole a) n = put_cell a (NetworkCell n)"
| "store_network (Elem a i) n = call (get_cell as_networks a) fail
     (\<lambda>ns. if i < length ns then put_cell a (NetworksCell (ns[i := n])) else fail OutOfRange)"

section \<open>The deep copies\<close>

record copiers =
  copyObjectMeta :: "go_meta \<Rightarrow> go_meta mem"
  copyListMeta :: "go_listmeta \<Rightarrow> go_listmeta mem"

definition zero_TypeMeta :: TypeMeta where
  "zero_TypeMeta = \<lparr>tm_Kind = [], tm_APIVersion = []\<rparr>"

definition zero_spec :: NumaNetworkSpec where
  "zero_spec = \<lparr>RefDeviceClass = \<lparr>DeviceClass_Name = []\<rparr>, RefResourceClaimDranet = \<lparr>IPRange = []\<rparr>\<rparr>"

definition zero_network :: go_network where
  "zero_network = \<lparr>gn_TypeMeta = zero_TypeMeta,
     gn_ObjectMeta = \<lparr>gm_Name = [], gm_Namespace = [], gm_UID = [], gm_ResourceVersion = [], gm_Labels = None,
       gm_Annotations = None, gm_Finalizers = None, gm_OwnerReferences = None, gm_DeletionTimestamp = None\<rparr>,
     gn_Spec = zero_spec, gn_Status = NumaNetworkStatus\<rparr>"

definition zero_list :: go_networklist where
  "zero_list = \<lparr>gnl_TypeMeta = zero_TypeMeta,
     gnl_ListMeta = \<lparr>gl_ResourceVersion = [], gl_Continue = [], gl_RemainingItemCount = None\<rparr>, gnl_Items = None\<rparr>"

text \<open>Every assignment of the generated code is a load of \<open>*in\<close> and a store into \<open>*out\<close>.\<close>

definition assign_network :: "network_ptr \<Rightarrow> (go_network \<Rightarrow> go_network) \<Rightarrow> unit mem" where
  "assign_network p f = call (load_network p) fail (\<lambda>n. store_network p (f n))"

definition NumaNetwork_DeepCopyInto :: "copiers \<Rightarrow> network_ptr \<Rightarrow> network_ptr \<Rightarrow> unit mem" where
  "NumaNetwork_DeepCopyInto mc src out =
     call (load_network src) fail (\<lambda>n.
     call (store_network out n) fail (\<lambda>_.
     call (assign_network out (\<lambda>o'. o'\<lparr>gn_TypeMeta := gn_TypeMeta n\<rparr>)) fail (\<lambda>_.
     call (copyObjectMeta mc (gn_ObjectMeta n)) fail (\<lambda>m.
     call (assign_network out (\<lambda>o'. o'\<lparr>gn_ObjectMeta := m\<rparr>)) fail (\<lambda>_.
     call (assign_network out (\<lambda>o'. o'\<lparr>gn_Spec := gn_Spec n\<rparr>)) fail (\<lambda>_.
     assign_network out (\<lambda>o'. o'\<lparr>gn_Status := gn_Status n\<rparr>)))))))"

definition NumaNetwork_DeepCopy :: "copiers \<Rightarrow> addr option \<Rightarrow> addr option mem" where
  "NumaNetwork_DeepCopy mc p = (case p of
     None \<Rightarrow> ok None
   | Some a \<Rightarrow> call (alloc (NetworkCell zero_network)) fail (\<lambda>out.
       call (NumaNetwork_DeepCopyInto mc (Whole a) (Whole out)) fail (\<lambda>_. ok (Some out))))"

text \<open>A value of the interface type \<open>runtime.Object\<close>: nil, or a pointer with its dynamic type.\<close>

datatype Object = NetworkObject addr | NetworkListObject addr

definition NumaNetwork_DeepCopyObject :: "copiers \<Rightarrow> addr option \<Rightarrow> Object option mem" where
  "NumaNetwork_DeepCopyObject mc p = call (NumaNetwork_DeepCopy mc p) fail
     (\<lambda>c. case c of Some a \<Rightarrow> ok (Some (NetworkObject a)) | None \<Rightarrow> ok None)"

definition assign_list :: "addr \<Rightarrow> (go_networklist \<Rightarrow> go_networklist) \<Rightarrow> unit mem" where
  "assign_list p f = call (get_cell as_list p) fail (\<lambda>l. put_cell p (ListCell (f l)))"

fun copy_items :: "copiers \<Rightarrow> addr \<Rightarrow> addr \<Rightarrow> nat list \<Rightarrow> unit mem" where
  "copy_items mc src out [] = ok ()"
| "copy_items mc src out (i # is) =
     call (NumaNetwork_DeepCopyInto mc (Elem src i) (Elem out i)) fail (\<lambda>_. copy_items mc src out is)"

definition copy_list_items :: "copiers \<Rightarrow> addr \<Rightarrow> addr \<Rightarrow> unit mem" where
  "copy_list_items mc items out =
     call (get_cell as_networks items) fail (\<lambda>ns.
     call (alloc (NetworksCell (replicate (length ns) zero_network))) fail (\<lambda>arr.
     call (assign_list out (\<lambda>o'. o'\<lparr>gnl_Items := Some arr\<rparr>)) fail (\<lambda>_.
     copy_items mc items arr [0..<length ns])))"

definition NumaNetworkList_DeepCopyInto :: "copiers \<Rightarrow> addr \<Rightarrow> addr \<Rightarrow> unit mem" where
  "NumaNetworkList_DeepCopyInto mc src out =
     call (get_cell as_list src) fail (\<lambda>l.
     call (put_cell out (ListCell l)) fail (\<lambda>_.
     call (assign_list out (\<lambda>o'. o'\<lparr>gnl_TypeMeta := gnl_TypeMeta l\<rparr>)) fail (\<lambda>_.
     call (copyListMeta mc (gnl_ListMeta l)) fail (\<lambda>m.
     call (assign_list out (\<lambda>o'. o'\<lparr>gnl_ListMeta := m\<rparr>)) fail (\<lambda>_.
     case gnl_Items l of
       None \<Rightarrow> ok ()
     | Some items \<Rightarrow> copy_list_items mc items out)))))"

definition NumaNetworkList_DeepCopy :: "copiers \<Rightarrow> addr option \<Rightarrow> addr option mem" where
  "NumaNetworkList_DeepCopy mc p = (case p of
     None \<Rightarrow> ok None
   | Some a \<Rightarrow> call (alloc (ListCell zero_list)) fail (\<lambda>out.
       call (NumaNetworkList_DeepCopyInto mc a out) fail (\<lambda>_. ok (Some out))))"

definition NumaNetworkList_DeepCopyObject :: "copiers \<Rightarrow> addr option \<Rightarrow> Object option mem" where
  "NumaNetworkList_DeepCopyObject mc p = call (NumaNetworkList_DeepCopy mc p) fail
     (\<lambda>c. case c of Some a \<Rightarrow> ok (Some (NetworkListObject a)) | None \<Rightarrow> ok None)"

text \<open>The types without pointers.\<close>

definition NumaNetworkSpec_DeepCopyInto :: "addr \<Rightarrow> addr \<Rightarrow> unit mem" where
  "NumaNetworkSpec_DeepCopyInto src out =
     call (get_cell as_spec src) fail (\<lambda>s.
     call (put_cell out (SpecCell s)) fail (\<lambda>_.
     call (put_cell out (SpecCell (s\<lparr>RefDeviceClass := RefDeviceClass s\<rparr>))) fail (\<lambda>_.
     put_cell out (SpecCell (s\<lparr>RefResourceClaimDranet := RefResourceClaimDranet s\<rparr>)))))"

definition NumaNetworkSpec_DeepCopy :: "addr option \<Rightarrow> addr option mem" where
  "NumaNetworkSpec_DeepCopy p = (case p of
     None \<Rightarrow> ok None
   | Some a \<Rightarrow> call (alloc (SpecCell zero_spec)) fail (\<lambda>out.
       call (NumaNetworkSpec_DeepCopyInto a out) fail (\<lambda>_. ok (Some out))))"

definition NumaNetworkStatus_DeepCopyInto :: "addr \<Rightarrow> addr \<Rightarrow> unit mem" where
  "NumaNetworkStatus_DeepCopyInto src out = call (get_cell as_status src) fail (\<lambda>s. put_cell out (StatusCell s))"

definition NumaNetworkStatus_DeepCopy :: "addr option \<Rightarrow> addr option mem" where
  "NumaNetworkStatus_DeepCopy p = (case p of
     None \<Rightarrow> ok None
   | Some a \<Rightarrow> call (alloc (StatusCell NumaNetworkStatus)) fail (\<lambda>out.
       call (NumaNetworkStatus_DeepCopyInto a out) fail (\<lambda>_. ok (Some out))))"

definition RefDeviceClass_DeepCopyInto :: "addr \<Rightarrow> addr \<Rightarrow> unit mem" where
  "RefDeviceClass_DeepCopyInto src out = call (get_cell as_deviceclass src) fail (\<lambda>s. put_cell out (DeviceClassCell s))"

definition RefDeviceClass_DeepCopy :: "addr option \<Rightarrow> addr option mem" where
  "RefDeviceClass_DeepCopy p = (case p of
     None \<Rightarrow> ok None
   | Some a \<Rightarrow> call (alloc (DeviceClassCell \<lparr>DeviceClass_Name = []\<rparr>)) fail (\<lambda>out.
       call (RefDeviceClass_DeepCopyInto a out) fail (\<lambda>_. ok (Some out))))"

definition RefResourceClaimDranet_DeepCopyInto :: "addr \<Rightarrow> addr \<Rightarrow> unit mem" where
  "RefResourceClaimDranet_DeepCopyInto src out = call (get_cell as_dranet src) fail (\<lambda>s. put_cell out (DranetCell s))"

definition RefResourceClaimDranet_DeepCopy :: "addr option \<Rightarrow> addr option mem" where
  "RefResourceClaimDranet_DeepCopy p = (case p of
     None \<Rightarrow> ok None
   | Some a \<Rightarrow> call (alloc (DranetCell \<lparr>IPRange = []\<rparr>)) fail (\<lambda>out.
       call (RefResourceClaimDranet_DeepCopyInto a out) fail (\<lambda>_. ok (Some out))))"


section \<open>What a struct in memory stands for\<close>

fun as_strmap :: "cell \<Rightarrow> (string \<rightharpoonup> string) option" where
  "as_strmap (StringMapCell m) = Some m" | "as_strmap _ = None"

fun as_strings :: "cell \<Rightarrow> string list option" where
  "as_strings (StringsCell xs) = Some xs" | "as_strings _ = None"

fun as_owners :: "cell \<Rightarrow> OwnerReference list option" where
  "as_owners (OwnersCell xs) = Some xs" | "as_owners _ = None"

fun as_time :: "cell \<Rightarrow> nat option option" where
  "as_time (TimeCell t) = Some (Some t)" | "as_time _ = None"

fun as_int64 :: "cell \<Rightarrow> int option option" where
  "as_int64 (Int64Cell i) = Some (Some i)" | "as_int64 _ = None"

definition ptr_ok :: "(cell \<Rightarrow> 'a option) \<Rightarrow> heap \<Rightarrow> addr option \<Rightarrow> bool" where
  "ptr_ok sel h p = (case p of None \<Rightarrow> True | Some a \<Rightarrow> Option.bind (cells h a) sel \<noteq> None)"

definition ptr_val :: "(cell \<Rightarrow> 'a option) \<Rightarrow> 'a \<Rightarrow> heap \<Rightarrow> addr option \<Rightarrow> 'a" where
  "ptr_val sel d h p = (case p of None \<Rightarrow> d | Some a \<Rightarrow> (case Option.bind (cells h a) sel of None \<Rightarrow> d | Some x \<Rightarrow> x))"

definition meta_val :: "heap \<Rightarrow> go_meta \<Rightarrow> ObjectMeta" where
  "meta_val h m =
     \<lparr>om_Name = gm_Name m, om_Namespace = gm_Namespace m, om_Labels = ptr_val as_strmap Map.empty h (gm_Labels m),
      om_Annotations = ptr_val as_strmap Map.empty h (gm_Annotations m), om_Finalizers = ptr_val as_strings [] h (gm_Finalizers m),
      om_OwnerReferences = ptr_val as_owners [] h (gm_OwnerReferences m),
      om_DeletionTimestamp = ptr_val as_time None h (gm_DeletionTimestamp m), om_UID = gm_UID m,
      om_ResourceVersion = gm_ResourceVersion m\<rparr>"

definition meta_ok :: "heap \<Rightarrow> go_meta \<Rightarrow> bool" where
  "meta_ok h m \<longleftrightarrow> ptr_ok as_strmap h (gm_Labels m) \<and> ptr_ok as_strmap h (gm_Annotations m) \<and>
     ptr_ok as_strings h (gm_Finalizers m) \<and> ptr_ok as_owners h (gm_OwnerReferences m) \<and> ptr_ok as_time h (gm_DeletionTimestamp m)"

definition meta_addrs :: "go_meta \<Rightarrow> addr set" where
  "meta_addrs m = set_option (gm_Labels m) \<union> set_option (gm_Annotations m) \<union> set_option (gm_Finalizers m) \<union>
     set_option (gm_OwnerReferences m) \<union> set_option (gm_DeletionTimestamp m)"

definition listmeta_val :: "heap \<Rightarrow> go_listmeta \<Rightarrow> string \<times> string \<times> int option" where
  "listmeta_val h m = (gl_ResourceVersion m, gl_Continue m, ptr_val as_int64 None h (gl_RemainingItemCount m))"

definition listmeta_ok :: "heap \<Rightarrow> go_listmeta \<Rightarrow> bool" where
  "listmeta_ok h m = ptr_ok as_int64 h (gl_RemainingItemCount m)"

definition net_val :: "heap \<Rightarrow> go_network \<Rightarrow> TypeMeta \<times> NumaNetwork \<times> NumaNetworkStatus" where
  "net_val h n = (gn_TypeMeta n, \<lparr>nn_meta = meta_val h (gn_ObjectMeta n), nn_Spec = gn_Spec n\<rparr>, gn_Status n)"

text \<open>Only allocated cells have contents; \<open>extends\<close>: memory that was allocated is as it was.\<close>

definition heap_ok :: "heap \<Rightarrow> bool" where
  "heap_ok h \<longleftrightarrow> (\<forall>a. cells h a \<noteq> None \<longrightarrow> a < lim h)"

definition extends :: "heap \<Rightarrow> heap \<Rightarrow> bool" where
  "extends h h' \<longleftrightarrow> lim h \<le> lim h' \<and> (\<forall>a<lim h. cells h' a = cells h a)"

text \<open>The cells that metadata point to are none of the structs.\<close>

fun is_data :: "cell \<Rightarrow> bool" where
  "is_data (NetworkCell _) = False" | "is_data (NetworksCell _) = False" | "is_data (ListCell _) = False" | "is_data _ = True"

lemma as_data:
  "as_strmap c = Some m \<Longrightarrow> is_data c" "as_strings c = Some xs \<Longrightarrow> is_data c" "as_owners c = Some os \<Longrightarrow> is_data c"
  "as_time c = Some t \<Longrightarrow> is_data c" "as_int64 c = Some i \<Longrightarrow> is_data c"
  by (cases c; simp)+

lemma ptr_frame:
  assumes "\<And>a. a \<in> set_option p \<Longrightarrow> cells h' a = cells h a"
  shows "ptr_ok sel h' p = ptr_ok sel h p" "ptr_val sel d h' p = ptr_val sel d h p"
  using assms by (simp_all add: ptr_ok_def ptr_val_def split: option.split)

lemma ptr_data:
  assumes "ptr_ok sel h p" "a \<in> set_option p" "\<And>c x. sel c = Some x \<Longrightarrow> is_data c"
  shows "\<exists>c. cells h a = Some c \<and> is_data c"
  using assms by (cases "cells h a") (auto simp: ptr_ok_def)

lemma meta_frame:
  assumes "\<And>a. a \<in> meta_addrs m \<Longrightarrow> cells h' a = cells h a"
  shows "meta_ok h' m = meta_ok h m" "meta_val h' m = meta_val h m"
  unfolding meta_ok_def meta_val_def
  by (intro arg_cong2 [of _ _ _ _ "(\<and>)"] ptr_frame; simp add: assms meta_addrs_def)
    (simp, intro conjI ptr_frame; simp add: assms meta_addrs_def)

lemma listmeta_frame:
  assumes "\<And>a. a \<in> set_option (gl_RemainingItemCount m) \<Longrightarrow> cells h' a = cells h a"
  shows "listmeta_ok h' m = listmeta_ok h m" "listmeta_val h' m = listmeta_val h m"
  using ptr_frame [OF assms] by (simp_all add: listmeta_ok_def listmeta_val_def)

lemma meta_data:
  assumes "meta_ok h m" "a \<in> meta_addrs m"
  shows "\<exists>c. cells h a = Some c \<and> is_data c"
  using assms unfolding meta_ok_def meta_addrs_def by (auto intro: ptr_data as_data)

section \<open>Loads and stores\<close>

fun network_at :: "heap \<Rightarrow> network_ptr \<Rightarrow> go_network option" where
  "network_at h (Whole a) = Option.bind (cells h a) as_network"
| "network_at h (Elem a i) = Option.bind (Option.bind (cells h a) as_networks) (\<lambda>ns. if i < length ns then Some (ns ! i) else None)"

fun base :: "network_ptr \<Rightarrow> addr" where
  "base (Whole a) = a" | "base (Elem a i) = a"

fun set_at :: "network_ptr \<Rightarrow> go_network \<Rightarrow> heap \<Rightarrow> heap" where
  "set_at (Whole a) n h = h\<lparr>cells := (cells h)(a \<mapsto> NetworkCell n)\<rparr>"
| "set_at (Elem a i) n h =
     h\<lparr>cells := (cells h)(a \<mapsto> NetworksCell ((case Option.bind (cells h a) as_networks of None \<Rightarrow> [] | Some ns \<Rightarrow> ns)[i := n]))\<rparr>"

lemma as_cell: "as_network c = Some n \<longleftrightarrow> c = NetworkCell n" "as_networks c = Some ns \<longleftrightarrow> c = NetworksCell ns"
  "as_list c = Some l \<longleftrightarrow> c = ListCell l"
  by (cases c; auto)+

lemma run_load: "network_at h p = Some n \<Longrightarrow> run_state (load_network p) h = (Inr n, h)"
  by (cases p) (auto simp: get_cell_def run_call as_cell bind_eq_Some_conv split: if_splits)

lemma run_store: "network_at h p = Some n' \<Longrightarrow> run_state (store_network p n) h = (Inr (), set_at p n h)"
  by (cases p) (auto simp: get_cell_def put_cell_def run_call as_cell bind_eq_Some_conv split: if_splits)

lemma network_at_set_at: "network_at h p = Some n' \<Longrightarrow> network_at (set_at p n h) p = Some n"
  by (cases p) (auto simp: as_cell bind_eq_Some_conv split: if_splits)

lemma set_at_twice: "network_at h p = Some n' \<Longrightarrow> set_at p x (set_at p y h) = set_at p x h"
  by (cases p) (auto simp: as_cell bind_eq_Some_conv split: if_splits)

lemma set_at_simps [simp]: "lim (set_at p n h) = lim h" "a \<noteq> base p \<Longrightarrow> cells (set_at p n h) a = cells h a"
  by (cases p; simp)+

lemma network_at_struct: "network_at h p = Some n \<Longrightarrow> \<exists>c. cells h (base p) = Some c \<and> \<not> is_data c"
  by (cases p) (auto simp: as_cell bind_eq_Some_conv)

lemma network_at_cong: "cells h' (base p) = cells h (base p) \<Longrightarrow> network_at h' p = network_at h p"
  by (cases p) simp_all

lemma set_at_cong: "cells h' (base p) = cells h (base p) \<Longrightarrow> cells (set_at p n h') (base p) = cells (set_at p n h) (base p)"
  by (cases p) simp_all

lemma set_at_ok: "heap_ok h \<Longrightarrow> network_at h p = Some n' \<Longrightarrow> heap_ok (set_at p n h)"
  by (cases p) (auto simp: heap_ok_def as_cell bind_eq_Some_conv)

text \<open>Stores into structs leave metadata alone.\<close>

lemma meta_set_at:
  assumes "meta_ok h m" "network_at h p = Some n'"
  shows "meta_ok (set_at p n h) m" "meta_val (set_at p n h) m = meta_val h m"
proof -
  have "cells (set_at p n h) a = cells h a" if "a \<in> meta_addrs m" for a
    using meta_data [OF assms(1) that] network_at_struct [OF assms(2)] by (cases "a = base p") auto
  from meta_frame [OF this] show "meta_ok (set_at p n h) m" "meta_val (set_at p n h) m = meta_val h m"
    using assms(1) by simp_all
qed

lemma run_assign: "network_at h p = Some n \<Longrightarrow> run_state (assign_network p f) h = (Inr (), set_at p (f n) h)"
  by (simp add: assign_network_def run_load run_store)


section \<open>Objects\<close>

text \<open>The value at an address, the addresses it takes, and when it is well formed.\<close>

definition network_value :: "heap \<Rightarrow> addr \<Rightarrow> (TypeMeta \<times> NumaNetwork \<times> NumaNetworkStatus) option" where
  "network_value h p = map_option (net_val h) (network_at h (Whole p))"

definition network_wf :: "heap \<Rightarrow> addr \<Rightarrow> bool" where
  "network_wf h p = (case network_at h (Whole p) of None \<Rightarrow> False | Some n \<Rightarrow> meta_ok h (gn_ObjectMeta n))"

definition network_addrs :: "heap \<Rightarrow> addr \<Rightarrow> addr set" where
  "network_addrs h p = insert p (case network_at h (Whole p) of None \<Rightarrow> {} | Some n \<Rightarrow> meta_addrs (gn_ObjectMeta n))"

definition items_of :: "heap \<Rightarrow> go_networklist \<Rightarrow> go_network list" where
  "items_of h l = ptr_val as_networks [] h (gnl_Items l)"

definition list_value :: "heap \<Rightarrow> addr \<Rightarrow>
    (TypeMeta \<times> (string \<times> string \<times> int option) \<times> (TypeMeta \<times> NumaNetwork \<times> NumaNetworkStatus) list option) option" where
  "list_value h p = map_option (\<lambda>l. (gnl_TypeMeta l, listmeta_val h (gnl_ListMeta l),
     map_option (\<lambda>_. map (net_val h) (items_of h l)) (gnl_Items l))) (Option.bind (cells h p) as_list)"

definition list_wf :: "heap \<Rightarrow> addr \<Rightarrow> bool" where
  "list_wf h p = (case Option.bind (cells h p) as_list of None \<Rightarrow> False | Some l \<Rightarrow>
     listmeta_ok h (gnl_ListMeta l) \<and> ptr_ok as_networks h (gnl_Items l) \<and>
     (\<forall>n\<in>set (items_of h l). meta_ok h (gn_ObjectMeta n)))"

definition list_addrs :: "heap \<Rightarrow> addr \<Rightarrow> addr set" where
  "list_addrs h p = insert p (case Option.bind (cells h p) as_list of None \<Rightarrow> {} | Some l \<Rightarrow>
     set_option (gl_RemainingItemCount (gnl_ListMeta l)) \<union> set_option (gnl_Items l) \<union>
     (\<Union>n\<in>set (items_of h l). meta_addrs (gn_ObjectMeta n)))"

lemma network_frame:
  assumes "\<And>a. a \<in> network_addrs h p \<Longrightarrow> cells h' a = cells h a"
  shows "network_value h' p = network_value h p"
proof (cases "network_at h (Whole p)")
  case None
  then show ?thesis using assms [of p] by (simp add: network_value_def network_addrs_def)
next
  case (Some n)
  have "meta_val h' (gn_ObjectMeta n) = meta_val h (gn_ObjectMeta n)"
    using assms Some by (intro meta_frame) (simp add: network_addrs_def)
  then show ?thesis using assms [of p] Some by (simp add: network_value_def network_addrs_def net_val_def)
qed

lemma list_frame:
  assumes "\<And>a. a \<in> list_addrs h p \<Longrightarrow> cells h' a = cells h a"
  shows "list_value h' p = list_value h p"
proof (cases "Option.bind (cells h p) as_list")
  case None
  then show ?thesis using assms [of p] by (simp add: list_value_def list_addrs_def)
next
  case (Some l)
  have p: "cells h' p = cells h p" using assms by (simp add: list_addrs_def)
  have items: "items_of h' l = items_of h l"
    unfolding items_of_def by (rule ptr_frame) (use assms Some in \<open>simp add: list_addrs_def\<close>)
  have lm: "listmeta_val h' (gnl_ListMeta l) = listmeta_val h (gnl_ListMeta l)"
    by (rule listmeta_frame) (use assms Some in \<open>simp add: list_addrs_def\<close>)
  have "net_val h' n = net_val h n" if "n \<in> set (items_of h l)" for n
  proof -
    have "meta_val h' (gn_ObjectMeta n) = meta_val h (gn_ObjectMeta n)"
      by (rule meta_frame) (use assms Some that in \<open>auto simp: list_addrs_def\<close>)
    then show ?thesis by (simp add: net_val_def)
  qed
  then show ?thesis using p Some items lm by (cases "gnl_Items l") (simp_all add: list_value_def)
qed

lemma network_wf_below: "heap_ok h \<Longrightarrow> network_wf h p \<Longrightarrow> a \<in> network_addrs h p \<Longrightarrow> a < lim h"
  by (cases "network_at h (Whole p)")
    (auto simp: network_wf_def network_addrs_def heap_ok_def bind_eq_Some_conv dest!: meta_data)

lemma list_wf_below:
  assumes "heap_ok h" "list_wf h p" "a \<in> list_addrs h p"
  shows "a < lim h"
proof -
  from assms(2) obtain l where l: "cells h p = Some (ListCell l)" "listmeta_ok h (gnl_ListMeta l)" "ptr_ok as_networks h (gnl_Items l)"
    "\<forall>n\<in>set (items_of h l). meta_ok h (gn_ObjectMeta n)"
    by (auto simp: list_wf_def as_cell bind_eq_Some_conv split: option.splits)
  from assms(3) consider "a = p" | "a \<in> set_option (gl_RemainingItemCount (gnl_ListMeta l))" | "a \<in> set_option (gnl_Items l)"
    | n where "n \<in> set (items_of h l)" "a \<in> meta_addrs (gn_ObjectMeta n)"
    using l(1) by (auto simp: list_addrs_def)
  then have "cells h a \<noteq> None"
  proof cases
    case 4
    then show ?thesis using l(4) meta_data by blast
  qed (use l in \<open>auto simp: listmeta_ok_def ptr_ok_def bind_eq_Some_conv\<close>)
  with assms(1) show ?thesis by (simp add: heap_ok_def)
qed

section \<open>The contract of the metadata copies\<close>

text \<open>A copy: metadata of its own, with the same contents.\<close>

definition copied :: "heap \<Rightarrow> heap \<Rightarrow> go_network \<Rightarrow> go_network \<Rightarrow> bool" where
  "copied h h' n n' \<longleftrightarrow> meta_ok h' (gn_ObjectMeta n') \<and> net_val h' n' = net_val h n \<and>
     (\<forall>a\<in>meta_addrs (gn_ObjectMeta n'). lim h \<le> a)"

locale meta_copier =
  fixes mc :: copiers
  assumes copy_meta: "heap_ok h \<Longrightarrow> meta_ok h m \<Longrightarrow>
      \<exists>m' h'. run_state (copyObjectMeta mc m) h = (Inr m', h') \<and> heap_ok h' \<and> extends h h' \<and> meta_ok h' m' \<and>
        meta_val h' m' = meta_val h m \<and> (\<forall>a\<in>meta_addrs m'. lim h \<le> a)"
    and copy_listmeta: "heap_ok h \<Longrightarrow> listmeta_ok h l \<Longrightarrow>
      \<exists>l' h'. run_state (copyListMeta mc l) h = (Inr l', h') \<and> heap_ok h' \<and> extends h h' \<and> listmeta_ok h' l' \<and>
        listmeta_val h' l' = listmeta_val h l \<and> (\<forall>a\<in>set_option (gl_RemainingItemCount l'). lim h \<le> a)"
begin

lemma DeepCopyInto_effect:
  assumes "heap_ok h" "network_at h src = Some n" "meta_ok h (gn_ObjectMeta n)" "network_at h out = Some n0"
  shows "\<exists>n' h'. run_state (NumaNetwork_DeepCopyInto mc src out) h = (Inr (), h') \<and> heap_ok h' \<and> lim h \<le> lim h' \<and>
    (\<forall>a<lim h. a \<noteq> base out \<longrightarrow> cells h' a = cells h a) \<and> cells h' (base out) = cells (set_at out n' h) (base out) \<and>
    copied h h' n n'"
proof -
  let ?h1 = "set_at out n h"
  have h1: "heap_ok ?h1" "meta_ok ?h1 (gn_ObjectMeta n)" "meta_val ?h1 (gn_ObjectMeta n) = meta_val h (gn_ObjectMeta n)"
    using assms by (auto intro: set_at_ok meta_set_at)
  obtain m' h2 where c: "run_state (copyObjectMeta mc (gn_ObjectMeta n)) ?h1 = (Inr m', h2)" "heap_ok h2" "extends ?h1 h2"
    "meta_ok h2 m'" "meta_val h2 m' = meta_val ?h1 (gn_ObjectMeta n)" "\<forall>a\<in>meta_addrs m'. lim ?h1 \<le> a"
    using copy_meta [OF h1(1,2)] by blast
  have "base out < lim h" using assms(1) network_at_struct [OF assms(4)] by (auto simp: heap_ok_def)
  then have b: "cells h2 (base out) = cells ?h1 (base out)" using c(3) by (simp add: extends_def)
  then have at: "network_at h2 out = Some n"
    using network_at_cong [OF b] network_at_set_at [OF assms(4)] by simp
  let ?n' = "n\<lparr>gn_ObjectMeta := m'\<rparr>"
  have run: "run_state (NumaNetwork_DeepCopyInto mc src out) h = (Inr (), set_at out ?n' h2)"
    using assms(4) c(1) at
    by (simp add: NumaNetwork_DeepCopyInto_def run_load [OF assms(2)] run_store [OF assms(4)] run_assign network_at_set_at
        set_at_twice run_call)
  have "copied h (set_at out ?n' h2) n ?n'"
    using c(4-6) meta_set_at [OF c(4) at, of ?n'] h1(3) by (simp add: copied_def net_val_def)
  moreover have "cells (set_at out ?n' h2) (base out) = cells (set_at out ?n' h) (base out)"
    using set_at_cong [OF b, of ?n'] set_at_twice [OF assms(4), of ?n' n] by simp
  ultimately show ?thesis using run at c(2,3)
    by (intro exI [of _ ?n'] exI [of _ "set_at out ?n' h2"]) (auto simp: extends_def intro: set_at_ok)
qed

lemma copy_items_effect:
  assumes "heap_ok h" "cells h src = Some (NetworksCell ns)" "cells h out = Some (NetworksCell os)" "length os = length ns"
    and "src \<noteq> out" "set is \<subseteq> {..<length ns}" "distinct is" "\<forall>n\<in>set ns. meta_ok h (gn_ObjectMeta n)"
  shows "\<exists>os' h'. run_state (copy_items mc src out is) h = (Inr (), h') \<and> heap_ok h' \<and> lim h \<le> lim h' \<and>
    (\<forall>a<lim h. a \<noteq> out \<longrightarrow> cells h' a = cells h a) \<and> cells h' out = Some (NetworksCell os') \<and> length os' = length ns \<and>
    (\<forall>i. i \<notin> set is \<longrightarrow> os' ! i = os ! i) \<and> (\<forall>i\<in>set is. copied h h' (ns ! i) (os' ! i))"
  using assms
proof (induction "is" arbitrary: h os)
  case (Cons i "is")
  have i: "i < length ns" "i \<notin> set is" using Cons.prems(6,7) by auto
  have at: "network_at h (Elem src i) = Some (ns ! i)" "network_at h (Elem out i) = Some (os ! i)"
    using Cons.prems i by simp_all
  have mi: "meta_ok h (gn_ObjectMeta (ns ! i))" using Cons.prems(8) i by simp
  obtain n' h1 where s: "run_state (NumaNetwork_DeepCopyInto mc (Elem src i) (Elem out i)) h = (Inr (), h1)" "heap_ok h1"
    "lim h \<le> lim h1" "\<forall>a<lim h. a \<noteq> out \<longrightarrow> cells h1 a = cells h a"
    "cells h1 out = Some (NetworksCell (os[i := n']))" "copied h h1 (ns ! i) n'"
    using DeepCopyInto_effect [OF Cons.prems(1) at(1) mi at(2)] Cons.prems(3) by auto
  have old: "meta_ok h1 m" "meta_val h1 m = meta_val h m" if "meta_ok h m" for m
  proof -
    have "cells h1 a = cells h a" if "a \<in> meta_addrs m" for a
      using meta_data [OF \<open>meta_ok h m\<close> that] s(4) Cons.prems(1,3) by (cases "a = out") (auto simp: heap_ok_def)
    from meta_frame [OF this] that show "meta_ok h1 m" "meta_val h1 m = meta_val h m" by simp_all
  qed
  have src: "cells h1 src = Some (NetworksCell ns)" using s(4) Cons.prems(1,2,5) by (auto simp: heap_ok_def)
  obtain os' h' where t: "run_state (copy_items mc src out is) h1 = (Inr (), h')" "heap_ok h'" "lim h1 \<le> lim h'"
    "\<forall>a<lim h1. a \<noteq> out \<longrightarrow> cells h' a = cells h1 a" "cells h' out = Some (NetworksCell os')" "length os' = length ns"
    "\<forall>j. j \<notin> set is \<longrightarrow> os' ! j = os[i := n'] ! j" "\<forall>j\<in>set is. copied h1 h' (ns ! j) (os' ! j)"
    using Cons.IH [OF s(2) src s(5)] Cons.prems old(1) by auto
  have "copied h h' (ns ! i) n'"
  proof -
    have "cells h' a = cells h1 a" if "a \<in> meta_addrs (gn_ObjectMeta n')" for a
      using meta_data [OF _ that, of h1] s(2,5,6) t(4) by (cases "a = out") (auto simp: heap_ok_def copied_def)
    from meta_frame [OF this] s(6) show ?thesis by (simp add: copied_def net_val_def)
  qed
  moreover have "copied h h' (ns ! j) (os' ! j)" if "j \<in> set is" for j
  proof -
    have "j < length ns" using that Cons.prems(6) by auto
    with old(2) Cons.prems(8) have "net_val h1 (ns ! j) = net_val h (ns ! j)" by (simp add: net_val_def)
    with t(8) that s(3) show ?thesis by (fastforce simp: copied_def)
  qed
  moreover have "os' ! i = n'" using t(7) i Cons.prems(4) by simp
  ultimately show ?case using s t Cons.prems(6) i
    by (intro exI [of _ os'] exI [of _ h']) (auto simp: run_call)
qed auto

lemma run_assign_list: "cells h p = Some (ListCell l) \<Longrightarrow> run_state (assign_list p f) h = (Inr (), h\<lparr>cells := (cells h)(p \<mapsto> ListCell (f l))\<rparr>)"
  by (simp add: assign_list_def get_cell_def put_cell_def run_call)

text \<open>The copy of a list up to its items: a struct of its own with list metadata of its own.\<close>

lemma list_header_effect:
  assumes "heap_ok h" "cells h src = Some (ListCell l)" "listmeta_ok h (gnl_ListMeta l)" "cells h out = Some (ListCell l0)"
  shows "\<exists>m h'. heap_ok h' \<and> lim h \<le> lim h' \<and> (\<forall>a<lim h. a \<noteq> out \<longrightarrow> cells h' a = cells h a) \<and>
    cells h' out = Some (ListCell (l\<lparr>gnl_ListMeta := m\<rparr>)) \<and> listmeta_ok h' m \<and> listmeta_val h' m = listmeta_val h (gnl_ListMeta l) \<and>
    (\<forall>a\<in>set_option (gl_RemainingItemCount m). lim h \<le> a \<and> cells h' a \<noteq> None) \<and>
    run_state (NumaNetworkList_DeepCopyInto mc src out) h = run_state (case gnl_Items l of
       None \<Rightarrow> ok ()
     | Some items \<Rightarrow> copy_list_items mc items out) h'"
proof -
  let ?h1 = "h\<lparr>cells := (cells h)(out \<mapsto> ListCell l)\<rparr>"
  have out: "out < lim h" using assms(1,4) by (auto simp: heap_ok_def)
  have h1: "heap_ok ?h1" using assms(1) out by (auto simp: heap_ok_def)
  have fr: "cells ?h1 a = cells h a" if "a \<in> set_option (gl_RemainingItemCount (gnl_ListMeta l))" for a
  proof -
    have "\<exists>c. cells h a = Some c \<and> is_data c"
      by (rule ptr_data [OF assms(3) [unfolded listmeta_ok_def] that]) (rule as_data(5))
    with assms(4) show ?thesis by (cases "a = out") auto
  qed
  have lm: "listmeta_ok ?h1 (gnl_ListMeta l)" "listmeta_val ?h1 (gnl_ListMeta l) = listmeta_val h (gnl_ListMeta l)"
    using assms(3) listmeta_frame [OF fr] by simp_all
  obtain m h2 where c: "run_state (copyListMeta mc (gnl_ListMeta l)) ?h1 = (Inr m, h2)" "heap_ok h2" "extends ?h1 h2" "listmeta_ok h2 m"
    "listmeta_val h2 m = listmeta_val ?h1 (gnl_ListMeta l)" "\<forall>a\<in>set_option (gl_RemainingItemCount m). lim ?h1 \<le> a"
    using copy_listmeta [OF h1 lm(1)] by blast
  let ?h3 = "h2\<lparr>cells := (cells h2)(out \<mapsto> ListCell (l\<lparr>gnl_ListMeta := m\<rparr>))\<rparr>"
  have o2: "cells h2 out = Some (ListCell l)" using c(3) out by (simp add: extends_def)
  have ne: "a \<noteq> out" if "a \<in> set_option (gl_RemainingItemCount m)" for a using c(6) that out by auto
  have m3: "listmeta_ok ?h3 m" "listmeta_val ?h3 m = listmeta_val h2 m"
    using c(4) listmeta_frame [of m ?h3 h2] ne by simp_all
  have al: "cells ?h3 a \<noteq> None" if "a \<in> set_option (gl_RemainingItemCount m)" for a
    using m3(1) that by (auto simp: listmeta_ok_def ptr_ok_def bind_eq_Some_conv)
  have g: "run_state (get_cell as_list src) h = (Inr l, h)" using assms(2) by (simp add: get_cell_def)
  have r1: "run_state (assign_list out (\<lambda>o'. o'\<lparr>gnl_TypeMeta := gnl_TypeMeta l\<rparr>)) ?h1 = (Inr (), ?h1)"
    by (simp add: run_assign_list)
  have r2: "run_state (assign_list out (\<lambda>o'. o'\<lparr>gnl_ListMeta := m\<rparr>)) h2 = (Inr (), ?h3)"
    by (simp add: run_assign_list [OF o2])
  have p: "run_state (put_cell out (ListCell l)) h = (Inr (), ?h1)" by (simp add: put_cell_def)
  have ok3: "heap_ok ?h3" using c(2,3) out by (auto simp: heap_ok_def extends_def)
  show ?thesis
    by (rule exI [of _ m], rule exI [of _ ?h3])
      (use ok3 c(3,5,6) m3 lm(2) al in \<open>auto simp: extends_def NumaNetworkList_DeepCopyInto_def g p r1 c(1) r2\<close>)
qed

text \<open>The copy of the items: an array of its own, whose elements are copies.\<close>

lemma list_items_effect:
  assumes "heap_ok h" "cells h items = Some (NetworksCell ns)" "\<forall>n\<in>set ns. meta_ok h (gn_ObjectMeta n)" "cells h out = Some (ListCell l)"
  shows "\<exists>arr os h'. run_state (copy_list_items mc items out) h = (Inr (), h') \<and> heap_ok h' \<and> lim h \<le> lim h' \<and>
    (\<forall>a<lim h. a \<noteq> out \<longrightarrow> cells h' a = cells h a) \<and> cells h' out = Some (ListCell (l\<lparr>gnl_Items := Some arr\<rparr>)) \<and> lim h \<le> arr \<and>
    cells h' arr = Some (NetworksCell os) \<and> length os = length ns \<and> (\<forall>i<length ns. copied h h' (ns ! i) (os ! i))"
proof -
  let ?arr = "lim h" and ?z = "replicate (length ns) zero_network"
  let ?h1 = "h\<lparr>cells := (cells h)(?arr \<mapsto> NetworksCell ?z), lim := Suc ?arr\<rparr>"
  let ?h2 = "?h1\<lparr>cells := (cells ?h1)(out \<mapsto> ListCell (l\<lparr>gnl_Items := Some ?arr\<rparr>))\<rparr>"
  have lt: "items < lim h" "out < lim h" using assms(1,2,4) by (auto simp: heap_ok_def)
  have ne: "items \<noteq> out" using assms(2,4) by auto
  have fr: "meta_ok ?h2 m" "meta_val ?h2 m = meta_val h m" if "meta_ok h m" for m
  proof -
    have "cells ?h2 a = cells h a" if "a \<in> meta_addrs m" for a
      using meta_data [OF \<open>meta_ok h m\<close> that] assms(1,4) by (cases "a = out") (auto simp: heap_ok_def)
    from meta_frame [OF this] that show "meta_ok ?h2 m" "meta_val ?h2 m = meta_val h m" by simp_all
  qed
  have "heap_ok ?h2" using assms(1) lt by (auto simp: heap_ok_def less_SucI)
  moreover have "\<forall>n\<in>set ns. meta_ok ?h2 (gn_ObjectMeta n)" using assms(3) fr(1) by blast
  ultimately obtain os h' where c: "run_state (copy_items mc items ?arr [0..<length ns]) ?h2 = (Inr (), h')" "heap_ok h'" "lim ?h2 \<le> lim h'"
    "\<forall>a<lim ?h2. a \<noteq> ?arr \<longrightarrow> cells h' a = cells ?h2 a" "cells h' ?arr = Some (NetworksCell os)" "length os = length ns"
    "\<forall>i\<in>set [0..<length ns]. copied ?h2 h' (ns ! i) (os ! i)"
    using copy_items_effect [of ?h2 items ns ?arr ?z "[0..<length ns]"] assms(2) lt ne by (simp add: lessThan_atLeast0) blast
  have run: "run_state (copy_list_items mc items out) h = (Inr (), h')"
    using assms(2,4) lt c(1) by (simp add: copy_list_items_def get_cell_def alloc_def run_call run_assign_list [where l = l])
  have "copied h h' (ns ! i) (os ! i)" if "i < length ns" for i
    using c(7) that assms(3) fr(2) by (fastforce simp: copied_def net_val_def)
  with run c(2-6) lt show ?thesis
    by (intro exI [of _ ?arr] exI [of _ os] exI [of _ h']) auto
qed

text \<open>The two copies as a whole: fresh memory, the same value, and nothing that was there touched.\<close>

lemma network_DeepCopy:
  assumes "heap_ok h" "network_wf h p"
  shows "\<exists>q h'. run_state (NumaNetwork_DeepCopy mc (Some p)) h = (Inr (Some q), h') \<and> extends h h' \<and>
    network_value h' q = network_value h p \<and> (\<forall>a\<in>network_addrs h' q. lim h \<le> a)"
proof -
  let ?q = "lim h" and ?h0 = "h\<lparr>cells := (cells h)(lim h \<mapsto> NetworkCell zero_network), lim := Suc (lim h)\<rparr>"
  obtain n where n: "cells h p = Some (NetworkCell n)" "meta_ok h (gn_ObjectMeta n)"
    using assms(2) by (auto simp: network_wf_def as_cell bind_eq_Some_conv split: option.splits)
  have "p < lim h" using assms(1) n(1) by (auto simp: heap_ok_def)
  have fr: "meta_ok ?h0 (gn_ObjectMeta n)" "meta_val ?h0 (gn_ObjectMeta n) = meta_val h (gn_ObjectMeta n)"
    using meta_frame [of "gn_ObjectMeta n" ?h0 h] meta_data [OF n(2)] assms(1) n(2) by (fastforce simp: heap_ok_def)+
  have "heap_ok ?h0" using assms(1) by (auto simp: heap_ok_def less_SucI)
  moreover have "network_at ?h0 (Whole p) = Some n" "network_at ?h0 (Whole ?q) = Some zero_network" using n(1) \<open>p < lim h\<close> by simp_all
  ultimately obtain n' h' where c: "run_state (NumaNetwork_DeepCopyInto mc (Whole p) (Whole ?q)) ?h0 = (Inr (), h')" "lim ?h0 \<le> lim h'"
    "\<forall>a<lim ?h0. a \<noteq> ?q \<longrightarrow> cells h' a = cells ?h0 a" "cells h' ?q = Some (NetworkCell n')" "copied ?h0 h' n n'"
    using DeepCopyInto_effect [of ?h0 "Whole p" n "Whole ?q" zero_network] fr(1) by auto
  have "run_state (NumaNetwork_DeepCopy mc (Some p)) h = (Inr (Some ?q), h')"
    using c(1) by (simp add: NumaNetwork_DeepCopy_def alloc_def run_call)
  moreover have "network_value h' ?q = network_value h p"
    using c(4,5) n(1) fr(2) by (simp add: network_value_def copied_def net_val_def)
  moreover have "\<forall>a\<in>network_addrs h' ?q. lim h \<le> a"
    using c(4,5) by (auto simp: network_addrs_def copied_def)
  ultimately show ?thesis using c(2,3) by (intro exI [of _ ?q] exI [of _ h']) (auto simp: extends_def)
qed

text \<open>A list cell whose metadata and items are copies, in memory beyond \<open>b\<close>, has the value of the list it was copied from.\<close>

lemma copied_list_value:
  assumes "cells h p = Some (ListCell l)" "gnl_Items l = Some items" "cells h items = Some (NetworksCell ns)"
    and "cells h' q = Some (ListCell (l\<lparr>gnl_ListMeta := m, gnl_Items := Some arr\<rparr>))" "cells h' arr = Some (NetworksCell os)"
    and "listmeta_val h' m = listmeta_val h (gnl_ListMeta l)"
    and "length os = length ns" "\<forall>i<length ns. copied h1 h' (ns ! i) (os ! i)" "\<forall>n\<in>set ns. net_val h1 n = net_val h n"
  shows "list_value h' q = list_value h p"
proof -
  have "map (net_val h') os = map (net_val h) ns"
    using assms(7-9) by (auto intro!: nth_equalityI simp: copied_def)
  then show ?thesis using assms(1-6) by (simp add: list_value_def items_of_def ptr_val_def)
qed

lemma copied_list_fresh:
  assumes "cells h' q = Some (ListCell (l\<lparr>gnl_ListMeta := m, gnl_Items := Some arr\<rparr>))" "cells h' arr = Some (NetworksCell os)"
    and "length os = length ns" "\<forall>i<length ns. copied h1 h' (ns ! i) (os ! i)"
    and "b \<le> q" "b \<le> arr" "b \<le> lim h1" "\<forall>a\<in>set_option (gl_RemainingItemCount m). b \<le> a"
  shows "\<forall>a\<in>list_addrs h' q. b \<le> a"
proof -
  have "b \<le> a" if "n \<in> set os" "a \<in> meta_addrs (gn_ObjectMeta n)" for n a
    using that assms(3,4,7) by (fastforce simp: copied_def in_set_conv_nth)
  then show ?thesis using assms(1,2,5,6,8) by (auto simp: list_addrs_def items_of_def ptr_val_def)
qed

text \<open>The items of a list are read the same from a heap that agrees below \<open>lim h\<close>.\<close>

lemma items_below:
  assumes "heap_ok h" "list_wf h p" "cells h p = Some (ListCell l)" "n \<in> set (items_of h l)" "\<forall>a<lim h. cells h1 a = cells h a"
  shows "meta_ok h1 (gn_ObjectMeta n)" "net_val h1 n = net_val h n"
proof -
  have "cells h1 a = cells h a" if "a \<in> meta_addrs (gn_ObjectMeta n)" for a
    using list_wf_below [OF assms(1,2), of a] assms(3-5) that by (fastforce simp: list_addrs_def)
  from meta_frame [OF this] assms(2-4) show "meta_ok h1 (gn_ObjectMeta n)" "net_val h1 n = net_val h n"
    by (auto simp: net_val_def list_wf_def as_cell bind_eq_Some_conv split: option.splits)
qed

lemma list_DeepCopy:
  assumes "heap_ok h" "list_wf h p"
  shows "\<exists>q h'. run_state (NumaNetworkList_DeepCopy mc (Some p)) h = (Inr (Some q), h') \<and> extends h h' \<and>
    list_value h' q = list_value h p \<and> (\<forall>a\<in>list_addrs h' q. lim h \<le> a)"
proof -
  let ?q = "lim h" and ?h0 = "h\<lparr>cells := (cells h)(lim h \<mapsto> ListCell zero_list), lim := Suc (lim h)\<rparr>"
  obtain l where l: "cells h p = Some (ListCell l)" "listmeta_ok h (gnl_ListMeta l)" "ptr_ok as_networks h (gnl_Items l)"
    using assms(2) by (auto simp: list_wf_def as_cell bind_eq_Some_conv split: option.splits)
  have below: "a < lim h" if "a \<in> list_addrs h p" for a using list_wf_below [OF assms that] .
  have lm0: "listmeta_ok ?h0 (gnl_ListMeta l)" "listmeta_val ?h0 (gnl_ListMeta l) = listmeta_val h (gnl_ListMeta l)"
    using listmeta_frame [of "gnl_ListMeta l" ?h0 h] below l(1,2) by (fastforce simp: list_addrs_def)+
  have h0: "heap_ok ?h0" using assms(1) by (auto simp: heap_ok_def less_SucI)
  have cp: "cells ?h0 p = Some (ListCell l)" "cells ?h0 ?q = Some (ListCell zero_list)" using l(1) below by (auto simp: list_addrs_def)
  obtain m h1 where hd: "heap_ok h1" "lim ?h0 \<le> lim h1" "\<forall>a<lim ?h0. a \<noteq> ?q \<longrightarrow> cells h1 a = cells ?h0 a"
    "cells h1 ?q = Some (ListCell (l\<lparr>gnl_ListMeta := m\<rparr>))" "listmeta_ok h1 m" "listmeta_val h1 m = listmeta_val ?h0 (gnl_ListMeta l)"
    "\<forall>a\<in>set_option (gl_RemainingItemCount m). lim ?h0 \<le> a \<and> cells h1 a \<noteq> None"
    and run: "run_state (NumaNetworkList_DeepCopyInto mc p ?q) ?h0 = run_state (case gnl_Items l of None \<Rightarrow> ok () | Some items \<Rightarrow>
         copy_list_items mc items ?q) h1"
    using list_header_effect [OF h0 cp(1) lm0(1) cp(2)] by blast
  have old: "\<forall>a<lim h. cells h1 a = cells h a" using hd(3) by simp
  have copy: "run_state (NumaNetworkList_DeepCopy mc (Some p)) h = (Inr (Some ?q), h')"
    if "run_state (NumaNetworkList_DeepCopyInto mc p ?q) ?h0 = (Inr (), h')" for h'
    using that by (simp add: NumaNetworkList_DeepCopy_def alloc_def run_call)
  show ?thesis
  proof (cases "gnl_Items l")
    case None
    have "list_value h1 ?q = list_value h p" using hd(4,6) lm0(2) l(1) None by (simp add: list_value_def)
    moreover have "\<forall>a\<in>list_addrs h1 ?q. lim h \<le> a"
      using hd(4,7) None by (auto simp: list_addrs_def items_of_def ptr_val_def)
    ultimately show ?thesis using copy [of h1] run None hd(2) old by (intro exI [of _ ?q] exI [of _ h1]) (auto simp: extends_def)
  next
    case (Some items)
    obtain ns where ns: "cells h items = Some (NetworksCell ns)" using l(3) Some by (auto simp: ptr_ok_def as_cell bind_eq_Some_conv)
    have mt: "meta_ok h1 (gn_ObjectMeta n)" "net_val h1 n = net_val h n" if "n \<in> set ns" for n
      using items_below [OF assms l(1) _ old, of n] ns Some that by (simp_all add: items_of_def ptr_val_def)
    have "items < lim h" using below l(1) Some by (simp add: list_addrs_def)
    then obtain arr os h' where c: "run_state (copy_list_items mc items ?q) h1 = (Inr (), h')" "lim h1 \<le> lim h'"
      "\<forall>a<lim h1. a \<noteq> ?q \<longrightarrow> cells h' a = cells h1 a" "cells h' ?q = Some (ListCell (l\<lparr>gnl_ListMeta := m, gnl_Items := Some arr\<rparr>))"
      "lim h1 \<le> arr" "cells h' arr = Some (NetworksCell os)" "length os = length ns" "\<forall>i<length ns. copied h1 h' (ns ! i) (os ! i)"
      using list_items_effect [OF hd(1) _ _ hd(4), of items ns] old ns mt(1) by auto
    have "listmeta_val h' m = listmeta_val h1 m"
      by (rule listmeta_frame(2)) (use hd(1,7) c(3) in \<open>auto simp: heap_ok_def\<close>)
    then have "list_value h' ?q = list_value h p"
      using copied_list_value [OF l(1) Some ns c(4,6) _ c(7,8)] hd(6) lm0(2) mt(2) by simp
    moreover have "\<forall>a\<in>list_addrs h' ?q. lim h \<le> a"
      by (rule copied_list_fresh [OF c(4,6,7,8)]) (use hd(2,7) c(5) in auto)
    ultimately show ?thesis
      using copy [of h'] run Some hd(2) old c(1-3) by (intro exI [of _ ?q] exI [of _ h']) (auto simp: extends_def)
  qed
qed

end

section \<open>A reference instance\<close>

text \<open>Each pointer gets a cell of its own with the same contents.\<close>

definition copy_ptr :: "addr option \<Rightarrow> addr option mem" where
  "copy_ptr p = (case p of None \<Rightarrow> ok None | Some a \<Rightarrow> call (get_cell Some a) fail (\<lambda>c. call (alloc c) fail (\<lambda>b. ok (Some b))))"

definition ref_copiers :: copiers where
  "ref_copiers =
     \<lparr>copyObjectMeta = (\<lambda>m.
        call (copy_ptr (gm_Labels m)) fail (\<lambda>l.
        call (copy_ptr (gm_Annotations m)) fail (\<lambda>an.
        call (copy_ptr (gm_Finalizers m)) fail (\<lambda>fs.
        call (copy_ptr (gm_OwnerReferences m)) fail (\<lambda>os.
        call (copy_ptr (gm_DeletionTimestamp m)) fail (\<lambda>t.
        ok (m\<lparr>gm_Labels := l, gm_Annotations := an, gm_Finalizers := fs, gm_OwnerReferences := os, gm_DeletionTimestamp := t\<rparr>))))))),
      copyListMeta = (\<lambda>m. call (copy_ptr (gl_RemainingItemCount m)) fail (\<lambda>i. ok (m\<lparr>gl_RemainingItemCount := i\<rparr>)))\<rparr>"

lemma extends_trans: "extends h h1 \<Longrightarrow> extends h1 h2 \<Longrightarrow> extends h h2"
  by (auto simp: extends_def)

lemma ptr_extends:
  assumes "heap_ok h" "extends h h'" "ptr_ok sel h p"
  shows "ptr_ok sel h' p" "ptr_val sel d h' p = ptr_val sel d h p"
proof -
  have "cells h' a = cells h a" if "a \<in> set_option p" for a
    using assms that by (auto simp: ptr_ok_def heap_ok_def extends_def bind_eq_Some_conv)
  note f = ptr_frame [of p h' h, OF this]
  show "ptr_ok sel h' p" using f(1) [of sel] assms(3) by simp
  show "ptr_val sel d h' p = ptr_val sel d h p" by (rule f(2))
qed

lemma copy_ptr_effect:
  assumes "heap_ok h" "ptr_ok sel h p"
  obtains p' h' where "run_state (copy_ptr p) h = (Inr p', h')" "heap_ok h'" "extends h h'" "ptr_ok sel h' p'"
    "ptr_val sel d h' p' = ptr_val sel d h p" "\<forall>a\<in>set_option p'. lim h \<le> a"
proof (cases p)
  case None
  with assms that [of None h] show ?thesis by (simp add: copy_ptr_def ptr_ok_def extends_def)
next
  case (Some a)
  then obtain c where c: "cells h a = Some c" "sel c \<noteq> None" using assms(2) by (auto simp: ptr_ok_def bind_eq_Some_conv)
  let ?h' = "h\<lparr>cells := (cells h)(lim h \<mapsto> c), lim := Suc (lim h)\<rparr>"
  have "run_state (copy_ptr p) h = (Inr (Some (lim h)), ?h')"
    using Some c by (simp add: copy_ptr_def get_cell_def alloc_def run_call)
  moreover have "heap_ok ?h'" "extends h ?h'" using assms(1) by (auto simp: heap_ok_def extends_def less_SucI)
  ultimately show ?thesis using that [of "Some (lim h)" ?h'] Some c by (auto simp: ptr_ok_def ptr_val_def)
qed

lemma ref_copyObjectMeta:
  assumes "heap_ok h" "meta_ok h m"
  shows "\<exists>m' h'. run_state (copyObjectMeta ref_copiers m) h = (Inr m', h') \<and> heap_ok h' \<and> extends h h' \<and> meta_ok h' m' \<and>
    meta_val h' m' = meta_val h m \<and> (\<forall>a\<in>meta_addrs m'. lim h \<le> a)"
proof -
  note ok = assms(2) [unfolded meta_ok_def]
  obtain l h1 where 1: "run_state (copy_ptr (gm_Labels m)) h = (Inr l, h1)" "heap_ok h1" "extends h h1" "ptr_ok as_strmap h1 l"
    "ptr_val as_strmap Map.empty h1 l = ptr_val as_strmap Map.empty h (gm_Labels m)" "\<forall>a\<in>set_option l. lim h \<le> a"
    using copy_ptr_effect [OF assms(1)] ok by metis
  obtain an h2 where 2: "run_state (copy_ptr (gm_Annotations m)) h1 = (Inr an, h2)" "heap_ok h2" "extends h1 h2" "ptr_ok as_strmap h2 an"
    "ptr_val as_strmap Map.empty h2 an = ptr_val as_strmap Map.empty h1 (gm_Annotations m)" "\<forall>a\<in>set_option an. lim h1 \<le> a"
    using copy_ptr_effect [OF 1(2)] ptr_extends(1) [OF assms(1) 1(3)] ok by metis
  have e2: "extends h h2" using 1(3) 2(3) by (rule extends_trans)
  obtain fs h3 where 3: "run_state (copy_ptr (gm_Finalizers m)) h2 = (Inr fs, h3)" "heap_ok h3" "extends h2 h3" "ptr_ok as_strings h3 fs"
    "ptr_val as_strings [] h3 fs = ptr_val as_strings [] h2 (gm_Finalizers m)" "\<forall>a\<in>set_option fs. lim h2 \<le> a"
    using copy_ptr_effect [OF 2(2)] ptr_extends(1) [OF assms(1) e2] ok by metis
  have e3: "extends h h3" using e2 3(3) by (rule extends_trans)
  obtain os h4 where 4: "run_state (copy_ptr (gm_OwnerReferences m)) h3 = (Inr os, h4)" "heap_ok h4" "extends h3 h4" "ptr_ok as_owners h4 os"
    "ptr_val as_owners [] h4 os = ptr_val as_owners [] h3 (gm_OwnerReferences m)" "\<forall>a\<in>set_option os. lim h3 \<le> a"
    using copy_ptr_effect [OF 3(2)] ptr_extends(1) [OF assms(1) e3] ok by metis
  have e4: "extends h h4" using e3 4(3) by (rule extends_trans)
  obtain t h5 where 5: "run_state (copy_ptr (gm_DeletionTimestamp m)) h4 = (Inr t, h5)" "heap_ok h5" "extends h4 h5" "ptr_ok as_time h5 t"
    "ptr_val as_time None h5 t = ptr_val as_time None h4 (gm_DeletionTimestamp m)" "\<forall>a\<in>set_option t. lim h4 \<le> a"
    using copy_ptr_effect [OF 4(2)] ptr_extends(1) [OF assms(1) e4] ok by metis
  have e5: "extends h h5" "extends h1 h5" "extends h2 h5" "extends h3 h5"
    using 2(3) 3(3) 4(3) 5(3) e4 by (blast intro: extends_trans)+
  let ?m' = "m\<lparr>gm_Labels := l, gm_Annotations := an, gm_Finalizers := fs, gm_OwnerReferences := os, gm_DeletionTimestamp := t\<rparr>"
  have "run_state (copyObjectMeta ref_copiers m) h = (Inr ?m', h5)"
    by (simp add: ref_copiers_def 1 2 3 4 5)
  moreover have "meta_ok h5 ?m'"
    using ptr_extends(1) [OF 1(2) e5(2) 1(4)] ptr_extends(1) [OF 2(2) e5(3) 2(4)] ptr_extends(1) [OF 3(2) e5(4) 3(4)]
      ptr_extends(1) [OF 4(2) 5(3) 4(4)] 5(4) by (simp add: meta_ok_def)
  moreover have "meta_val h5 ?m' = meta_val h m"
    using ptr_extends(2) [OF 1(2) e5(2) 1(4)] ptr_extends(2) [OF 2(2) e5(3) 2(4)] ptr_extends(2) [OF 3(2) e5(4) 3(4)]
      ptr_extends(2) [OF 4(2) 5(3) 4(4)] 1(5) 2(5) 3(5) 4(5) 5(5)
    by (simp add: meta_val_def ok ptr_extends(2) [OF assms(1) 1(3)] ptr_extends(2) [OF assms(1) e2]
        ptr_extends(2) [OF assms(1) e3] ptr_extends(2) [OF assms(1) e4])
  moreover have "\<forall>a\<in>meta_addrs ?m'. lim h \<le> a"
    using 1(6) 2(6) 3(6) 4(6) 5(6) 1(3) e2 e3 e4 by (fastforce simp: meta_addrs_def extends_def)
  ultimately show ?thesis using 5(2) e5(1) by blast
qed

lemma ref_copyListMeta:
  assumes "heap_ok h" "listmeta_ok h m"
  shows "\<exists>m' h'. run_state (copyListMeta ref_copiers m) h = (Inr m', h') \<and> heap_ok h' \<and> extends h h' \<and> listmeta_ok h' m' \<and>
    listmeta_val h' m' = listmeta_val h m \<and> (\<forall>a\<in>set_option (gl_RemainingItemCount m'). lim h \<le> a)"
proof -
  obtain p h' where c: "run_state (copy_ptr (gl_RemainingItemCount m)) h = (Inr p, h')" "heap_ok h'" "extends h h'" "ptr_ok as_int64 h' p"
    "ptr_val as_int64 None h' p = ptr_val as_int64 None h (gl_RemainingItemCount m)" "\<forall>a\<in>set_option p. lim h \<le> a"
    using copy_ptr_effect [OF assms(1)] assms(2) [unfolded listmeta_ok_def] by metis
  then show ?thesis
    by (intro exI [of _ "m\<lparr>gl_RemainingItemCount := p\<rparr>"] exI [of _ h']) (simp add: ref_copiers_def listmeta_ok_def listmeta_val_def)
qed

interpretation ref: meta_copier ref_copiers
  by unfold_locales (rule ref_copyObjectMeta ref_copyListMeta; assumption)+

section \<open>Properties\<close>

definition overwrite :: "heap \<Rightarrow> addr \<Rightarrow> cell option \<Rightarrow> heap" where
  "overwrite h a c = h\<lparr>cells := (cells h)(a := c)\<rparr>"

text \<open>C27: a deep copy of a NumaNetwork is a NumaNetwork of the same value, and the two are independent: whatever is
  later written to a cell of the copy, its metadata maps and slices included, the original still has its value.  A copy
  of nil is nil.\<close>

theorem NumaNetwork_DeepCopy_independent:
  assumes "meta_copier mc" "heap_ok h" "network_wf h p" "run_state (NumaNetwork_DeepCopy mc (Some p)) h = (r, h')"
  shows "\<exists>q. r = Inr (Some q) \<and> network_value h' q = network_value h p \<and>
    (\<forall>a\<in>network_addrs h' q. \<forall>c. network_value (overwrite h' a c) p = network_value h p) \<and>
    run_state (NumaNetwork_DeepCopyObject mc None) h = (Inr None, h)"
proof -
  obtain q where q: "r = Inr (Some q)" "extends h h'" "network_value h' q = network_value h p" "\<forall>a\<in>network_addrs h' q. lim h \<le> a"
    using meta_copier.network_DeepCopy [OF assms(1-3)] assms(4) by auto
  have "network_value (overwrite h' a c) p = network_value h p" if "a \<in> network_addrs h' q" for a c
    using q(2,4) that network_wf_below [OF assms(2,3)]
    by (intro network_frame) (fastforce simp: overwrite_def extends_def)
  with q(1,3) show ?thesis by (simp add: NumaNetwork_DeepCopyObject_def NumaNetwork_DeepCopy_def)
qed

text \<open>C28: the same for lists: the copy has the same list metadata and the same items in the same order, nil items stay nil,
  and nothing written to the copy, to its array of items or to the metadata of an item reaches the original.\<close>

theorem NumaNetworkList_DeepCopy_independent:
  assumes "meta_copier mc" "heap_ok h" "list_wf h p" "run_state (NumaNetworkList_DeepCopy mc (Some p)) h = (r, h')"
  shows "\<exists>q. r = Inr (Some q) \<and> list_value h' q = list_value h p \<and>
    (\<forall>a\<in>list_addrs h' q. \<forall>c. list_value (overwrite h' a c) p = list_value h p)"
proof -
  obtain q where q: "r = Inr (Some q)" "extends h h'" "list_value h' q = list_value h p" "\<forall>a\<in>list_addrs h' q. lim h \<le> a"
    using meta_copier.list_DeepCopy [OF assms(1-3)] assms(4) by auto
  have "list_value (overwrite h' a c) p = list_value h p" if "a \<in> list_addrs h' q" for a c
    using q(2,4) that list_wf_below [OF assms(2,3)]
    by (intro list_frame) (fastforce simp: overwrite_def extends_def)
  with q(1,3) show ?thesis by blast
qed

text \<open>The types without pointers: the copy is a cell of its own with the same contents.\<close>

lemma plain_DeepCopy:
  "cells h a = Some (SpecCell s) \<Longrightarrow> a < lim h \<Longrightarrow> run_state (NumaNetworkSpec_DeepCopy (Some a)) h =
     (Inr (Some (lim h)), h\<lparr>cells := (cells h)(lim h \<mapsto> SpecCell s), lim := Suc (lim h)\<rparr>)"
  "cells h a = Some (StatusCell st) \<Longrightarrow> a < lim h \<Longrightarrow> run_state (NumaNetworkStatus_DeepCopy (Some a)) h =
     (Inr (Some (lim h)), h\<lparr>cells := (cells h)(lim h \<mapsto> StatusCell st), lim := Suc (lim h)\<rparr>)"
  "cells h a = Some (DeviceClassCell d) \<Longrightarrow> a < lim h \<Longrightarrow> run_state (RefDeviceClass_DeepCopy (Some a)) h =
     (Inr (Some (lim h)), h\<lparr>cells := (cells h)(lim h \<mapsto> DeviceClassCell d), lim := Suc (lim h)\<rparr>)"
  "cells h a = Some (DranetCell r) \<Longrightarrow> a < lim h \<Longrightarrow> run_state (RefResourceClaimDranet_DeepCopy (Some a)) h =
     (Inr (Some (lim h)), h\<lparr>cells := (cells h)(lim h \<mapsto> DranetCell r), lim := Suc (lim h)\<rparr>)"
  by (auto simp: NumaNetworkSpec_DeepCopy_def NumaNetworkSpec_DeepCopyInto_def NumaNetworkStatus_DeepCopy_def
      NumaNetworkStatus_DeepCopyInto_def RefDeviceClass_DeepCopy_def RefDeviceClass_DeepCopyInto_def
      RefResourceClaimDranet_DeepCopy_def RefResourceClaimDranet_DeepCopyInto_def alloc_def get_cell_def put_cell_def run_call)

section \<open>An example\<close>

text \<open>A NumaNetwork with a finalizer at address 1, and a list of it at address 3.\<close>

definition example_network :: go_network where
  "example_network = zero_network\<lparr>gn_ObjectMeta := (gn_ObjectMeta zero_network)\<lparr>gm_Name := ''a'', gm_Finalizers := Some 0\<rparr>\<rparr>"

definition example_heap :: heap where
  "example_heap = \<lparr>cells = [0 \<mapsto> StringsCell [''f''], 1 \<mapsto> NetworkCell example_network, 2 \<mapsto> NetworksCell [example_network],
     3 \<mapsto> ListCell (zero_list\<lparr>gnl_Items := Some 2\<rparr>)], lim = 4\<rparr>"

lemma example_heap_ok: "heap_ok example_heap"
  by (auto simp: heap_ok_def example_heap_def split: if_splits)

lemma example_wf: "network_wf example_heap 1" "list_wf example_heap 3"
  by (simp_all add: network_wf_def list_wf_def example_heap_def meta_ok_def listmeta_ok_def ptr_ok_def items_of_def ptr_val_def
      zero_list_def example_network_def zero_network_def)

theorem NumaNetwork_DeepCopy_independent_witness:
  "\<exists>q h'. run_state (NumaNetwork_DeepCopy ref_copiers (Some 1)) example_heap = (Inr (Some q), h') \<and>
    network_value h' q = network_value example_heap 1"
proof -
  obtain r h' where r: "run_state (NumaNetwork_DeepCopy ref_copiers (Some 1)) example_heap = (r, h')" by fastforce
  from NumaNetwork_DeepCopy_independent [OF ref.meta_copier_axioms example_heap_ok example_wf(1) r] r show ?thesis by blast
qed

theorem NumaNetworkList_DeepCopy_independent_witness:
  "\<exists>q h'. run_state (NumaNetworkList_DeepCopy ref_copiers (Some 3)) example_heap = (Inr (Some q), h') \<and>
    list_value h' q = list_value example_heap 3"
proof -
  obtain r h' where r: "run_state (NumaNetworkList_DeepCopy ref_copiers (Some 3)) example_heap = (r, h')" by fastforce
  from NumaNetworkList_DeepCopy_independent [OF ref.meta_copier_axioms example_heap_ok example_wf(2) r] r show ?thesis by blast
qed

end
