(* ===== verification/Scheme.thy ===== *)
theory Scheme
  imports Prelude
begin

text \<open>
  api/v1alpha1/groupversion_info.go and the \<open>init\<close> functions of the two binaries: which Go types the scheme
  knows when \<open>main\<close> starts.  A client can only read and write objects whose types its scheme knows.

  The scheme of apimachinery, its builder and the registrations of other packages are parameters; the locale
  \<open>scheme_machinery\<close> states what their documentation promises, over the table \<open>known\<close> of registered kinds.
\<close>

section \<open>Group, version and kinds\<close>

record GroupVersion =
  Group :: string
  Version :: string

record GoType =
  PkgPath :: string
  TypeName :: string

definition SchemeGroupVersion :: GroupVersion where
  "SchemeGroupVersion = \<lparr>Group = ''numaflow.numaproj.io'', Version = ''v1alpha1''\<rparr>"

definition api_type :: "string \<Rightarrow> GoType" where
  "api_type n = \<lparr>PkgPath = ''github.com/numaproj-contrib/gpu-direct-comm/api/v1alpha1'', TypeName = n\<rparr>"

text \<open>A registration returns an error or panics.\<close>

datatype SchemeFailure = Returned string | Panicked string

type_synonym 'w registration = "('w, SchemeFailure, unit) io"

record ('w, 'b) Machinery =
  AddKnownTypes :: "GroupVersion \<Rightarrow> GoType list \<Rightarrow> 'w registration"
  AddToGroupVersion :: "GroupVersion \<Rightarrow> 'w registration"
  NewSchemeBuilder :: "'w registration list \<Rightarrow> 'b"
  Builder_AddToScheme :: "'b \<Rightarrow> 'w registration"
  clientgo_AddToScheme :: "'w registration"
  resource_AddToScheme :: "'w registration"

section \<open>Registration\<close>

definition addKnownTypes :: "('w, 'b) Machinery \<Rightarrow> 'w registration" where
  "addKnownTypes m =
     call (AddKnownTypes m SchemeGroupVersion [api_type ''NumaNetwork'', api_type ''NumaNetworkList'']) fail
       (\<lambda>_. call (AddToGroupVersion m SchemeGroupVersion) fail
         (\<lambda>_. ok ()))"

definition SchemeBuilder :: "('w, 'b) Machinery \<Rightarrow> 'b" where
  "SchemeBuilder m = NewSchemeBuilder m [addKnownTypes m]"

definition AddToScheme :: "('w, 'b) Machinery \<Rightarrow> 'w registration" where
  "AddToScheme m = Builder_AddToScheme m (SchemeBuilder m)"

text \<open>\<open>utilruntime.Must\<close>: an error becomes a panic.\<close>

fun panicking :: "SchemeFailure \<Rightarrow> SchemeFailure" where
  "panicking (Returned e) = Panicked e"
| "panicking (Panicked e) = Panicked e"

definition Must :: "'w registration \<Rightarrow> 'w registration" where
  "Must r = call r (\<lambda>err. fail (panicking err)) ok"

definition manager_init :: "('w, 'b) Machinery \<Rightarrow> 'w registration" where
  "manager_init m =
     call (Must (clientgo_AddToScheme m)) fail
       (\<lambda>_. call (Must (AddToScheme m)) fail
         (\<lambda>_. Must (resource_AddToScheme m)))"

definition ipam_init :: "('w, 'b) Machinery \<Rightarrow> 'w registration" where
  "ipam_init m =
     call (Must (clientgo_AddToScheme m)) fail
       (\<lambda>_. Must (AddToScheme m))"

section \<open>The machinery's contract\<close>

type_synonym kinds = "GroupVersion \<times> string \<rightharpoonup> GoType"

text \<open>A builder runs its functions in order and stops at the first failure.\<close>

primrec run_all :: "'w registration list \<Rightarrow> 'w registration" where
  "run_all [] = ok ()"
| "run_all (r # rs) = call r fail (\<lambda>_. run_all rs)"

abbreviation core_v1 :: GroupVersion where
  "core_v1 \<equiv> \<lparr>Group = [], Version = ''v1''\<rparr>"

abbreviation resource_v1 :: GroupVersion where
  "resource_v1 \<equiv> \<lparr>Group = ''resource.k8s.io'', Version = ''v1''\<rparr>"

text \<open>What a registration leaves of the table, and what it adds when it succeeds.\<close>

definition registers :: "('w \<Rightarrow> kinds) \<Rightarrow> (kinds \<Rightarrow> bool) \<Rightarrow> 'w registration \<Rightarrow> bool" where
  "registers known added r \<longleftrightarrow> (\<forall>w. known w \<subseteq>\<^sub>m known (snd (run_state r w)) \<and>
     (fst (run_state r w) = Inr () \<longrightarrow> added (known (snd (run_state r w)))))"

locale scheme_machinery =
  fixes m :: "('w, 'b) Machinery"
    and known :: "'w \<Rightarrow> kinds"
  assumes known_types: "registers known (\<lambda>k. \<forall>t\<in>set ts. k (gv, TypeName t) = Some t) (AddKnownTypes m gv ts)"
    and group_version: "registers known (\<lambda>_. True) (AddToGroupVersion m gv)"
    and builder: "Builder_AddToScheme m (NewSchemeBuilder m rs) = run_all rs"
    and clientgo: "registers known (\<lambda>k. (core_v1, ''Pod'') \<in> dom k) (clientgo_AddToScheme m)"
    and resource: "registers known (\<lambda>k. {(resource_v1, ''ResourceClaim''), (resource_v1, ''ResourceClaimTemplate'')} \<subseteq> dom k)
      (resource_AddToScheme m)"

text \<open>What the first registration adds stays while the second runs.\<close>

lemma registers_seq:
  assumes "registers known p r" "registers known q s" and mono: "\<And>k k'. p k \<Longrightarrow> k \<subseteq>\<^sub>m k' \<Longrightarrow> p k'"
  shows "registers known (\<lambda>k. p k \<and> q k) (call r fail (\<lambda>_. s))"
  unfolding registers_def
proof
  fix w
  let ?m = "call r fail (\<lambda>_. s)"
  obtain y w1 where y: "run_state r w = (y, w1)" by (meson surj_pair)
  with assms(1) have r1: "known w \<subseteq>\<^sub>m known w1" "y = Inr () \<Longrightarrow> p (known w1)" unfolding registers_def by (metis fst_conv snd_conv)+
  have s1: "known w1 \<subseteq>\<^sub>m known (snd (run_state s w1))" "fst (run_state s w1) = Inr () \<Longrightarrow> q (known (snd (run_state s w1)))"
    using assms(2) unfolding registers_def by blast+
  show "known w \<subseteq>\<^sub>m known (snd (run_state ?m w)) \<and>
      (fst (run_state ?m w) = Inr () \<longrightarrow> p (known (snd (run_state ?m w))) \<and> q (known (snd (run_state ?m w))))"
  proof (cases y)
    case (Inl e)
    with y r1 show ?thesis by simp
  next
    case (Inr u)
    then have run: "run_state ?m w = run_state s w1" using y by simp
    show ?thesis unfolding run using r1 s1 mono Inr map_le_trans by (metis (full_types) unit.exhaust)
  qed
qed

lemma registers_Must: "registers known added r \<Longrightarrow> registers known added (Must r)"
  unfolding registers_def Must_def run_call by (auto split: prod.split sum.split) (metis fst_conv snd_conv)+

lemma panicking_not_returned: "panicking x \<noteq> Returned e"
  by (cases x) simp_all

lemma Must_panics: "run_state (Must r) w = (x, w') \<Longrightarrow> x \<noteq> Inl (Returned e)"
  by (auto simp: Must_def run_call panicking_not_returned split: prod.splits sum.splits)

lemma Must_seq_panics:
  "(\<And>w x w'. run_state s w = (x, w') \<Longrightarrow> x \<noteq> Inl (Returned e)) \<Longrightarrow>
   run_state (call (Must r) fail (\<lambda>_. s)) w = (x, w') \<Longrightarrow> x \<noteq> Inl (Returned e)"
  using Must_panics [of r] by (auto simp: run_call split: prod.splits sum.splits)

lemma init_panics:
  assumes "init \<in> {manager_init m, ipam_init m}" "run_state init w = (x, w')"
  shows "x \<noteq> Inl (Returned e)"
proof -
  have "y \<noteq> Inl (Returned e)" if "run_state (manager_init m) v = (y, v')" for v y v'
    using that unfolding manager_init_def by (elim Must_seq_panics [rotated] Must_panics)
  moreover have "y \<noteq> Inl (Returned e)" if "run_state (ipam_init m) v = (y, v')" for v y v'
    using that unfolding ipam_init_def by (elim Must_seq_panics [rotated] Must_panics)
  ultimately show ?thesis using assms by (metis insertE singletonD)
qed

lemma registers_nothing: "registers known (\<lambda>_. True) (ok ())"
  by (simp add: registers_def)

text \<open>The kinds that the reconcilers, the webhooks and the IPAM handler hand to their client.\<close>

definition api_kinds :: "kinds \<Rightarrow> bool" where
  "api_kinds k \<longleftrightarrow> k (\<lparr>Group = ''numaflow.numaproj.io'', Version = ''v1alpha1''\<rparr>, ''NumaNetwork'') = Some (api_type ''NumaNetwork'') \<and>
     k (\<lparr>Group = ''numaflow.numaproj.io'', Version = ''v1alpha1''\<rparr>, ''NumaNetworkList'') = Some (api_type ''NumaNetworkList'')"

lemma api_kinds_mono: "api_kinds k \<Longrightarrow> k \<subseteq>\<^sub>m k' \<Longrightarrow> api_kinds k'"
  unfolding api_kinds_def map_le_def by (metis domI)

lemma dom_mono: "x \<in> dom k \<Longrightarrow> k \<subseteq>\<^sub>m k' \<Longrightarrow> x \<in> dom k'"
  using map_le_implies_dom_le by blast

context scheme_machinery
begin

lemma addKnownTypes_registers: "registers known api_kinds (addKnownTypes m)"
proof -
  have *: "registers known (\<lambda>k. api_kinds k) (AddKnownTypes m SchemeGroupVersion [api_type ''NumaNetwork'', api_type ''NumaNetworkList''])"
    using known_types [of "[api_type ''NumaNetwork'', api_type ''NumaNetworkList'']" SchemeGroupVersion]
    by (simp add: api_kinds_def registers_def api_type_def SchemeGroupVersion_def)
  from registers_seq [OF this registers_seq [OF group_version registers_nothing]] api_kinds_mono
  show ?thesis unfolding addKnownTypes_def by simp
qed

lemma AddToScheme_registers: "registers known api_kinds (AddToScheme m)"
  using registers_seq [OF addKnownTypes_registers registers_nothing] api_kinds_mono
  by (simp add: AddToScheme_def SchemeBuilder_def builder)

lemma ipam_init_registers: "registers known (\<lambda>k. (core_v1, ''Pod'') \<in> dom k \<and> api_kinds k) (ipam_init m)"
  unfolding ipam_init_def by (intro registers_seq registers_Must clientgo AddToScheme_registers) (rule dom_mono)

lemma manager_init_registers:
  "registers known (\<lambda>k. (core_v1, ''Pod'') \<in> dom k \<and> api_kinds k \<and>
     {(resource_v1, ''ResourceClaim''), (resource_v1, ''ResourceClaimTemplate'')} \<subseteq> dom k) (manager_init m)"
  unfolding manager_init_def
  by (intro registers_seq registers_Must clientgo AddToScheme_registers resource) (fact api_kinds_mono, fact dom_mono)

end

section \<open>Reference machinery\<close>

text \<open>The table itself as the world; a second type under a registered kind is a panic.\<close>

fun add_known :: "GroupVersion \<Rightarrow> GoType list \<Rightarrow> kinds \<Rightarrow> (SchemeFailure + unit) \<times> kinds" where
  "add_known gv [] k = (Inr (), k)"
| "add_known gv (t # ts) k = (case k (gv, TypeName t) of
     None \<Rightarrow> add_known gv ts (k((gv, TypeName t) \<mapsto> t))
   | Some t' \<Rightarrow> if t' = t then add_known gv ts k else (Inl (Panicked ''Double registration of different types''), k))"

abbreviation k8s_type :: "string \<Rightarrow> GoType" where
  "k8s_type n \<equiv> \<lparr>PkgPath = ''k8s.io/api'', TypeName = n\<rparr>"

definition ref_machinery :: "(kinds, kinds registration list) Machinery" where
  "ref_machinery = \<lparr>
     AddKnownTypes = (\<lambda>gv ts. State (add_known gv ts)),
     AddToGroupVersion = (\<lambda>gv. State (add_known gv [k8s_type ''WatchEvent'', k8s_type ''ListOptions''])),
     NewSchemeBuilder = (\<lambda>rs. rs),
     Builder_AddToScheme = run_all,
     clientgo_AddToScheme = State (add_known core_v1 [k8s_type ''Pod'']),
     resource_AddToScheme = State (add_known resource_v1 [k8s_type ''ResourceClaim'', k8s_type ''ResourceClaimTemplate''])\<rparr>"

lemma add_known_keeps: "k \<subseteq>\<^sub>m snd (add_known gv ts k)"
proof (induction ts arbitrary: k)
  case (Cons t ts)
  have "k \<subseteq>\<^sub>m k((gv, TypeName t) \<mapsto> t)" if "k (gv, TypeName t) = None" using that by (auto simp: map_le_def)
  with Cons show ?case by (auto split: option.split intro: map_le_trans)
qed simp

lemma add_known_adds: "fst (add_known gv ts k) = Inr () \<Longrightarrow> t \<in> set ts \<Longrightarrow> snd (add_known gv ts k) (gv, TypeName t) = Some t"
proof (induction ts arbitrary: k)
  case (Cons a ts)
  show ?case
  proof (cases "t = a")
    case True
    with Cons.prems(1) show ?thesis
      using add_known_keeps [of "k((gv, TypeName a) \<mapsto> a)" gv ts] add_known_keeps [of k gv ts]
      by (auto simp: map_le_def dom_def split: option.splits if_splits)
  next
    case False
    with Cons show ?thesis by (auto split: option.splits if_splits)
  qed
qed simp

lemma add_known_registers: "registers (\<lambda>k. k) (\<lambda>k. \<forall>t\<in>set ts. k (gv, TypeName t) = Some t) (State (add_known gv ts))"
  by (simp add: registers_def add_known_keeps add_known_adds)

lemma registers_weaken: "registers known p r \<Longrightarrow> (\<And>k. p k \<Longrightarrow> q k) \<Longrightarrow> registers known q r"
  unfolding registers_def by blast

interpretation ref_scheme: scheme_machinery ref_machinery "\<lambda>k. k"
  unfolding ref_machinery_def
  by unfold_locales (auto intro: registers_weaken [OF add_known_registers])

section \<open>Properties\<close>

text \<open>C37: neither binary starts without its types.  When the \<open>init\<close> of the manager or of the IPAM webhook gets through, the
  scheme knows NumaNetwork and NumaNetworkList under numaflow.numaproj.io/v1alpha1 as the types of this repository, and
  Pod; that of the manager also knows ResourceClaim and ResourceClaimTemplate.  Kinds known before stay as they are,
  also when it panics, and a failed registration of these types is always a panic.\<close>

theorem scheme_complete:
  assumes "scheme_machinery m known" "init \<in> {manager_init m, ipam_init m}" "run_state init w = (r, w')"
  shows "known w \<subseteq>\<^sub>m known w' \<and>
    (r = Inr () \<longrightarrow> api_kinds (known w') \<and> (core_v1, ''Pod'') \<in> dom (known w') \<and>
       (init = manager_init m \<longrightarrow> {(resource_v1, ''ResourceClaim''), (resource_v1, ''ResourceClaimTemplate'')} \<subseteq> dom (known w'))) \<and>
    (\<forall>e. r \<noteq> Inl (Returned e))"
proof -
  note laws = scheme_machinery.ipam_init_registers [OF assms(1)] scheme_machinery.manager_init_registers [OF assms(1)]
  have "known w \<subseteq>\<^sub>m known w' \<and> (r = Inr () \<longrightarrow> api_kinds (known w') \<and> (core_v1, ''Pod'') \<in> dom (known w'))"
    using assms(2,3) laws unfolding registers_def by (metis fst_conv snd_conv insertE singletonD)
  moreover have "{(resource_v1, ''ResourceClaim''), (resource_v1, ''ResourceClaimTemplate'')} \<subseteq> dom (known w')"
    if "r = Inr ()" "init = manager_init m"
    using that assms(3) laws(2) unfolding registers_def by (metis fst_conv snd_conv)
  ultimately show ?thesis using init_panics [OF assms(2,3)] by blast
qed

theorem scheme_complete_witness:
  "\<exists>k. run_state (manager_init ref_machinery) Map.empty = (Inr (), k) \<and> api_kinds k \<and>
     (resource_v1, ''ResourceClaimTemplate'') \<in> dom k"
proof -
  obtain r k where run: "run_state (manager_init ref_machinery) Map.empty = (r, k)" by (meson surj_pair)
  then have "r = Inr ()"
    by (auto simp: manager_init_def Must_def AddToScheme_def SchemeBuilder_def addKnownTypes_def ref_machinery_def run_call
      SchemeGroupVersion_def api_type_def)
  with run scheme_complete [OF ref_scheme.scheme_machinery_axioms, of "manager_init ref_machinery" Map.empty r k]
  show ?thesis by (metis insertI1 insert_subset)
qed

end
