(* ===== verification/TestUtils.thy ===== *)
theory TestUtils
  imports GoStrings
begin

text \<open>
  \<open>test/utils/utils.go\<close>: what the end-to-end tests use to run commands, to look after cert-manager and to edit
  files.  Processes, the environment and files belong to the operating system, the parameter \<open>OS\<close>; a Go call that
  returns a value and an error returns both.  A write to a \<open>bytes.Buffer\<close> never fails, and lines
  written to the test log have no counterpart.
\<close>

section \<open>Strings and lines\<close>

fun Index :: "string \<Rightarrow> string \<Rightarrow> nat option" where
  "Index s sub = (if take (length sub) s = sub then Some 0
     else case s of [] \<Rightarrow> None | _ # s' \<Rightarrow> map_option Suc (Index s' sub))"

declare Index.simps [simp del]

definition Contains :: "string \<Rightarrow> string \<Rightarrow> bool" where
  "Contains s sub \<longleftrightarrow> Index s sub \<noteq> None"

text \<open>\<open>strings.ReplaceAll\<close> for a non-empty \<open>old\<close>.\<close>

function ReplaceAll :: "string \<Rightarrow> string \<Rightarrow> string \<Rightarrow> string" where
  "ReplaceAll s old new = (if s = [] \<or> old = [] then s
     else if take (length old) s = old then new @ ReplaceAll (drop (length old) s) old new
     else hd s # ReplaceAll (tl s) old new)"
  by auto
termination by (relation "measure (\<lambda>(s, _, _). length s)") auto

declare ReplaceAll.simps [simp del]

definition TrimPrefix :: "string \<Rightarrow> string \<Rightarrow> string" where
  "TrimPrefix s pre = (if take (length pre) s = pre then drop (length pre) s else s)"

abbreviation newline :: char where
  "newline \<equiv> CHR 0x0A"

text \<open>
  \<open>bufio.Scanner\<close> with \<open>ScanLines\<close>: the lines without their ends, the end of the input ends the last line if
  there is anything in it.  One carriage return before the end of a line is dropped.  The scanner stops at a line that
  does not fit into its buffer of 64 kB.
\<close>

definition MaxScanTokenSize :: nat where
  "MaxScanTokenSize = 64 * 1024"

definition raw_lines :: "string \<Rightarrow> string list" where
  "raw_lines s = (let ps = Split newline s in if last ps = [] then butlast ps else ps)"

definition dropCR :: "string \<Rightarrow> string" where
  "dropCR l = (if l \<noteq> [] \<and> last l = CHR 0x0D then butlast l else l)"

definition scan_lines :: "string \<Rightarrow> string list" where
  "scan_lines s = map dropCR (takeWhile (\<lambda>l. length l < MaxScanTokenSize) (raw_lines s))"

section \<open>The helpers\<close>

record Cmd =
  Args :: "string list"
  Dir :: string
  Env :: "string list"

definition Command :: "string \<Rightarrow> string list \<Rightarrow> Cmd" where
  "Command name args = \<lparr>Args = name # args, Dir = [], Env = []\<rparr>"

record 'w OS =
  Getwd :: "('w, string \<times> string option) state"
  Chdir :: "string \<Rightarrow> ('w, string, unit) io"
  Environ :: "('w, string list) state"
  LookupEnv :: "string \<Rightarrow> ('w, string option) state"
  CombinedOutput :: "Cmd \<Rightarrow> ('w, string \<times> string option) state"
  ReadFile :: "string \<Rightarrow> ('w, string, string) io"
  WriteFile :: "string \<Rightarrow> string \<Rightarrow> ('w, string, unit) io"

datatype UtilError =
    GetwdFailed string
  | CommandFailed string string string
  | ReadFailed string string
  | TargetNotFound string
  | WriteFailed string string

definition certmanagerVersion :: string where
  "certmanagerVersion = ''v1.20.2''"

definition certmanagerURL :: string where
  "certmanagerURL = ''https://github.com/cert-manager/cert-manager/releases/download/'' @ certmanagerVersion @ ''/cert-manager.yaml''"

definition defaultKindBinary :: string where
  "defaultKindBinary = ''kind''"

definition defaultKindCluster :: string where
  "defaultKindCluster = ''kind''"

definition GetProjectDir :: "'w OS \<Rightarrow> ('w, string \<times> UtilError option) state" where
  "GetProjectDir os = State_Monad.bind (Getwd os) (\<lambda>(wd, err). State_Monad.return
     (case err of Some e \<Rightarrow> (wd, Some (GetwdFailed e)) | None \<Rightarrow> (ReplaceAll wd ''/test/e2e'' [], None)))"

definition Run :: "'w OS \<Rightarrow> Cmd \<Rightarrow> ('w, string \<times> UtilError option) state" where
  "Run os cmd =
     State_Monad.bind (GetProjectDir os) (\<lambda>(dir, _).
     State_Monad.bind (Chdir os dir) (\<lambda>_.
     State_Monad.bind (Environ os) (\<lambda>env.
     State_Monad.bind (CombinedOutput os (cmd\<lparr>Dir := dir, Env := env @ [''GO111MODULE=on'']\<rparr>)) (\<lambda>(output, err).
     State_Monad.return
       (output, map_option (CommandFailed (Join (Args cmd) '' '') output) err)))))"

text \<open>A run whose output is not used.\<close>

definition run_quiet :: "'w OS \<Rightarrow> string \<Rightarrow> string list \<Rightarrow> ('w, UtilError option) state" where
  "run_quiet os name args = State_Monad.bind (Run os (Command name args)) (\<lambda>(_, err). State_Monad.return err)"

fun delete_leases :: "'w OS \<Rightarrow> string list \<Rightarrow> ('w, unit) state" where
  "delete_leases os [] = State_Monad.return ()"
| "delete_leases os (lease # leases) =
     State_Monad.bind (run_quiet os ''kubectl'' [''delete'', ''lease'', lease, ''-n'', ''kube-system'', ''--ignore-not-found'', ''--force'', ''--grace-period=0''])
       (\<lambda>_. delete_leases os leases)"

definition UninstallCertManager :: "'w OS \<Rightarrow> ('w, unit) state" where
  "UninstallCertManager os =
     State_Monad.bind (run_quiet os ''kubectl'' [''delete'', ''-f'', certmanagerURL])
       (\<lambda>_. delete_leases os [''cert-manager-cainjector-leader-election'', ''cert-manager-controller''])"

definition InstallCertManager :: "'w OS \<Rightarrow> ('w, UtilError option) state" where
  "InstallCertManager os =
     State_Monad.bind (run_quiet os ''kubectl'' [''apply'', ''-f'', certmanagerURL])
       (\<lambda>err. case err of Some e \<Rightarrow> State_Monad.return (Some e)
        | None \<Rightarrow> run_quiet os ''kubectl'' [''wait'', ''deployment.apps/cert-manager-webhook'', ''--for'', ''condition=Available'',
            ''--namespace'', ''cert-manager'', ''--timeout'', ''5m''])"

fun GetNonEmptyLines_loop :: "string list \<Rightarrow> string list \<Rightarrow> string list" where
  "GetNonEmptyLines_loop [] res = res"
| "GetNonEmptyLines_loop (element # elements) res =
     GetNonEmptyLines_loop elements (if element \<noteq> [] then res @ [element] else res)"

definition GetNonEmptyLines :: "string \<Rightarrow> string list" where
  "GetNonEmptyLines output = GetNonEmptyLines_loop (Split newline output) []"

definition certManagerCRDs :: "string list" where
  "certManagerCRDs = [''certificates.cert-manager.io'', ''issuers.cert-manager.io'', ''clusterissuers.cert-manager.io'',
     ''certificaterequests.cert-manager.io'', ''orders.acme.cert-manager.io'', ''challenges.acme.cert-manager.io'']"

definition IsCertManagerCRDsInstalled :: "'w OS \<Rightarrow> ('w, bool) state" where
  "IsCertManagerCRDsInstalled os =
     State_Monad.bind (Run os (Command ''kubectl'' [''get'', ''crds''])) (\<lambda>(output, err). State_Monad.return
       (case err of Some _ \<Rightarrow> False
        | None \<Rightarrow> list_ex (\<lambda>crd. list_ex (\<lambda>line. Contains line crd) (GetNonEmptyLines output)) certManagerCRDs))"

definition LoadImageToKindClusterWithName :: "'w OS \<Rightarrow> string \<Rightarrow> ('w, UtilError option) state" where
  "LoadImageToKindClusterWithName os name =
     State_Monad.bind (LookupEnv os ''KIND_CLUSTER'') (\<lambda>c.
     let cluster = (case c of Some v \<Rightarrow> v | None \<Rightarrow> defaultKindCluster) in
     State_Monad.bind (LookupEnv os ''KIND'') (\<lambda>b.
     let kindBinary = (case b of Some v \<Rightarrow> v | None \<Rightarrow> defaultKindBinary) in
     run_quiet os kindBinary [''load'', ''docker-image'', name, ''--name'', cluster]))"

text \<open>The loop over the lines of the target: a line, and a line break if there is another one.\<close>

fun uncomment_loop :: "string \<Rightarrow> string \<Rightarrow> string list \<Rightarrow> string \<Rightarrow> string" where
  "uncomment_loop pre text [] out = out @ TrimPrefix text pre"
| "uncomment_loop pre text (text' # texts) out = uncomment_loop pre text' texts (out @ TrimPrefix text pre @ [newline])"

definition UncommentCode :: "'w OS \<Rightarrow> string \<Rightarrow> string \<Rightarrow> string \<Rightarrow> ('w, UtilError, unit) io" where
  "UncommentCode os filename target pre =
     call (ReadFile os filename) (\<lambda>err. fail (ReadFailed filename err)) (\<lambda>content.
       case Index content target of
         None \<Rightarrow> fail (TargetNotFound target)
       | Some idx \<Rightarrow>
           (case scan_lines target of
              [] \<Rightarrow> ok ()
            | text # texts \<Rightarrow>
                call (WriteFile os filename
                    (uncomment_loop pre text texts (take idx content) @ drop (idx + length target) content))
                  (\<lambda>err. fail (WriteFailed filename err)) ok))"

section \<open>Facts\<close>

lemma GetNonEmptyLines_eq: "GetNonEmptyLines output = filter (\<lambda>l. l \<noteq> []) (Split newline output)"
proof -
  have "GetNonEmptyLines_loop es res = res @ filter (\<lambda>l. l \<noteq> []) es" for es res
    by (induction es res rule: GetNonEmptyLines_loop.induct) auto
  then show ?thesis by (simp add: GetNonEmptyLines_def)
qed

lemma uncomment_loop_eq:
  "uncomment_loop pre t ts out = out @ Join (map (\<lambda>l. TrimPrefix l pre) (t # ts)) [newline]"
  by (induction pre t ts out rule: uncomment_loop.induct) auto

lemma TrimPrefix_append [simp]: "TrimPrefix (pre @ l) pre = l"
  by (simp add: TrimPrefix_def)

text \<open>\<open>Index\<close> is the place of the first occurrence.\<close>

lemma Index_Some_iff:
  "Index s sub = Some i \<longleftrightarrow> take (length sub) (drop i s) = sub \<and> i \<le> length s \<and> (\<forall>j<i. take (length sub) (drop j s) \<noteq> sub)"
proof (induction s arbitrary: i)
  case Nil
  then show ?case by (auto simp: Index.simps [of "[]"])
next
  case (Cons c s)
  show ?case
    by (cases i) (auto simp: Index.simps [of "c # s"] Cons.IH All_less_Suc2)
qed

text \<open>The lines of a text whose lines are given: a line break at the end makes no difference.\<close>

lemma scan_lines_Join:
  assumes "cs \<noteq> []" "t \<in> {[], [newline]}"
    and "\<forall>c\<in>set cs. newline \<notin> set c \<and> c \<noteq> [] \<and> last c \<noteq> CHR 0x0D \<and> length c < MaxScanTokenSize"
  shows "scan_lines (Join cs [newline] @ t) = cs"
proof -
  have "raw_lines (Join cs [newline] @ t) = cs"
  proof (cases "t = []")
    case True
    have "Split newline (Join cs [newline]) = cs" using assms(1,3) by (intro Split_Join) auto
    then show ?thesis using True assms(1,3) by (simp add: raw_lines_def)
  next
    case False
    then have "Join cs [newline] @ t = Join (cs @ [[]]) [newline]" using assms(1,2) by (simp add: Join_append)
    moreover have "Split newline (Join (cs @ [[]]) [newline]) = cs @ [[]]" using assms(3) by (intro Split_Join) auto
    ultimately show ?thesis by (simp add: raw_lines_def)
  qed
  moreover have "map dropCR cs = cs" using assms(3) by (intro map_idI) (simp add: dropCR_def)
  moreover have "takeWhile (\<lambda>l. length l < MaxScanTokenSize) cs = cs" using assms(3) by (simp add: takeWhile_eq_all_conv)
  ultimately show ?thesis unfolding scan_lines_def by argo
qed

section \<open>Properties\<close>

text \<open>C40: \<open>UncommentCode\<close> takes the comment prefix off every line of the target, at its first occurrence in the file, and
  leaves the rest of the file as it is, except that a line break at the end of the target is lost: the line after the
  target is then joined to its last line.\<close>

theorem UncommentCode_effect:
  assumes "ls \<noteq> []" "t \<in> {[], [newline]}" "target = Join (map (\<lambda>l. pre @ l) ls) [newline] @ t"
    and "\<forall>l\<in>set ls. newline \<notin> set (pre @ l) \<and> pre \<noteq> [] \<and> last (pre @ l) \<noteq> CHR 0x0D \<and> length (pre @ l) < MaxScanTokenSize"
    and "run_state (ReadFile os name) w = (Inr (before @ target @ after), w1)"
    and "\<forall>j<length before. take (length target) (drop j (before @ target @ after)) \<noteq> target"
  shows "run_state (UncommentCode os name target pre) w =
    (case run_state (WriteFile os name (before @ Join ls [newline] @ after)) w1 of
       (Inl e, w2) \<Rightarrow> (Inl (WriteFailed name e), w2) | (Inr _, w2) \<Rightarrow> (Inr (), w2))"
proof -
  have sc: "scan_lines target = map (\<lambda>l. pre @ l) ls"
    unfolding assms(3) using assms(1,2,4) by (intro scan_lines_Join) auto
  obtain l ls' where ls: "ls = l # ls'" using assms(1) by (cases ls) auto
  have "uncomment_loop pre (pre @ l) (map (\<lambda>l. pre @ l) ls') before = before @ Join ls [newline]"
    by (simp add: uncomment_loop_eq ls comp_def)
  moreover have "Index (before @ target @ after) target = Some (length before)"
    using assms(6) by (simp add: Index_Some_iff)
  ultimately show ?thesis
    using assms(5) sc by (simp add: UncommentCode_def run_call ls split: prod.split sum.split)
qed

text \<open>A file system with one file.\<close>

definition one_file :: "string OS" where
  "one_file = \<lparr>Getwd = State_Monad.return (''/src'', None), Chdir = (\<lambda>_. ok ()), Environ = State_Monad.return [],
     LookupEnv = (\<lambda>_. State_Monad.return None), CombinedOutput = (\<lambda>_. State_Monad.return ([], None)),
     ReadFile = (\<lambda>_. State (\<lambda>w. (Inr w, w))), WriteFile = (\<lambda>_ s. State (\<lambda>_. (Inr (), s)))\<rparr>"

theorem UncommentCode_effect_witness:
  "run_state (UncommentCode one_file ''f'' (''#a'' @ [newline]) ''#'') (''x'' @ [newline] @ ''#a'' @ [newline] @ ''y'') =
     (Inr (), ''x'' @ [newline] @ ''ay'')"
  using UncommentCode_effect [of "[''a'']" "[newline]" "''#a'' @ [newline]" "''#''" one_file "''f''" "''x'' @ [newline] @ ''#a'' @ [newline] @ ''y''"
        "''x'' @ [newline]" "''y''" "''x'' @ [newline] @ ''#a'' @ [newline] @ ''y''"]
  by (simp add: one_file_def MaxScanTokenSize_def All_less_Suc2 numeral_2_eq_2)

end
