(* ===== verification/Spec2Isabelle.thy ===== *)
theory Spec2Isabelle
  imports Cmd IpamHandler Dns NumaNetworkController Lifecycle PipelineWebhook PipelineMutator VertexDomainMutator VertexDomainController
    PodLifecycle Discovery AdmissionChain DeepCopy Scheme TestUtils
begin

text \<open>
  gpu-direct-comm gives the vertices of a Numaflow pipeline a second network: it hands out addresses of a
  user's network to Pods and publishes them under stable DNS names.  This development models its Go code
  and proves what makes the parts correct, alone and together.

  \<^bold>\<open>The program.\<close>  A user declares a \<open>NumaNetwork\<close> (a device class and an IPv4 range).
  The NumaNetwork controller writes a ResourceClaimTemplate for it, whose opaque parameters carry the profile
  \<open>namespace/name\<close>, and holds the NumaNetwork with a finalizer while ResourceClaims made from the
  template exist.  The Pipeline webhooks read the edge bindings in a Pipeline's annotation: the validating one
  checks them against the edges and the NumaNetworks that exist, the mutating one injects the templates into the
  vertices.  When a Pod's claim is prepared, dranet asks the IPAM webhook for the profile; the webhook looks the
  NumaNetwork up and runs the whereabouts CNI binary to allocate or release an address.  The Pod webhook marks
  the Pods of bound vertices with an FQDN and their targets' FQDNs, and the vertex domain controller publishes
  each Pod's address under that FQDN in the etcd that CoreDNS serves.

  \<^bold>\<open>Conventions.\<close>  Go strings are byte strings.  A call that leaves the program (the
  Kubernetes client, etcd, the whereabouts binary) is a computation over an abstract world; the world is a type
  variable, so what a theorem says about the final world also says which calls were made.  \<open>call m h f\<close> is
  \<open>x, err := m(); if err != nil { h }; f(x)\<close>.  Code outside the repository is a parameter with its documented
  behaviour as a named hypothesis: \<open>controllerutil_ok\<close> (finalizers, owner references, semantic equality),
  \<open>etcd_ok\<close> (the etcd client), \<open>pod_api_ok\<close> and \<open>pure_reads\<close> (the API server as seen by the
  DNS records and by the webhooks), \<open>unstructured_ok\<close> and \<open>pod_codec_ok\<close> (JSON trips of unstructured objects and Pods),
  \<open>name_service\<close> (DNS as a container sees it), \<open>meta_copier\<close> and \<open>scheme_machinery\<close>.  Each hypothesis has a reference instance on which every theorem is applied:
  \<open>ref_util\<close>, \<open>mem_etcd\<close>, \<open>cluster_client\<close>, \<open>dual_client\<close>, \<open>chain_lib\<close>, \<open>sender_plib\<close>,
  \<open>core_dns\<close>, \<open>ref_copiers\<close>, \<open>ref_machinery\<close>.  Log lines have no counterpart.

  \<^bold>\<open>Go's library.\<close>  \<open>Prelude\<close> holds the world monad and frame rules; \<open>GoStrings\<close> (Split,
  SplitN, Join), \<open>GoRegexp\<close> (the regular expressions of the program by derivatives), \<open>GoJson\<close>
  (encoding/json: UTF-8 repair and escaping when writing, a reader with Go's nesting limit, case-insensitive field
  matching, and the round trip \<open>Unmarshal_Marshal\<close>), \<open>GoNet\<close> (net.ParseIP, net.ParseCIDR and
  IP.String; the round trip is proved for IPv4 only), \<open>GoFlag\<close> (the flag package) and \<open>GoPath\<close> (filepath.Dir).

  \<^bold>\<open>The components.\<close>
  \<^item> \<open>ApiTypes\<close>: api/v1alpha1/numanetwork_types.go and labels.go, with the Kubernetes objects the code touches;
    \<open>Cluster\<close> is the reference API server.
  \<^item> \<open>Ipam\<close>: internal/ipam/profile.go, conf.go, wire.go and the prefix extraction of handler.go; \<open>IpamExec\<close>:
    exec.go; \<open>IpamHandler\<close>: handler.go.  Shown: what each answer of the two endpoints means and how far a
    request went before an error, that allocation and release use the same configuration and claim, that a claim
    UID can never smuggle arguments into the binary's environment, that the address sent to dranet is a CIDR.
  \<^item> \<open>Dns\<close>: internal/dns/store.go and etcd_store.go.  The locale \<open>dns_store\<close> is the contract of the Go
    interface \<open>Store\<close>, a map from (FQDN, Pod) to an address; \<open>EtcdStore\<close> refines it over every client
    that satisfies \<open>etcd_ok\<close>.
  \<^item> \<open>NumaNetworkController\<close>: internal/controller/numanetwork_controller.go, with the whole behaviour of
    \<open>reconcileRCT\<close> and the conditions under which the finalizer is released.  \<open>Lifecycle\<close> runs it
    against the reference API server as a state machine: user actions, claims and reconciliations whose calls may fail
    or lose their answers (\<open>Faults\<close>) interleave, and the invariants are that every claim finds its NumaNetwork and that every template is the one the controller
    builds for a NumaNetwork the API server accepts (\<open>api_valid\<close>, \<open>built_from\<close>).
  \<^item> \<open>VertexDomainController\<close>: internal/controller/vertexdomain_controller.go, proved over the contract
    \<open>dns_store\<close> alone, then instantiated with the etcd store.  \<open>PodLifecycle\<close> runs it against the reference API
    server and the reference etcd as a state machine with the same faults; the invariant is that DNS never names a Pod
    that is gone, and one reconciliation that works recovers what the failed ones left open.
  \<^item> \<open>Binding\<close>, \<open>VertexDomain\<close>, \<open>Admission\<close>, \<open>PipelineWebhook\<close>, \<open>PipelineMutator\<close>,
    \<open>VertexDomainMutator\<close>: the files of internal/webhook/v1alpha1 of the same names.  Shown: when the validation admits a Pipeline,
    what the two mutating webhooks answer to a Pipeline whose bindings parse and to the Pod of a bound vertex, against
    reference definitions of the claims and names they add (\<open>wanted_claims\<close>, \<open>marked_pod\<close>), and how long the wait
    for a template lasts.  \<open>AdmissionChain\<close> has the two
    Pipeline webhooks one after the other: a patch never changes the verdict of the validation.
  \<^item> \<open>Resolver\<close>: sdk/python/vertexdomain/resolver.py, over the contract \<open>name_service\<close>; \<open>Discovery\<close> puts it
    together with the Pod webhook and \<open>PodLifecycle\<close>: a vertex finds exactly the registered Pods of its destinations.
  \<^item> \<open>DeepCopy\<close>: api/v1alpha1/zz_generated.deepcopy.go, the only code whose correctness is a matter of aliasing, on an
    explicit heap of cells; the copies of ObjectMeta and ListMeta are parameters under the contract \<open>meta_copier\<close>.
    Shown: a copy has the value of the original and shares no cell with it.  Elsewhere objects are HOL values.
  \<^item> \<open>Scheme\<close>: api/v1alpha1/groupversion_info.go and the \<open>init\<close> functions of the binaries, over the contract
    \<open>scheme_machinery\<close> of apimachinery.
  \<^item> \<open>Cmd\<close>: cmd/main.go and cmd/webhook-whereabouts-numanetwork/main.go: flags, TLS and server options, and
    the order in which the parts are set up.
  \<^item> \<open>TestUtils\<close>: test/utils/utils.go, the helpers of the end-to-end tests.
  \<^item> This theory: what spans components, from the profile the controller writes to the lookup of the IPAM
    webhook, from the release of a claim in any reachable cluster to the whereabouts DEL, from the FQDN of the Pod
    webhook to the etcd key, from the reconciled template to the Pipeline webhook.

  \<^bold>\<open>Bounds.\<close>  The JSON reader spends one unit of fuel per call and gets \<open>read_fuel\<close>, twice the length
  of its input and three; \<open>read_value_fuel\<close> shows that more fuel never changes the result.  Go's own limit of 10000 nested values is kept.  The
  polling loop of \<open>resolveRCTName\<close> has no fuel: the \<open>select\<close> of the Go code is a parameter that says how
  many intervals pass before the deadline, and the loop recurses on that number.

  \<^bold>\<open>Not modelled.\<close>  The manager's watches and work queue (a reconciliation is one call; \<open>Lifecycle\<close> and
  \<open>PodLifecycle\<close> take them in any order), the informer cache behind the manager's client (a read that works sees the
  current object), retries inside the clients, log output, and the manifests.
  The steps of \<open>Lifecycle\<close> make a ResourceClaim only from the template of a NumaNetwork that is not
  being deleted; a claim made from a left-over template after the finalizer is gone is outside the invariant.
  The steps of \<open>PodLifecycle\<close> never take the vertex domain label, the FQDN annotation or the finalizer off a Pod by hand;
  what the controller does with a Pod that lost its label or annotation is shown in \<open>VertexDomainController\<close>.  Nor do they
  create a Pod with an FQDN of another namespace, which nothing in the program prevents: the webhook writes the FQDN of
  the Pod's own namespace (\<open>patched_pod_admitted\<close>), but it leaves a Pod alone that is no vertex of a Pipeline.
\<close>

section \<open>From the controller to the IPAM webhook\<close>

text \<open>The opaque parameters of the template the controller writes for a NumaNetwork.\<close>

definition template_params :: "NumaNetwork \<Rightarrow> string" where
  "template_params nn = (case rcts_Config (rct_Spec (BuildResourceClaimTemplate nn)) of
     [Some p] \<Rightarrow> Parameters p | _ \<Rightarrow> [])"

lemma template_params_eq: "template_params nn = Marshal (profile_params (nn_Namespace nn @ ''/'' @ nn_Name nn))"
  by (simp add: template_params_def BuildResourceClaimTemplate_def Let_def)

lemma decode_profile_params:
  assumes "is_ascii p"
  shows "Unmarshal dec_networkConfig (Marshal (profile_params p)) zero_config = Some (zero_config\<lparr>Profile := p\<rparr>)"
proof -
  let ?v = "JObj [(''profile'', JStr p)]"
  have v: "profile_params p = ?v" by (simp add: profile_params_def)
  have "Unmarshal dec_networkConfig (Marshal ?v) zero_config = dec_networkConfig (json_utf8 ?v) zero_config"
    by (rule Unmarshal_Marshal) (simp_all add: to_utf8_ascii assms maxNestingDepth_def)
  moreover have "json_utf8 ?v = ?v" by (simp add: to_utf8_ascii assms)
  ultimately show ?thesis
    by (simp add: v dec_networkConfig_def dec_field_def zero_config_def del: fold_name.simps Marshal.simps)
qed

text \<open>C20: the profile travels intact.  The opaque parameters that the controller writes into the template
  of a NumaNetwork decode, as the network configuration of a dranet request, to a profile from which the
  IPAM webhook recovers exactly that NumaNetwork's namespace and name.\<close>

theorem profile_reaches_ipam:
  assumes "is_ascii (nn_Namespace nn)" "is_ascii (nn_Name nn)" "nn_Namespace nn \<noteq> []" "nn_Name nn \<noteq> []"
    and "CHR ''/'' \<notin> set (nn_Namespace nn)" "CHR ''/'' \<notin> set (nn_Name nn)"
  shows "\<exists>cfg. Unmarshal dec_networkConfig (template_params nn) zero_config = Some cfg \<and>
    ParseProfileName (Profile cfg) = Inr (nn_Namespace nn, nn_Name nn)"
proof -
  have "is_ascii (nn_Namespace nn @ ''/'' @ nn_Name nn)" using assms(1,2) by simp
  from decode_profile_params [OF this] show ?thesis
    using assms(3-6) by (auto simp: template_params_eq ParseProfileName_Inr_iff)
qed

theorem profile_reaches_ipam_witness:
  "\<exists>cfg. Unmarshal dec_networkConfig (template_params (mk_network ''ns'' ''a'' ''vf'' ''10.0.0.0/24'')) zero_config = Some cfg \<and>
    ParseProfileName (Profile cfg) = Inr (''ns'', ''a'')"
  using profile_reaches_ipam [of "mk_network ''ns'' ''a'' ''vf'' ''10.0.0.0/24''"]
  by (simp add: mk_network_def empty_meta_def)

section \<open>From the claim to the whereabouts binary\<close>

lemma ipRange_valid_conf:
  assumes "ipRange_valid r" "name \<noteq> []"
  obtains conf where "BuildConfFromNuma name r = Inr conf"
proof -
  have "r \<noteq> []" using prefix_of_valid_range [OF assms(1)] ipRange_valid_form [OF assms(1)] by auto
  with assms(2) that show ?thesis by (simp add: BuildConfFromNuma_def Let_def)
qed

text \<open>C4: no address is leaked for want of its NumaNetwork.  In every reachable cluster, for every ResourceClaim made from
  a NumaNetwork: the release request that dranet sends, with the parameters the controller wrote into the template,
  passes every check of the IPAM webhook and reaches the whereabouts DEL with the configuration of that
  NumaNetwork's range; the answer is the outcome of the DEL and nothing else.\<close>

theorem claim_release_reaches_whereabouts:
  assumes "reachable w" "cl \<in> set (map snd (cl_claims w))"
    and "om_Namespace (rc_meta cl) = nn_Namespace nn" "om_Labels (rc_meta cl) LabelNumaNetworkName = Some (nn_Name nn)"
    and "Method r = ''POST''" "Decode dec_profileRequest (Body r) zero_request = Some req" "Config req = Some cfg"
    and "Unmarshal dec_networkConfig (template_params nn) zero_config = Some cfg"
  shows "\<exists>mm conf. run_state (GetNumaNetwork cluster_client (nn_Namespace nn, nn_Name nn)) w = (Inr mm, w) \<and>
    BuildConfFromNuma (nn_Name nn) (IPRange (RefResourceClaimDranet (nn_Spec mm))) = Inr conf \<and>
    run_state (releaseProfileConfig \<lparr>Handler_Client = cluster_client, Handler_Executor = ex\<rparr> r) w =
      (case run_state (Executor_Del ex conf (ClaimUID req)) w of
         (Inl e, w') \<Rightarrow> (HttpError 500 (DelFailed e), w') | (Inr _, w') \<Rightarrow> (HttpOK, w'))"
proof -
  have "related (nn_Namespace nn) (nn_Name nn) cl" using assms(3,4) by (simp add: related_def)
  then obtain mm where mm: "run_state (GetNumaNetwork cluster_client (nn_Namespace nn, nn_Name nn)) w = (Inr mm, w)"
    "nn_Namespace mm = nn_Namespace nn" "nn_Name mm = nn_Name nn" "api_valid mm"
    using claim_network [OF assms(1,2)] by metis
  note valid = mm(4) [unfolded api_valid_def mm(2,3)]
  obtain conf where conf: "BuildConfFromNuma (nn_Name nn) (IPRange (RefResourceClaimDranet (nn_Spec mm))) = Inr conf"
    using ipRange_valid_conf valid by metis
  have "is_ascii (nn_Namespace nn @ ''/'' @ nn_Name nn)" using valid by simp
  from decode_profile_params [OF this] assms(8) have "Profile cfg = nn_Namespace nn @ ''/'' @ nn_Name nn"
    by (auto simp: template_params_eq)
  then have "request_plan r = Inr (nn_Namespace nn, nn_Name nn, ClaimUID req)"
    using assms(5-7) valid ParseProfileName_Inr_iff [of "Profile cfg" "nn_Namespace nn" "nn_Name nn"] by (simp add: request_plan_def)
  with mm(1) conf show ?thesis
    by (intro exI [of _ mm] exI [of _ conf])
      (simp add: releaseProfileConfig_plan with_conf_def release_def run_call split: prod.split sum.split)
qed

theorem claim_release_reaches_whereabouts_witness:
  "run_state (releaseProfileConfig \<lparr>Handler_Client = cluster_client,
      Handler_Executor = \<lparr>Executor_Add = (\<lambda>_ _. fail NoIPs), Executor_Del = (\<lambda>_ _. ok ())\<rparr>\<rparr> (example_request ''ns/a'' ''u1'')) run_claimed =
     (HttpOK, run_claimed)"
proof -
  define ex :: "cluster CNIExecutor" where "ex = \<lparr>Executor_Add = (\<lambda>_ _. fail NoIPs), Executor_Del = (\<lambda>_ _. ok ())\<rparr>"
  let ?r = "example_request ''ns/a'' ''u1''"
  have nn: "nn_Namespace fresh_network = ''ns''" "nn_Name fresh_network = ''a''"
    by (simp_all add: fresh_network_def mk_network_def empty_meta_def)
  let ?cfg = "zero_config\<lparr>Profile := ''ns/a''\<rparr>"
  have req: "Decode dec_profileRequest (Body ?r) zero_request = Some \<lparr>Device = zero_device, ClaimUID = ''u1'', Config = Some ?cfg\<rparr>"
    by code_simp
  have par: "Unmarshal dec_networkConfig (template_params fresh_network) zero_config = Some ?cfg"
    unfolding template_params_eq nn using decode_profile_params [of "''ns/a''"] by simp
  have cl: "example_claim \<in> set (map snd (cl_claims run_claimed))" by (simp add: run_claimed_def)
  from claim_release_reaches_whereabouts [OF run_claimed_reachable cl _ _ _ req _ par, where ex = ex]
  have "run_state (releaseProfileConfig \<lparr>Handler_Client = cluster_client, Handler_Executor = ex\<rparr> ?r) run_claimed = (HttpOK, run_claimed)"
    by (auto simp: ex_def nn example_claim_def example_request_def empty_meta_def)
  then show ?thesis by (simp add: ex_def)
qed

section \<open>From the webhook to the DNS store\<close>

text \<open>the FQDN the Pod webhook builds is stored under the key
  \<open>/skydns/local/vertexdomain/<namespace>/<pipeline>/<vertex>\<close>.\<close>

theorem vertex_domain_key:
  assumes "BuildVertexDomain v p n = Inr f"
  shows "FQDNToEtcdKey f = Inr (''/skydns/local/vertexdomain/'' @ n @ ''/'' @ p @ ''/'' @ v)"
proof -
  have "dns_name f" using BuildVertexDomain_vertex_fqdn [OF assms] by (rule vertex_fqdn_dns_name)
  then show ?thesis using Split_vertex_domain [OF assms] by (simp add: FQDNToEtcdKey_dns_name)
qed

theorem vertex_domain_key_witness:
  "FQDNToEtcdKey ''in.p1.ns.vertexdomain.local'' = Inr ''/skydns/local/vertexdomain/ns/p1/in''"
  using vertex_domain_key [OF example_domains(1)] by simp

text \<open>C21: addresses of different vertices never mix: whatever a store operation does for the FQDN of one
  vertex, a later read under the FQDN of another vertex returns what the records of that vertex were
  before.\<close>

theorem vertices_isolated:
  assumes "etcd_ok (client s) kv" "etcd_good kv w"
    and "BuildVertexDomain v p n = Inr f" "BuildVertexDomain v' p' n' = Inr f'" "(v, p, n) \<noteq> (v', p', n')"
    and "pod_id pod" "is_ascii ip" "run_state (Put s f pod ip) w = (r, w1)"
    and "run_state (Get s f') w1 = (Inr ips, w2)"
  shows "\<exists>ps. distinct ps \<and> set ps = {q. etcd_records kv w (f', q) \<noteq> None} \<and>
    map Some ips = map (\<lambda>q. etcd_records kv w (f', q)) ps"
proof -
  have f: "vertex_fqdn f" "vertex_fqdn f'" using assms(3,4) BuildVertexDomain_vertex_fqdn by blast+
  have ne: "f' \<noteq> f" using BuildVertexDomain_inj [OF assms(3)] assms(4,5) by blast
  note put = Put_effect [OF assms(1,2) f(1) assms(6-8)]
  have "etcd_records kv w1 (f', q) = etcd_records kv w (f', q)" for q
    using put(2) ne by auto
  with Get_effect(2) [OF assms(1) put(1) f(2) assms(9) refl] show ?thesis by simp
qed

theorem vertices_isolated_witness:
  "\<exists>w1. run_state (Put \<lparr>client = mem_etcd\<rparr> ''in.p1.ns.vertexdomain.local'' ''p-0'' ''10.0.0.1'') [] = (Inr (), w1) \<and>
    (\<exists>w2. run_state (Get \<lparr>client = mem_etcd\<rparr> ''out.p1.ns.vertexdomain.local'') w1 = (Inr [], w2))"
proof -
  let ?s = "\<lparr>client = mem_etcd\<rparr>" and ?g = "''out.p1.ns.vertexdomain.local''"
  have ok: "etcd_ok (client ?s) map_of" by (simp add: mem_etcd_ok)
  have g: "vertex_fqdn ?g" by (rule BuildVertexDomain_vertex_fqdn [OF example_domains(2)])
  obtain w1 where p: "run_state (Put ?s ''in.p1.ns.vertexdomain.local'' ''p-0'' ''10.0.0.1'') [] = (Inr (), w1)"
    by (simp add: Put_runs example_fqdn) (simp add: mem_etcd_def)
  have "etcd_good map_of w1" using Put_effect(1) [OF ok mem_empty_good example_fqdn p] .
  obtain res w2 where get: "run_state (Get ?s ?g) w1 = (res, w2)" by fastforce
  have "\<exists>ips. res = Inr ips"
    using Get_Inl [OF ok \<open>etcd_good map_of w1\<close> g] get by (cases res) (auto simp: mem_etcd_def)
  then obtain ips where "res = Inr ips" ..
  with vertices_isolated [OF ok mem_empty_good example_domains(1,2) _ example_fqdn(2,3) p, of ips w2] get
  have "\<exists>ps. set ps = {q. etcd_records map_of [] (?g, q) \<noteq> None} \<and> map Some ips = map (\<lambda>q. etcd_records map_of [] (?g, q)) ps"
    by auto
  then show ?thesis using p get \<open>res = Inr ips\<close> by (auto simp: mem_empty_records)
qed


section \<open>From the controller to the Pipeline webhook\<close>

lemma resolve_single:
  assumes "run_state (ListRCTs c ns [(LabelNumaNetworkName, name)]) w = (Inr [t], w)"
  shows "run_state (resolveRCTName m c env ns name) w = (Inr (om_Name (rct_meta t)), w)"
  unfolding run_resolveRCTName Let_def by (rule resolve_loop_found [of 0]) (simp_all add: assms)

text \<open>C22: the two sides agree on names and labels: once the reconciler has created the template of a new
  NumaNetwork, the Pipeline webhook resolves that NumaNetwork to \<open><name>-rct\<close> at its first question.\<close>

theorem webhook_finds_reconciled_template:
  assumes "controllerutil_ok u"
    and "SetControllerReference u nn (rct_meta (BuildResourceClaimTemplate nn)) = Inr meta"
    and "map_of (cl_rcts w) (nn_Namespace nn, nn_Name nn @ ''-rct'') = None"
    and "list_all (\<lambda>(k, t). om_Namespace (rct_meta t) \<noteq> nn_Namespace nn \<or>
      om_Labels (rct_meta t) LabelNumaNetworkName \<noteq> Some (nn_Name nn)) (cl_rcts w)"
    and "run_state (reconcileRCT cluster_client u nn) w = (r, w')"
  shows "r = Inr () \<and> run_state (resolveRCTName m cluster_client env (nn_Namespace nn) (nn_Name nn)) w' =
    (Inr (nn_Name nn @ ''-rct''), w')"
proof -
  let ?d = "(BuildResourceClaimTemplate nn)\<lparr>rct_meta := meta\<rparr>" and ?key = "(nn_Namespace nn, nn_Name nn @ ''-rct'')"
  note m = desired_key [OF assms(1,2)]
  have "run_state (reconcileRCT cluster_client u nn) w = (Inr (), w\<lparr>cl_rcts := (?key, ?d) # filter (\<lambda>p. fst p \<noteq> ?key) (cl_rcts w)\<rparr>)"
    unfolding run_reconcileRCT [OF assms(1,2)]
    by (simp add: cluster_client_def api_defs assms(3) m) (cases w, simp add: api_put_def Let_def meta_key_def m)
  with assms(5) have r: "r = Inr ()" "w' = w\<lparr>cl_rcts := (?key, ?d) # filter (\<lambda>p. fst p \<noteq> ?key) (cl_rcts w)\<rparr>" by simp_all
  have "run_state (ListRCTs cluster_client (nn_Namespace nn) [(LabelNumaNetworkName, nn_Name nn)]) w' = (Inr [?d], w')"
    using assms(4) m by (auto simp: cluster_client_def api_list_def r(2) list_all_iff filter_empty_conv)
  from resolve_single [OF this] r(1) m show ?thesis by simp
qed

theorem webhook_finds_reconciled_template_witness:
  "run_state (resolveRCTName default_mutator cluster_client idle_env ''ns'' ''a'')
     (snd (run_state (reconcileRCT cluster_client ref_util fresh_network) (fresh_cluster []))) =
   (Inr ''a-rct'', snd (run_state (reconcileRCT cluster_client ref_util fresh_network) (fresh_cluster [])))"
  using webhook_finds_reconciled_template [OF ref_util_ok example_owner, of "fresh_cluster []" _ _ default_mutator idle_env, OF _ _ prod.collapse [symmetric]]
  by (simp add: fresh_cluster_def) (simp add: fresh_network_def mk_network_def empty_meta_def)

end
